(* ===== verification/Prelude.thy ===== *)
theory Prelude
  imports Main "HOL-Library.Word"
begin

text \<open>
  Shared vocabulary of the development: the proof collections the component
  theories fill, the Go integer types, and the generic facts on lists that
  several components use.

  Conventions. A Go \<^verbatim>\<open>string\<close> or \<^verbatim>\<open>[]byte\<close> is a HOL \<^typ>\<open>string\<close>: a HOL character
  is one byte, so \<^term>\<open>length s\<close> is Go's \<^verbatim>\<open>len(s)\<close>. A Go \<^verbatim>\<open>int\<close> or \<^verbatim>\<open>int64\<close> is an \<^typ>\<open>int\<close>;
  where the source's arithmetic can leave the 64-bit range the wrap-around is
  written out with \<open>i64\<close> below. Byte counts of objects that are
  in memory cannot leave that range and are added without it.
\<close>

named_theorems go_simps \<open>rewrite rules for the Go library functions\<close>
named_theorems row_simps \<open>field access and update on query-log rows\<close>
named_theorems est_simps \<open>size estimates of arguments, rows and chunks\<close>
named_theorems buf_simps \<open>buffer operations and observer traces\<close>

section \<open>Machine integers\<close>

text \<open>Two's complement wrap-around of Go's 64-bit signed arithmetic.\<close>

definition i64 :: "int \<Rightarrow> int" where
  "i64 x = sint (word_of_int x :: 64 word)"

text \<open>Go's integer division truncates towards zero.\<close>

definition goDiv :: "int \<Rightarrow> int \<Rightarrow> int" where
  "goDiv a b = sgn a * sgn b * (\<bar>a\<bar> div \<bar>b\<bar>)"

definition goMod :: "int \<Rightarrow> int \<Rightarrow> int" where
  "goMod a b = a - b * goDiv a b"

lemma i64_eq_signed_take_bit: "i64 x = signed_take_bit 63 x"
  by (simp add: i64_def sint_sbintrunc')

lemma i64_id: "- (2 ^ 63) \<le> x \<Longrightarrow> x < 2 ^ 63 \<Longrightarrow> i64 x = x"
  by (simp add: i64_eq_signed_take_bit signed_take_bit_int_eq_self)

lemma i64_lower: "- (2 ^ 63) \<le> i64 x"
  unfolding i64_eq_signed_take_bit
  by (rule signed_take_bit_int_greater_eq_minus_exp)

lemma i64_upper: "i64 x < 2 ^ 63"
  unfolding i64_eq_signed_take_bit
  by (rule signed_take_bit_int_less_exp)

lemma goDiv_nonneg [simp]: "0 \<le> a \<Longrightarrow> 0 < b \<Longrightarrow> goDiv a b = a div b"
  by (cases "a = 0") (auto simp: goDiv_def)

lemma goMod_nonneg [simp]: "0 \<le> a \<Longrightarrow> 0 < b \<Longrightarrow> goMod a b = a mod b"
  by (simp add: goMod_def minus_mult_div_eq_mod)

text \<open>The number of binary digits of a natural number.\<close>

fun bitLen :: "nat \<Rightarrow> nat" where
  "bitLen n = (if n = 0 then 0 else Suc (bitLen (n div 2)))"

declare bitLen.simps [simp del]

lemma bitLen_0 [simp]: "bitLen 0 = 0"
  by (simp add: bitLen.simps)

lemma bitLen_1 [simp]: "bitLen (Suc 0) = 1"
  by (simp add: bitLen.simps)

lemma bitLen_half: "0 < n \<Longrightarrow> bitLen (n div 2) < bitLen n"
  by (simp add: bitLen.simps [of n])

lemma bitLen_mono: "m \<le> n \<Longrightarrow> bitLen m \<le> bitLen n"
proof (induction n arbitrary: m rule: bitLen.induct)
  case (1 n)
  show ?case
  proof (cases "m = 0")
    case False
    with "1.prems" have "bitLen (m div 2) \<le> bitLen (n div 2)"
      by (intro "1.IH") (auto intro: div_le_mono)
    with False "1.prems" show ?thesis by (simp add: bitLen.simps [of m] bitLen.simps [of n])
  qed simp
qed

lemma bitLen_le: "n < 2 ^ k \<Longrightarrow> bitLen n \<le> k"
proof (induction k arbitrary: n)
  case (Suc k)
  then have "bitLen (n div 2) \<le> k" by simp
  then show ?case by (simp add: bitLen.simps [of n])
qed (simp add: bitLen.simps)

lemma bitLen_double: "0 < n \<Longrightarrow> bitLen (2 * n) = Suc (bitLen n)"
  by (simp add: bitLen.simps [of "2 * n"])

lemma bitLen_mult_power: "0 < n \<Longrightarrow> bitLen (n * 2 ^ k) = bitLen n + k"
proof (induction k)
  case (Suc k)
  then show ?case using bitLen_double [of "n * 2 ^ k"] by (simp add: mult_ac)
qed simp

section \<open>Lists\<close>

lemma sum_list_map_update_le:
  fixes f :: "'a \<Rightarrow> int"
  assumes "\<And>x. x \<in> set xs \<Longrightarrow> f x \<le> g x"
  shows "sum_list (map f xs) \<le> sum_list (map g xs)"
  using assms by (induction xs) (auto intro: add_mono)

lemma sum_list_map_nonneg:
  fixes f :: "'a \<Rightarrow> int"
  assumes "\<And>x. x \<in> set xs \<Longrightarrow> 0 \<le> f x"
  shows "0 \<le> sum_list (map f xs)"
  using assms by (induction xs) auto

lemma sum_list_le_const:
  fixes g :: "'a \<Rightarrow> nat"
  assumes "\<And>x. x \<in> set xs \<Longrightarrow> g x \<le> c"
  shows "sum_list (map g xs) \<le> length xs * c"
  using assms
proof (induction xs)
  case (Cons x xs)
  then have "g x \<le> c" "sum_list (map g xs) \<le> length xs * c" by auto
  then show ?case by simp
qed simp

lemma sum_list_strict_at:
  fixes g :: "'a \<Rightarrow> nat"
  assumes "x \<in> set xs" and "g x < h x" and "\<And>y. y \<noteq> x \<Longrightarrow> g y = h y"
  shows "sum_list (map g xs) < sum_list (map h xs)"
proof -
  have le: "g y \<le> h y" for y using assms(2,3) by (cases "y = x") auto
  obtain us vs where xs: "xs = us @ x # vs" using split_list [OF assms(1)] by blast
  have "sum_list (map g ys) \<le> sum_list (map h ys)" for ys
    by (rule sum_list_mono) (rule le)
  from this [of us] this [of vs] assms(2) show ?thesis by (simp add: xs)
qed

lemma take_append_drop_take:
  "take n xs @ take m (drop n xs) = take (n + m) xs"
  by (simp add: take_add)

lemma concat_neq_Nil: "xss \<noteq> [] \<Longrightarrow> \<forall>x \<in> set xss. x \<noteq> [] \<Longrightarrow> concat xss \<noteq> []"
  by (cases xss) auto

end
