(* ===== verification/GoStrings.thy ===== *)
theory GoStrings
  imports Prelude
begin

text \<open>
  The parts of Go's \<^verbatim>\<open>strings\<close>, \<^verbatim>\<open>strconv\<close>, \<^verbatim>\<open>fmt\<close> and \<^verbatim>\<open>unicode/utf8\<close> packages that the
  service uses, on byte strings, with the laws the components need: decimal
  printing and parsing, joining and quote doubling, UTF-8 well-formedness and
  rune boundaries.
\<close>

section \<open>Joining, counting, replacing\<close>

text \<open>\<^verbatim>\<open>strings.Join(parts, sep)\<close>.\<close>

fun joinS :: "string list \<Rightarrow> string \<Rightarrow> string" where
  "joinS [] sep = []"
| "joinS [x] sep = x"
| "joinS (x # y # ys) sep = x @ sep @ joinS (y # ys) sep"

text \<open>\<^verbatim>\<open>strings.Count(s, c)\<close> for a one-byte pattern.\<close>

definition countC :: "char \<Rightarrow> string \<Rightarrow> nat" where
  "countC c s = count_list s c"

text \<open>\<^verbatim>\<open>strings.ReplaceAll(s, c, r)\<close> for a one-byte pattern.\<close>

definition replaceC :: "char \<Rightarrow> string \<Rightarrow> string \<Rightarrow> string" where
  "replaceC c r s = concat (map (\<lambda>x. if x = c then r else [x]) s)"

text \<open>\<^verbatim>\<open>strings.HasPrefix(s, p)\<close>.\<close>

definition hasPrefix :: "string \<Rightarrow> string \<Rightarrow> bool" where
  "hasPrefix s p = (take (length p) s = p)"

lemma countC_simps [simp, go_simps]:
  "countC c [] = 0"
  "countC c (x # xs) = (if x = c then 1 else 0) + countC c xs"
  "countC c (xs @ ys) = countC c xs + countC c ys"
  by (auto simp: countC_def)

lemma countC_le_length: "countC c s \<le> length s"
  by (simp add: countC_def count_le_length)

lemma countC_take_le: "countC c (take n s) \<le> countC c s"
proof -
  have "countC c s = countC c (take n s) + countC c (drop n s)"
    by (metis append_take_drop_id countC_simps(3))
  then show ?thesis by simp
qed

lemma replaceC_simps [simp]:
  "replaceC c r [] = []"
  "replaceC c r (x # xs) = (if x = c then r else [x]) @ replaceC c r xs"
  "replaceC c r (xs @ ys) = replaceC c r xs @ replaceC c r ys"
  by (auto simp: replaceC_def)

lemma length_double_quote: "length (replaceC c [c, c] s) = length s + countC c s"
  by (induction s) auto

lemma length_joinS:
  "xs \<noteq> [] \<Longrightarrow> length (joinS xs sep) = sum_list (map length xs) + (length xs - 1) * length sep"
  by (induction xs sep rule: joinS.induct) auto

section \<open>Decimal numbers\<close>

definition digitChar :: "nat \<Rightarrow> char" where
  "digitChar d = char_of (48 + d)"

definition isDigit :: "char \<Rightarrow> bool" where
  "isDigit c = (48 \<le> (of_char c :: nat) \<and> (of_char c :: nat) \<le> 57)"

definition digitVal :: "char \<Rightarrow> nat" where
  "digitVal c = of_char c - 48"

text \<open>\<^verbatim>\<open>fmt.Sprintf("%d", n)\<close> and \<^verbatim>\<open>strconv.Itoa(n)\<close>.\<close>

fun natDec :: "nat \<Rightarrow> string" where
  "natDec n = (if n < 10 then [digitChar n] else natDec (n div 10) @ [digitChar (n mod 10)])"

declare natDec.simps [simp del]

definition itoa :: "int \<Rightarrow> string" where
  "itoa n = (if n < 0 then CHR ''-'' # natDec (nat (- n)) else natDec (nat n))"

text \<open>The value of a digit string, most significant digit first.\<close>

definition decVal :: "string \<Rightarrow> nat" where
  "decVal s = foldl (\<lambda>a c. 10 * a + digitVal c) 0 s"

text \<open>
  \<^verbatim>\<open>strconv.Atoi(s)\<close>: an optional sign and at least one digit, with a range
  error outside the 64-bit range; every error is \<^const>\<open>None\<close>.
\<close>

definition atoi :: "string \<Rightarrow> int option" where
  "atoi s =
     (let (neg, ds) = (case s of [] \<Rightarrow> (False, [])
                       | c # cs \<Rightarrow> if c = CHR ''-'' then (True, cs)
                                   else if c = CHR ''+'' then (False, cs) else (False, s))
      in if ds = [] \<or> \<not> list_all isDigit ds then None
         else let v = (if neg then - int (decVal ds) else int (decVal ds))
              in if - (2 ^ 63) \<le> v \<and> v < 2 ^ 63 then Some v else None)"

lemma digitChar_facts [simp]:
  "d < 10 \<Longrightarrow> isDigit (digitChar d)"
  "d < 10 \<Longrightarrow> digitVal (digitChar d) = d"
  "d < 10 \<Longrightarrow> digitChar d \<noteq> CHR ''-''"
  "d < 10 \<Longrightarrow> digitChar d \<noteq> CHR ''+''"
proof -
  assume d: "d < 10"
  have ofc: "(of_char (digitChar d) :: nat) = 48 + d"
    using d by (simp add: digitChar_def)
  show "isDigit (digitChar d)" "digitVal (digitChar d) = d"
    using d ofc by (auto simp: isDigit_def digitVal_def)
  show "digitChar d \<noteq> CHR ''-''" "digitChar d \<noteq> CHR ''+''"
    using ofc by auto
qed

lemma natDec_nonempty [simp]: "natDec n \<noteq> []"
  by (subst natDec.simps) simp

lemma natDec_digits: "list_all isDigit (natDec n)"
proof (induction n rule: natDec.induct)
  case (1 n)
  then show ?case by (subst natDec.simps) (auto)
qed

lemma decVal_append: "decVal (s @ [c]) = 10 * decVal s + digitVal c"
  by (simp add: decVal_def)

lemma decVal_natDec [simp]: "decVal (natDec n) = n"
proof (induction n rule: natDec.induct)
  case (1 n)
  show ?case
  proof (cases "n < 10")
    case True
    then show ?thesis by (subst natDec.simps) (simp add: decVal_def)
  next
    case False
    with 1 show ?thesis by (subst natDec.simps) (simp add: decVal_append)
  qed
qed

lemma natDec_inject [simp]: "natDec m = natDec n \<longleftrightarrow> m = n"
  by (metis decVal_natDec)

lemma length_natDec_mono: "m \<le> n \<Longrightarrow> length (natDec m) \<le> length (natDec n)"
proof (induction n arbitrary: m rule: natDec.induct)
  case (1 n)
  show ?case
  proof (cases "n < 10")
    case True
    with "1.prems" show ?thesis by (simp add: natDec.simps [of m] natDec.simps [of n])
  next
    case False
    have "m div 10 \<le> n div 10" using "1.prems" by (rule div_le_mono)
    with "1.IH" [OF False] have "length (natDec (m div 10)) \<le> length (natDec (n div 10))"
      by blast
    with False show ?thesis by (simp add: natDec.simps [of m] natDec.simps [of n])
  qed
qed

lemma natDec_hd_not_sign: "natDec n = c # cs \<Longrightarrow> c \<noteq> CHR ''-'' \<and> c \<noteq> CHR ''+''"
  using natDec_digits [of n] by (auto simp: isDigit_def)

lemma natDec_no_quote: "countC CHR 0x27 (natDec n) = 0"
proof -
  have "\<not> isDigit CHR 0x27" by (simp add: isDigit_def)
  then have "CHR 0x27 \<notin> set (natDec n)"
    using natDec_digits [of n] by (auto simp: list_all_iff)
  then show ?thesis by (simp add: countC_def)
qed

text \<open>Printing and reading back a 64-bit integer gives the integer.\<close>

lemma atoi_itoa: "- (2 ^ 63) \<le> n \<Longrightarrow> n < 2 ^ 63 \<Longrightarrow> atoi (itoa n) = Some n"
proof -
  assume n: "- (2 ^ 63) \<le> n" "n < 2 ^ 63"
  show ?thesis
  proof (cases "n < 0")
    case True
    with n show ?thesis by (simp add: atoi_def itoa_def natDec_digits)
  next
    case False
    obtain c cs where c: "natDec (nat n) = c # cs"
      using natDec_nonempty by (metis list.exhaust)
    have "decVal (c # cs) = nat n" "list_all isDigit (c # cs)"
      using decVal_natDec natDec_digits c by metis+
    with False n c natDec_hd_not_sign [OF c] show ?thesis
      by (simp add: atoi_def itoa_def)
  qed
qed

lemma atoi_range: "atoi s = Some v \<Longrightarrow> - (2 ^ 63) \<le> v \<and> v < 2 ^ 63"
  by (auto simp: atoi_def Let_def split: if_splits prod.splits)

section \<open>Texts with separators\<close>

lemma split_at_stop:
  assumes "list_all (\<lambda>x. x \<noteq> c) xs" and "list_all (\<lambda>x. x \<noteq> c) ys" and "xs @ c # u = ys @ c # v"
  shows "xs = ys \<and> u = v"
  using assms by (induction xs arbitrary: ys) (case_tac ys; auto)+

lemma split_at_last:
  assumes "list_all (\<lambda>x. x \<noteq> c) u" and "list_all (\<lambda>x. x \<noteq> c) v" and "xs @ c # u = ys @ c # v"
  shows "xs = ys \<and> u = v"
proof -
  have "rev u @ c # rev xs = rev v @ c # rev ys" using arg_cong [OF assms(3), of rev] by simp
  then have "rev u = rev v \<and> rev xs = rev ys" using assms(1,2) by (intro split_at_stop) (simp_all add: list_all_rev)
  then show ?thesis by simp
qed

lemma natDec_free: "\<not> isDigit c \<Longrightarrow> list_all (\<lambda>x. x \<noteq> c) (natDec n)"
  using natDec_digits [of n] by (auto simp: list_all_iff)

lemma itoa_free: "\<not> isDigit c \<Longrightarrow> c \<noteq> CHR ''-'' \<Longrightarrow> list_all (\<lambda>x. x \<noteq> c) (itoa n)"
  using natDec_free by (auto simp: itoa_def)

lemma stops_not_digit [simp]: "\<not> isDigit CHR '';''" "\<not> isDigit CHR '':''" "\<not> isDigit CHR ''-''" "\<not> isDigit CHR ''|''" "\<not> isDigit CHR '',''"
  by (simp_all add: isDigit_def)

lemma itoa_inject: "itoa m = itoa n \<longleftrightarrow> m = n"
proof
  assume eq: "itoa m = itoa n"
  show "m = n"
  proof (cases "m < 0 \<longleftrightarrow> n < 0")
    case True
    then show ?thesis using eq by (auto simp: itoa_def split: if_splits)
  next
    case False
    moreover obtain c cs d ds where "natDec (nat m) = c # cs" "natDec (nat n) = d # ds"
      by (metis natDec_nonempty list.exhaust)
    ultimately show ?thesis
      using eq natDec_hd_not_sign by (fastforce simp: itoa_def split: if_splits)
  qed
qed simp

text \<open>\<^verbatim>\<open>strings.Split(s, c)\<close> for a one-byte separator.\<close>

fun splitOn :: "char \<Rightarrow> string \<Rightarrow> string list" where
  "splitOn c [] = [[]]"
| "splitOn c (x # xs) = (if x = c then [] # splitOn c xs else (x # hd (splitOn c xs)) # tl (splitOn c xs))"

lemma splitOn_line: "list_all (\<lambda>x. x \<noteq> c) l \<Longrightarrow> splitOn c (l @ c # rest) = l # splitOn c rest"
  by (induction l) auto

lemma splitOn_last: "list_all (\<lambda>x. x \<noteq> c) l \<Longrightarrow> splitOn c l = [l]"
  by (induction l) auto

lemma splitOn_joinS:
  "xs \<noteq> [] \<Longrightarrow> \<forall>x \<in> set xs. list_all (\<lambda>y. y \<noteq> c) x \<Longrightarrow> splitOn c (joinS xs [c]) = xs"
  by (induction xs "[c]" rule: joinS.induct) (simp_all add: splitOn_last splitOn_line)

section \<open>Hexadecimal digits\<close>

definition hexLower :: "nat \<Rightarrow> char" where
  "hexLower d = char_of (if d < 10 then 48 + d else 87 + d)"

lemma hexLower_inject: "d < 16 \<Longrightarrow> d' < 16 \<Longrightarrow> hexLower d = hexLower d' \<longleftrightarrow> d = d'"
proof -
  have v: "(of_char :: char \<Rightarrow> nat) (hexLower d) = (if d < 10 then 48 + d else 87 + d)" if "d < 16" for d
    using that by (simp add: hexLower_def)
  assume d: "d < 16" "d' < 16"
  have "d = d'" if "hexLower d = hexLower d'"
  proof -
    have "(if d < 10 then 48 + d else 87 + d) = (if d' < 10 then 48 + d' else 87 + d')"
      using that v [OF d(1)] v [OF d(2)] by argo
    then show ?thesis using d by (cases "d < 10"; cases "d' < 10") simp_all
  qed
  then show ?thesis by blast
qed

section \<open>UTF-8\<close>

abbreviation byteVal :: "char \<Rightarrow> nat" where
  "byteVal c \<equiv> of_char c"

text \<open>\<^verbatim>\<open>utf8.RuneStart(b)\<close>: the top two bits of the byte are not \<open>10\<close>.\<close>

definition runeStart :: "char \<Rightarrow> bool" where
  "runeStart b = (byteVal b div 64 \<noteq> 2)"

abbreviation contByte :: "char \<Rightarrow> bool" where
  "contByte b \<equiv> \<not> runeStart b"

text \<open>
  The number of bytes of the well-formed encoded rune at the head of a string,
  0 when the head is not one (\<^verbatim>\<open>utf8.DecodeRuneInString\<close> then returns
  \<^verbatim>\<open>RuneError\<close> with width 1): the lead byte fixes the length, the bytes after it
  are continuation bytes, and the range of the second byte excludes overlong
  forms, surrogates and values above U+10FFFF.
\<close>

definition leadLen :: "char \<Rightarrow> nat" where
  "leadLen a =
     (let v = byteVal a in
      if v < 128 then 1
      else if 194 \<le> v \<and> v \<le> 223 then 2
      else if 224 \<le> v \<and> v \<le> 239 then 3
      else if 240 \<le> v \<and> v \<le> 244 then 4
      else 0)"

definition secondOk :: "char \<Rightarrow> char \<Rightarrow> bool" where
  "secondOk a b =
     (let v = byteVal a; w = byteVal b in
      (v = 224 \<longrightarrow> 160 \<le> w) \<and> (v = 237 \<longrightarrow> w \<le> 159) \<and>
      (v = 240 \<longrightarrow> 144 \<le> w) \<and> (v = 244 \<longrightarrow> w \<le> 143))"

definition runeLen :: "string \<Rightarrow> nat" where
  "runeLen s =
     (case s of [] \<Rightarrow> 0
      | a # t \<Rightarrow>
          if leadLen a \<le> length s \<and> list_all contByte (take (leadLen a - 1) t)
             \<and> list_all (secondOk a) (take 1 (take (leadLen a - 1) t))
          then leadLen a else 0)"

text \<open>\<^verbatim>\<open>utf8.ValidString(s)\<close>.\<close>

function validUtf8 :: "string \<Rightarrow> bool" where
  "validUtf8 s = (if s = [] then True else if runeLen s = 0 then False
                  else validUtf8 (drop (runeLen s) s))"
  by pat_completeness auto
termination
  by (relation "measure length") auto

declare validUtf8.simps [simp del]

text \<open>
  The runes of a string as groups of bytes, an ill-formed byte being a group of
  its own: what \<^verbatim>\<open>for range s\<close> and \<^verbatim>\<open>[]rune(s)\<close> walk over.
\<close>

function runes :: "string \<Rightarrow> string list" where
  "runes s = (if s = [] then []
              else let n = max 1 (runeLen s) in take n s # runes (drop n s))"
  by pat_completeness auto
termination
  by (relation "measure length") (auto simp: Let_def)

declare runes.simps [simp del]

lemma validUtf8_Nil [simp]: "validUtf8 []"
  by (simp add: validUtf8.simps)

lemma runeLen_Nil [simp]: "runeLen [] = 0"
  by (simp add: runeLen_def)

lemma runeLen_le: "runeLen s \<le> length s"
  by (cases s) (auto simp: runeLen_def)

text \<open>A well-formed head is recognised whatever is cut off after it.\<close>

lemma runeLen_take:
  assumes "0 < runeLen s" and "runeLen s \<le> n"
  shows "runeLen (take n s) = runeLen s"
proof -
  from assms(1) obtain a t where s: "s = a # t" by (cases s) auto
  with assms have len: "runeLen s = leadLen a" "leadLen a \<le> length s"
    by (auto simp: runeLen_def split: if_splits)
  from assms len s obtain m where n: "n = Suc m" by (cases n) auto
  have "min (leadLen a - 1) m = leadLen a - 1" using assms(2) len n by simp
  then show ?thesis
    using assms len unfolding s n by (auto simp: runeLen_def min_def split: if_splits)
qed

lemma runeLen_append:
  assumes "0 < runeLen s"
  shows "runeLen (s @ t) = runeLen s"
proof -
  from assms obtain a u where s: "s = a # u" by (cases s) auto
  with assms have "runeLen s = leadLen a" "leadLen a \<le> length s"
    by (auto simp: runeLen_def split: if_splits)
  with assms show ?thesis unfolding s by (auto simp: runeLen_def split: if_splits)
qed

text \<open>The bytes of a well-formed rune after the first are continuation bytes.\<close>

lemma runeLen_cont:
  assumes "0 < i" and "i < runeLen s"
  shows "contByte (s ! i)"
proof -
  from assms obtain a t where s: "s = a # t" by (cases s) auto
  with assms have c: "list_all contByte (take (leadLen a - 1) t)"
    and l: "runeLen s = leadLen a" "leadLen a \<le> length s"
    by (auto simp: runeLen_def split: if_splits)
  from assms l s obtain j where i: "i = Suc j" "j < leadLen a - 1" by (cases i) auto
  with c l s have "contByte (take (leadLen a - 1) t ! j)"
    by (auto simp: list_all_length)
  with i s show ?thesis by simp
qed

lemma validUtf8_append: "validUtf8 s \<Longrightarrow> validUtf8 t \<Longrightarrow> validUtf8 (s @ t)"
proof (induction s rule: validUtf8.induct)
  case (1 s)
  show ?case
  proof (cases "s = []")
    case False
    with "1.prems" have n: "0 < runeLen s" and v: "validUtf8 (drop (runeLen s) s)"
      by (auto simp: validUtf8.simps [of s] split: if_splits)
    from "1.IH" False n v "1.prems"(2) have "validUtf8 (drop (runeLen s) s @ t)" by simp
    with n runeLen_le [of s] show ?thesis
      by (simp add: validUtf8.simps [of "s @ t"] runeLen_append)
  qed (use 1 in simp)
qed

text \<open>Cutting a valid string in front of a rune start leaves a valid string.\<close>

lemma validUtf8_take:
  "validUtf8 s \<Longrightarrow> n < length s \<Longrightarrow> runeStart (s ! n) \<Longrightarrow> validUtf8 (take n s)"
proof (induction s arbitrary: n rule: validUtf8.induct)
  case (1 s)
  show ?case
  proof (cases "n = 0")
    case False
    let ?k = "runeLen s"
    from "1.prems" have s: "s \<noteq> []" by auto
    with "1.prems" have k: "0 < ?k" and v: "validUtf8 (drop ?k s)"
      by (auto simp: validUtf8.simps [of s] split: if_splits)
    have kn: "?k \<le> n"
      using runeLen_cont [of n s] False "1.prems"(3) by (meson not_le_imp_less neq0_conv)
    have "validUtf8 (take (n - ?k) (drop ?k s))"
      using "1.IH" [of "n - ?k"] s k v "1.prems"(2,3) kn runeLen_le [of s] by simp
    then show ?thesis
      using k kn by (subst validUtf8.simps) (simp add: runeLen_take drop_take)
  qed simp
qed

lemma concat_runes [simp]: "concat (runes s) = s"
proof (induction s rule: runes.induct)
  case (1 s)
  then show ?case by (subst runes.simps) (auto simp: Let_def)
qed

lemma runes_nonempty: "g \<in> set (runes s) \<Longrightarrow> g \<noteq> []"
proof (induction s rule: runes.induct)
  case (1 s)
  then show ?case by (subst (asm) runes.simps) (auto simp: Let_def split: if_splits)
qed

lemma runes_Nil [simp]: "runes [] = []"
  by (subst runes.simps) simp

lemma runes_eq_Nil [simp]: "runes s = [] \<longleftrightarrow> s = []"
  by (subst runes.simps) (simp add: Let_def)

end
