(* ===== verification/Event.thy ===== *)
theory Event
  imports GoStrings
begin

text \<open>
  Package \<^verbatim>\<open>event\<close>: Trino's \<^verbatim>\<open>QueryCompletedEvent\<close> as the service sees it after JSON
  decoding, its validation, and the millisecond reading of its durations.
  A pointer field that Jackson omits when empty is an \<^typ>\<open>'a option\<close>.
\<close>

section \<open>Instants and durations\<close>

text \<open>
  A \<^verbatim>\<open>time.Time\<close> is the instant it denotes, in nanoseconds since the Unix epoch;
  the zero \<^verbatim>\<open>time.Time\<close> is January 1 of year 1, 00:00 UTC. A \<^verbatim>\<open>time.Duration\<close> is
  its number of nanoseconds.
\<close>

type_synonym time = int
type_synonym duration = int

definition zeroTime :: time where
  "zeroTime = - 62135596800 * 1000000000"

definition isZeroTime :: "time \<Rightarrow> bool" where
  "isZeroTime t = (t = zeroTime)"

abbreviation (input) second :: duration where
  "second \<equiv> 1000000000"

text \<open>\<^verbatim>\<open>Duration.Millis\<close> and \<^verbatim>\<open>time.Duration.Milliseconds\<close>: truncation towards zero.\<close>

definition Millis :: "duration \<Rightarrow> int" where
  "Millis d = goDiv d 1000000"

section \<open>The event\<close>

record Metadata =
  md_QueryID :: string
  md_TransactionID :: "string option"
  md_Query :: string
  md_UpdateType :: "string option"
  md_PreparedQuery :: "string option"
  md_QueryState :: string
  md_URI :: string
  md_Plan :: "string option"
  md_JSONPlan :: "string option"

record Statistics =
  st_CPUTime :: duration
  st_WallTime :: duration
  st_QueuedTime :: duration
  st_AnalysisTime :: duration
  st_PlanningTime :: duration
  st_ExecutionTime :: duration
  st_PeakUserMemoryBytes :: int
  st_PeakTaskTotalMemory :: int
  st_PhysicalInputBytes :: int
  st_PhysicalInputRows :: int
  st_ProcessedInputBytes :: int
  st_ProcessedInputRows :: int
  st_OutputBytes :: int
  st_OutputRows :: int
  st_WrittenBytes :: int
  st_WrittenRows :: int
  st_CompletedSplits :: int

record Context =
  cx_User :: string
  cx_Principal :: "string option"
  cx_Source :: "string option"
  cx_Catalog :: "string option"
  cx_Schema :: "string option"
  cx_ClientTags :: "string list"
  cx_ResourceGroupID :: "string list"
  cx_QueryType :: "string option"
  cx_ServerVersion :: string
  cx_Environment :: string

record InputColumn =
  ic_Name :: string
  ic_Type :: string

text \<open>A nil slice of columns is \<^const>\<open>None\<close>: it is encoded differently from an empty one.\<close>

record InputMetadata =
  im_CatalogName :: string
  im_Schema :: string
  im_Table :: string
  im_Columns :: "InputColumn list option"
  im_PhysicalInputBytes :: "int option"
  im_PhysicalInputRows :: "int option"

record IOMetadata =
  io_Inputs :: "InputMetadata list"

record ErrorCode =
  ec_Code :: int
  ec_Name :: string
  ec_Type :: string

record FailureInfo =
  fi_ErrorCode :: ErrorCode
  fi_FailureType :: "string option"
  fi_FailureMessage :: "string option"

record Event =
  ev_Metadata :: Metadata
  ev_Statistics :: Statistics
  ev_Context :: Context
  ev_IOMetadata :: IOMetadata
  ev_FailureInfo :: "FailureInfo option"
  ev_CreateTime :: "time option"
  ev_ExecutionStartTime :: "time option"
  ev_EndTime :: "time option"

text \<open>Both errors of \<^verbatim>\<open>Validate\<close> wrap \<^verbatim>\<open>ErrInvalidEvent\<close>.\<close>

datatype invalid_event = MissingQueryID | MissingCreateTime

definition Validate :: "Event \<Rightarrow> invalid_event option" where
  "Validate e =
     (if md_QueryID (ev_Metadata e) = '''' then Some MissingQueryID
      else if ev_CreateTime e = None then Some MissingCreateTime
      else None)"

definition SourceValue :: "Event \<Rightarrow> string" where
  "SourceValue e = (case cx_Source (ev_Context e) of None \<Rightarrow> '''' | Some s \<Rightarrow> s)"

lemma Validate_None_iff:
  "Validate e = None \<longleftrightarrow> md_QueryID (ev_Metadata e) \<noteq> '''' \<and> ev_CreateTime e \<noteq> None"
  by (auto simp: Validate_def)

lemma Millis_nonneg: "0 \<le> d \<Longrightarrow> Millis d = d div 1000000"
  by (simp add: Millis_def)

end
