(* ===== verification/GoFloat.thy ===== *)
theory GoFloat
  imports GoStrings
begin

text \<open>
  The double-precision arithmetic that duration parsing goes through, on
  non-negative values. A finite \<^verbatim>\<open>float64\<close> is a fraction of naturals; \<open>fl p q\<close> is the
  double nearest to \<open>p / q\<close> with ties to even, subnormals included. An operation
  of the hardware is the exact one followed by \<open>fl\<close>.
\<close>

text \<open>\<open>p / q\<close> rounded to a natural, half to even.\<close>

definition roundDiv :: "nat \<Rightarrow> nat \<Rightarrow> nat" where
  "roundDiv p q =
     (let d = p div q; r = p mod q
      in if 2 * r < q then d else if q < 2 * r then Suc d else if even d then d else Suc d)"

text \<open>The exponent of the unit in the last place of the double nearest to \<open>p / q\<close>.\<close>

definition ulpExp :: "nat \<Rightarrow> nat \<Rightarrow> int" where
  "ulpExp p q =
     (let k = int (bitLen p) - int (bitLen q);
          below = (if 0 \<le> k then p < q * 2 ^ nat k else p * 2 ^ nat (- k) < q);
          lg = (if below then k - 1 else k)
      in max (lg - 52) (- 1074))"

definition fl :: "nat \<Rightarrow> nat \<Rightarrow> nat \<times> nat" where
  "fl p q =
     (let e = ulpExp p q
      in if 0 \<le> e then (roundDiv p (q * 2 ^ nat e) * 2 ^ nat e, 1)
         else (roundDiv (p * 2 ^ nat (- e)) q, 2 ^ nat (- e)))"

definition fmul :: "nat \<times> nat \<Rightarrow> nat \<times> nat \<Rightarrow> nat \<times> nat" where
  "fmul a b = fl (fst a * fst b) (snd a * snd b)"

definition fdiv :: "nat \<times> nat \<Rightarrow> nat \<times> nat \<Rightarrow> nat \<times> nat" where
  "fdiv a b = fl (fst a * snd b) (snd a * fst b)"

definition fadd :: "nat \<times> nat \<Rightarrow> nat \<times> nat \<Rightarrow> nat \<times> nat" where
  "fadd a b = fl (fst a * snd b + fst b * snd a) (snd a * snd b)"

text \<open>Conversion to an integer type truncates.\<close>

definition ftrunc :: "nat \<times> nat \<Rightarrow> nat" where
  "ftrunc a = fst a div snd a"

text \<open>Above the largest finite double a conversion from text is a range error.\<close>

definition fhuge :: "nat \<times> nat \<Rightarrow> bool" where
  "fhuge a = (2 ^ 1024 * snd a \<le> fst a)"

section \<open>Integers below \<open>2 ^ 53\<close> are exact\<close>

lemma roundDiv_exact: "0 < q \<Longrightarrow> roundDiv (n * q) q = n"
  by (simp add: roundDiv_def)

lemma fl_nat_exact:
  assumes "n < 2 ^ 53"
  shows "ftrunc (fl n 1) = n \<and> snd (fl n 1) * n = fst (fl n 1) \<and> 0 < snd (fl n 1)"
proof -
  have "bitLen n \<le> 53" using assms by (rule bitLen_le)
  then have e: "ulpExp n 1 \<le> 0" by (auto simp: ulpExp_def Let_def)
  show ?thesis
  proof (cases "ulpExp n 1 = 0")
    case True
    then show ?thesis using roundDiv_exact [of 1 n] by (simp add: fl_def ftrunc_def)
  next
    case False
    then show ?thesis
      using e roundDiv_exact [of 1 "n * 2 ^ nat (- ulpExp n 1)"]
      by (simp add: fl_def ftrunc_def Let_def)
  qed
qed


text \<open>Scaling a fraction by a power of two does not change its double.\<close>

lemma roundDiv_scale: "0 < c \<Longrightarrow> roundDiv (p * c) (q * c) = roundDiv p q"
proof -
  assume c: "0 < c"
  have "(p * c) div (q * c) = p div q" using c by simp
  moreover have "(p * c) mod (q * c) = p mod q * c" by (simp add: mult_mod_left)
  ultimately show ?thesis
    using c by (simp add: roundDiv_def Let_def flip: mult.assoc)
qed

lemma ulpExp_scale: "0 < p \<Longrightarrow> 0 < q \<Longrightarrow> ulpExp (p * 2 ^ k) (q * 2 ^ k) = ulpExp p q"
  by (simp add: ulpExp_def bitLen_mult_power Let_def mult_ac)

lemma fl_scale: "0 < p \<Longrightarrow> 0 < q \<Longrightarrow> fl (p * 2 ^ k) (q * 2 ^ k) = fl p q"
  using roundDiv_scale [of "2 ^ k" p "q * 2 ^ nat (ulpExp p q)"]
    roundDiv_scale [of "2 ^ k" "p * 2 ^ nat (- ulpExp p q)" q]
  by (simp add: fl_def ulpExp_scale Let_def mult_ac)

lemma fl_denominator: "\<exists>k. snd (fl p q) = 2 ^ k"
  by (auto simp: fl_def Let_def intro: exI [of _ 0])

text \<open>A product of two exact integers is exact while it stays below \<open>2 ^ 53\<close>.\<close>

lemma fmul_nat_exact:
  assumes "0 < a" and "0 < b" and "a * b < 2 ^ 53"
  shows "ftrunc (fmul (fl a 1) (fl b 1)) = a * b"
proof -
  have "a \<le> a * b" "b \<le> a * b" using assms by auto
  with assms(3) have lt: "a < 2 ^ 53" "b < 2 ^ 53" by linarith+
  obtain j k where "snd (fl a 1) = 2 ^ j" "snd (fl b 1) = 2 ^ k"
    using fl_denominator by metis
  then have "fst (fl a 1) = 2 ^ j * a" "fst (fl b 1) = 2 ^ k * b"
    and snds: "snd (fl a 1) * snd (fl b 1) = 1 * 2 ^ (j + k)"
    using fl_nat_exact [OF lt(1)] fl_nat_exact [OF lt(2)] by (simp_all add: power_add)
  then have "fst (fl a 1) * fst (fl b 1) = (a * b) * 2 ^ (j + k)"
    by (simp add: power_add)
  with snds have "fmul (fl a 1) (fl b 1) = fl (a * b) 1"
    unfolding fmul_def using fl_scale [of "a * b" 1 "j + k"] assms by simp
  with fl_nat_exact [OF assms(3)] show ?thesis by simp
qed

end
