(* ===== verification/IsoDuration.thy ===== *)
theory IsoDuration
  imports Event GoFloat
begin

text \<open>
  \<^verbatim>\<open>event/duration.go\<close>: the tolerant decoding of a duration and the parser of
  ISO-8601 durations such as \<^verbatim>\<open>PT1H2M3.5S\<close>.
\<close>

section \<open>Numbers\<close>

text \<open>A \<^verbatim>\<open>float64\<close> with its sign.\<close>

type_synonym f64 = "bool \<times> nat \<times> nat"

text \<open>
  \<^verbatim>\<open>strconv.ParseFloat(tok, 64)\<close> on a token of digits, dots and minus signs: an
  optional leading minus, digits with at most one dot, at least one digit;
  anything else is a syntax error and a value above the largest double is a
  range error (both \<^const>\<open>None\<close>).
\<close>

definition parseFloatTok :: "string \<Rightarrow> f64 option" where
  "parseFloatTok tok =
     (let (neg, body) = (case tok of c # cs \<Rightarrow> if c = CHR ''-'' then (True, cs) else (False, tok)
                         | [] \<Rightarrow> (False, []));
          whole = takeWhile (\<lambda>c. c \<noteq> CHR ''.'') body;
          frac = drop 1 (dropWhile (\<lambda>c. c \<noteq> CHR ''.'') body)
      in if list_all isDigit whole \<and> list_all isDigit frac \<and> whole @ frac \<noteq> []
         then let v = fl (decVal (whole @ frac)) (10 ^ length frac)
              in if fhuge v then None else Some (neg, v)
         else None)"

text \<open>
  \<^verbatim>\<open>time.Duration(num * float64(scale))\<close>: the product is rounded once and truncated;
  a value outside the 64-bit range becomes the smallest integer, as the
  conversion instruction of amd64 does.
\<close>

definition scaleF64 :: "f64 \<Rightarrow> nat \<Rightarrow> int" where
  "scaleF64 x scale =
     (let n = int (ftrunc (fmul (snd x) (fl scale 1)));
          v = (if fst x then - n else n)
      in if - (2 ^ 63) \<le> v \<and> v < 2 ^ 63 then v else - (2 ^ 63))"

section \<open>The parser\<close>

datatype dur_error = InvalidDuration | InvalidNumber | OutsideTimePart char | UnknownUnit char

definition isNumChar :: "char \<Rightarrow> bool" where
  "isNumChar c = (c = CHR ''.'' \<or> c = CHR ''-'' \<or> isDigit c)"

definition unitScale :: "char \<Rightarrow> bool \<Rightarrow> dur_error + nat" where
  "unitScale unit inTime =
     (if unit = CHR ''D'' then Inr (24 * 3600 * 1000000000)
      else if unit = CHR ''H'' then
        (if \<not> inTime then Inl (OutsideTimePart unit) else Inr (3600 * 1000000000))
      else if unit = CHR ''M'' then
        (if \<not> inTime then Inl (OutsideTimePart unit) else Inr (60 * 1000000000))
      else if unit = CHR ''S'' then
        (if \<not> inTime then Inl (OutsideTimePart unit) else Inr 1000000000)
      else Inl (UnknownUnit unit))"

function parseLoop :: "string \<Rightarrow> bool \<Rightarrow> duration \<Rightarrow> dur_error + duration" where
  "parseLoop s inTime tot =
     (case s of [] \<Rightarrow> Inr tot
      | c # cs \<Rightarrow>
          if c = CHR ''T'' then parseLoop cs True tot
          else
            (let tok = takeWhile isNumChar s
             in case dropWhile isNumChar s of [] \<Rightarrow> Inl InvalidDuration
                | unit # rest \<Rightarrow>
                    if tok = [] then Inl InvalidDuration
                    else
                      (case parseFloatTok tok of None \<Rightarrow> Inl InvalidNumber
                       | Some num \<Rightarrow>
                           (case unitScale unit inTime of Inl e \<Rightarrow> Inl e
                            | Inr scale \<Rightarrow> parseLoop rest inTime (i64 (tot + scaleF64 num scale))))))"
  by pat_completeness auto
termination
proof (relation "measure (\<lambda>(s, _, _). length s)")
  fix s :: string and c cs x21 x22 and inTime :: bool and tot :: int and num x2
  assume "s = c # cs" and "dropWhile isNumChar s = x21 # x22"
  then have "length x22 < length s" using length_dropWhile_le [of isNumChar s] by simp
  then show "((x22, inTime, i64 (tot + scaleF64 num x2)), s, inTime, tot) \<in>
      measure (\<lambda>(s, _, _). length s)" by simp
qed auto

declare parseLoop.simps [simp del]

definition parseISO8601Duration :: "string \<Rightarrow> dur_error + duration" where
  "parseISO8601Duration s =
     (if s = '''' then Inr 0
      else
        let (neg, s) = (if hd s = CHR ''-'' then (True, tl s)
                        else if hd s = CHR ''+'' then (False, tl s) else (False, s))
        in if s = [] \<or> hd s \<noteq> CHR ''P'' then Inl InvalidDuration
           else
             (case parseLoop (tl s) False 0 of Inl e \<Rightarrow> Inl e
              | Inr tot \<Rightarrow> Inr (if neg then i64 (- tot) else tot)))"

section \<open>Tolerant decoding\<close>

text \<open>
  The JSON token a duration is decoded from; a number is \<open>n * 10 ^ e\<close> with its
  sign. Every token decodes: what is not understood becomes 0.
\<close>

datatype jsonTok = JNull | JString string | JNumber bool nat int | JOther

definition jsonFloat :: "bool \<Rightarrow> nat \<Rightarrow> int \<Rightarrow> f64 option" where
  "jsonFloat neg n e =
     (let v = (if 0 \<le> e then fl (n * 10 ^ nat e) 1 else fl n (10 ^ nat (- e)))
      in if fhuge v then None else Some (neg, v))"

fun UnmarshalJSON :: "jsonTok \<Rightarrow> duration" where
  "UnmarshalJSON JNull = 0"
| "UnmarshalJSON (JString s) =
     (case parseISO8601Duration s of Inr d \<Rightarrow> d | Inl _ \<Rightarrow> 0)"
| "UnmarshalJSON (JNumber neg n e) =
     (case jsonFloat neg n e of Some x \<Rightarrow> scaleF64 x 1000000000 | None \<Rightarrow> 0)"
| "UnmarshalJSON JOther = 0"

section \<open>One component at a time\<close>

lemma takeWhile_dropWhile_tok:
  assumes "list_all p tok" and "\<not> p u"
  shows "takeWhile p (tok @ u # rest) = tok \<and> dropWhile p (tok @ u # rest) = u # rest"
  using assms by (induction tok) auto

lemma natDec_numChars: "list_all isNumChar (natDec n)"
  using natDec_digits [of n] by (auto simp: list_all_iff isNumChar_def)

lemma natDec_no_dot: "CHR ''.'' \<notin> set (natDec n)"
  using natDec_digits [of n] by (auto simp: list_all_iff isDigit_def)

lemma isDigit_not_dot: "isDigit c \<Longrightarrow> c \<noteq> CHR ''.''"
  by (auto simp: isDigit_def)

lemma digits_no_dot: "list_all isDigit s \<Longrightarrow> takeWhile (\<lambda>c. c \<noteq> CHR ''.'') s = s \<and>
    dropWhile (\<lambda>c. c \<noteq> CHR ''.'') s = []"
  by (induction s) (auto dest: isDigit_not_dot)

lemma parseFloatTok_natDec:
  assumes "n < 2 ^ 53"
  shows "parseFloatTok (natDec n) = Some (False, fl n 1)"
proof -
  obtain c cs where c: "natDec n = c # cs" by (metis natDec_nonempty list.exhaust)
  have "fst (fl n 1) = snd (fl n 1) * n" "0 < snd (fl n 1)"
    using fl_nat_exact [OF assms] by auto
  moreover have "n < 2 ^ 1024"
    using assms by (rule less_le_trans) (simp add: power_increasing)
  ultimately have "\<not> fhuge (fl n 1)" by (simp add: fhuge_def mult.commute)
  moreover have "c \<noteq> CHR ''-''" using natDec_hd_not_sign [OF c] by simp
  ultimately show ?thesis
    using c natDec_digits [of n] decVal_natDec [of n] digits_no_dot [of "natDec n"]
    by (simp add: parseFloatTok_def Let_def)
qed

lemma scaleF64_exact:
  assumes "0 < scale" and "n * scale < 2 ^ 53"
  shows "scaleF64 (False, fl n 1) scale = int (n * scale)"
proof (cases "n = 0")
  case True
  have "fst (fl 0 1) = 0" by (simp add: fl_def roundDiv_def Let_def)
  moreover have "ftrunc (fl 0 q) = 0" for q by (simp add: fl_def ftrunc_def roundDiv_def Let_def)
  ultimately show ?thesis using True by (simp add: scaleF64_def fmul_def Let_def)
next
  case False
  have "int (n * scale) < 2 ^ 53" using assms(2) by (metis of_nat_less_iff of_nat_numeral of_nat_power)
  then have "int (n * scale) < 2 ^ 63" by simp
  moreover have "- (2 ^ 63) \<le> int (n * scale)"
    by (rule order_trans [of _ 0]) (simp_all del: of_nat_mult)
  ultimately have "- (2 ^ 63) \<le> int (n * scale)" "int (n * scale) < 2 ^ 63" by blast+
  then show ?thesis
    using fmul_nat_exact [of n scale] False assms
    by (simp add: scaleF64_def Let_def del: of_nat_mult)
qed

lemma parseLoop_T: "parseLoop (CHR ''T'' # s) inTime tot = parseLoop s True tot"
  by (simp add: parseLoop.simps [of "CHR ''T'' # s"])

lemma parseLoop_component:
  assumes "unitScale u inTime = Inr scale" and "0 < scale" and "n * scale < 2 ^ 53"
  shows "parseLoop (natDec n @ u # rest) inTime tot =
    parseLoop rest inTime (i64 (tot + int (n * scale)))"
proof -
  have u: "\<not> isNumChar u"
    using assms(1) by (auto simp: unitScale_def isNumChar_def isDigit_def split: if_splits)
  obtain c cs where c: "natDec n = c # cs" by (metis natDec_nonempty list.exhaust)
  then have cT: "c \<noteq> CHR ''T''" using natDec_digits [of n] by (auto simp: isDigit_def)
  have "n \<le> n * scale" using assms(2) by simp
  then have "n < 2 ^ 53" using assms(3) by linarith
  then have pf: "parseFloatTok (c # cs) = Some (False, fl n 1)"
    unfolding c [symmetric] by (rule parseFloatTok_natDec)
  have tok: "takeWhile isNumChar ((c # cs) @ u # rest) = c # cs"
    "dropWhile isNumChar ((c # cs) @ u # rest) = u # rest"
    using takeWhile_dropWhile_tok [of isNumChar "c # cs" u rest] natDec_numChars [of n] u c
    by simp_all
  show ?thesis
    unfolding c using tok pf cT assms(1) scaleF64_exact [OF assms(2,3)]
    by (subst parseLoop.simps) (simp add: Let_def)
qed

lemma parseLoop_Nil [simp]: "parseLoop [] inTime tot = Inr tot"
  by (simp add: parseLoop.simps)

section \<open>Properties\<close>

text \<open>
  A duration of whole hours, minutes and seconds is read exactly, as long as
  each component stays below \<open>2 ^ 53\<close> nanoseconds (about 104 days).
\<close>

theorem parse_hms_exact:
  assumes "h * 3600000000000 < 2 ^ 53" and "m * 60000000000 < 2 ^ 53" and "s * 1000000000 < 2 ^ 53"
  shows "parseISO8601Duration (''PT'' @ natDec h @ ''H'' @ natDec m @ ''M'' @ natDec s @ ''S'') =
    Inr (int (h * 3600000000000 + m * 60000000000 + s * 1000000000))"
proof -
  let ?H = "int (h * 3600000000000)" and ?M = "int (m * 60000000000)" and ?S = "int (s * 1000000000)"
  have lt: "?H < 2 ^ 53" "?M < 2 ^ 53" "?S < 2 ^ 53"
    using assms by (metis of_nat_less_iff of_nat_numeral of_nat_power)+
  then have w: "i64 ?H = ?H" "i64 (?H + ?M) = ?H + ?M" "i64 (?H + ?M + ?S) = ?H + ?M + ?S"
    by (intro i64_id; simp)+
  have "parseLoop (CHR ''T'' # natDec h @ CHR ''H'' # natDec m @ CHR ''M'' # natDec s @ [CHR ''S'']) False 0
      = Inr (?H + ?M + ?S)"
    using assms w
    by (simp add: parseLoop_T parseLoop_component [where scale = 3600000000000]
        parseLoop_component [where scale = 60000000000]
        parseLoop_component [where scale = 1000000000] unitScale_def del: of_nat_mult)
  then show ?thesis by (simp add: parseISO8601Duration_def)
qed

theorem parse_hms_exact_witness:
  "parseISO8601Duration (''PT'' @ natDec 5 @ ''H'' @ natDec 30 @ ''M'' @ natDec 15 @ ''S'') =
    Inr 19815000000000"
  using parse_hms_exact [of 5 30 15] by simp


end
