(* ===== verification/StoreRow.thy ===== *)
theory StoreRow
  imports Event
begin

text \<open>
  The query-log row of package \<^verbatim>\<open>store\<close> (\<^verbatim>\<open>store.go\<close>): its columns, the argument list
  that is sent to a backend, the scan of a result row back into a \<^verbatim>\<open>Row\<close>, and
  the addresses of its string fields (\<^verbatim>\<open>truncate.go\<close>).
\<close>

section \<open>Rows and columns\<close>

record Row =
  QueryID :: string
  QueryState :: string
  QueryType :: string
  UserName :: string
  Source :: string
  Principal :: string
  ClientTags :: string
  Catalog :: string
  SchemaName :: string
  QueryText :: string
  QueryPreview :: string
  UpdateType :: string
  CreateTime :: time
  ExecutionStartTime :: "time option"
  EndTime :: "time option"
  QueuedMS :: int
  AnalysisMS :: int
  PlanningMS :: int
  ExecutionMS :: int
  WallMS :: int
  CPUMS :: int
  PeakUserMemoryBytes :: int
  PeakTotalMemoryBytes :: int
  PhysicalInputBytes :: int
  PhysicalInputRows :: int
  ProcessedInputBytes :: int
  ProcessedInputRows :: int
  OutputBytes :: int
  OutputRows :: int
  WrittenBytes :: int
  WrittenRows :: int
  CompletedSplits :: int
  RErrorCode :: string
  RErrorType :: string
  ErrorMessage :: string
  Plan :: string
  JSONPlan :: string
  InputsJSON :: string
  ResourceGroup :: string
  ServerVersion :: string
  Environment :: string

record column =
  name :: string
  sqlType :: string

definition col :: "string \<Rightarrow> string \<Rightarrow> column" where
  "col n t = \<lparr>name = n, sqlType = t\<rparr>"

definition schemaColumns :: "column list" where
  "schemaColumns =
    [col ''query_id'' ''varchar'',
     col ''query_state'' ''varchar'',
     col ''query_type'' ''varchar'',
     col ''user_name'' ''varchar'',
     col ''source'' ''varchar'',
     col ''principal'' ''varchar'',
     col ''client_tags'' ''varchar'',
     col ''catalog'' ''varchar'',
     col ''schema_name'' ''varchar'',
     col ''query_text'' ''varchar'',
     col ''query_preview'' ''varchar'',
     col ''update_type'' ''varchar'',
     col ''create_time'' ''timestamp(6) with time zone'',
     col ''execution_start_time'' ''timestamp(6) with time zone'',
     col ''end_time'' ''timestamp(6) with time zone'',
     col ''queued_ms'' ''bigint'',
     col ''analysis_ms'' ''bigint'',
     col ''planning_ms'' ''bigint'',
     col ''execution_ms'' ''bigint'',
     col ''wall_ms'' ''bigint'',
     col ''cpu_ms'' ''bigint'',
     col ''peak_user_memory_bytes'' ''bigint'',
     col ''peak_total_memory_bytes'' ''bigint'',
     col ''physical_input_bytes'' ''bigint'',
     col ''physical_input_rows'' ''bigint'',
     col ''processed_input_bytes'' ''bigint'',
     col ''processed_input_rows'' ''bigint'',
     col ''output_bytes'' ''bigint'',
     col ''output_rows'' ''bigint'',
     col ''written_bytes'' ''bigint'',
     col ''written_rows'' ''bigint'',
     col ''completed_splits'' ''bigint'',
     col ''error_code'' ''varchar'',
     col ''error_type'' ''varchar'',
     col ''error_message'' ''varchar'',
     col ''plan'' ''varchar'',
     col ''json_plan'' ''varchar'',
     col ''inputs_json'' ''varchar'',
     col ''resource_group'' ''varchar'',
     col ''server_version'' ''varchar'',
     col ''environment'' ''varchar'']"

text \<open>The dynamic types an \<^verbatim>\<open>any\<close> argument can have.\<close>

datatype arg = AStr string | AInt int | ATime time | ANil

definition timeArg :: "time option \<Rightarrow> arg" where
  "timeArg t = (case t of None \<Rightarrow> ANil | Some x \<Rightarrow> ATime x)"

definition args :: "Row \<Rightarrow> arg list" where
  "args r =
    [AStr (QueryID r), AStr (QueryState r), AStr (QueryType r), AStr (UserName r),
     AStr (Source r), AStr (Principal r), AStr (ClientTags r),
     AStr (Catalog r), AStr (SchemaName r), AStr (QueryText r), AStr (QueryPreview r),
     AStr (UpdateType r), ATime (CreateTime r), timeArg (ExecutionStartTime r),
     timeArg (EndTime r),
     AInt (QueuedMS r), AInt (AnalysisMS r), AInt (PlanningMS r), AInt (ExecutionMS r),
     AInt (WallMS r), AInt (CPUMS r),
     AInt (PeakUserMemoryBytes r), AInt (PeakTotalMemoryBytes r),
     AInt (PhysicalInputBytes r), AInt (PhysicalInputRows r),
     AInt (ProcessedInputBytes r), AInt (ProcessedInputRows r), AInt (OutputBytes r),
     AInt (OutputRows r), AInt (WrittenBytes r), AInt (WrittenRows r),
     AInt (CompletedSplits r), AStr (RErrorCode r), AStr (RErrorType r),
     AStr (ErrorMessage r), AStr (Plan r), AStr (JSONPlan r), AStr (InputsJSON r),
     AStr (ResourceGroup r), AStr (ServerVersion r), AStr (Environment r)]"

text \<open>
  \<^verbatim>\<open>rows.Scan(r.scanDests()...)\<close>: the values of a result row are stored into the
  fields in the order of \<^verbatim>\<open>scanDests\<close>. A value of the wrong type for its
  destination, or a wrong number of values, is a scan error (\<^const>\<open>None\<close>); a NULL is
  accepted only by a pointer destination.
\<close>

fun asStr :: "arg \<Rightarrow> string option" where
  "asStr (AStr s) = Some s" | "asStr _ = None"

fun asInt :: "arg \<Rightarrow> int option" where
  "asInt (AInt n) = Some n" | "asInt _ = None"

fun asTime :: "arg \<Rightarrow> time option" where
  "asTime (ATime t) = Some t" | "asTime _ = None"

fun asTimeOpt :: "arg \<Rightarrow> time option option" where
  "asTimeOpt (ATime t) = Some (Some t)" | "asTimeOpt ANil = Some None" | "asTimeOpt _ = None"

datatype dest =
    DStr "string \<Rightarrow> Row \<Rightarrow> Row"
  | DInt "int \<Rightarrow> Row \<Rightarrow> Row"
  | DTime "time \<Rightarrow> Row \<Rightarrow> Row"
  | DTimeOpt "time option \<Rightarrow> Row \<Rightarrow> Row"

definition scanDests :: "dest list" where
  "scanDests =
    [DStr (\<lambda>v. QueryID_update (\<lambda>_. v)), DStr (\<lambda>v. QueryState_update (\<lambda>_. v)),
     DStr (\<lambda>v. QueryType_update (\<lambda>_. v)), DStr (\<lambda>v. UserName_update (\<lambda>_. v)),
     DStr (\<lambda>v. Source_update (\<lambda>_. v)), DStr (\<lambda>v. Principal_update (\<lambda>_. v)),
     DStr (\<lambda>v. ClientTags_update (\<lambda>_. v)),
     DStr (\<lambda>v. Catalog_update (\<lambda>_. v)), DStr (\<lambda>v. SchemaName_update (\<lambda>_. v)),
     DStr (\<lambda>v. QueryText_update (\<lambda>_. v)), DStr (\<lambda>v. QueryPreview_update (\<lambda>_. v)),
     DStr (\<lambda>v. UpdateType_update (\<lambda>_. v)), DTime (\<lambda>v. CreateTime_update (\<lambda>_. v)),
     DTimeOpt (\<lambda>v. ExecutionStartTime_update (\<lambda>_. v)),
     DTimeOpt (\<lambda>v. EndTime_update (\<lambda>_. v)),
     DInt (\<lambda>v. QueuedMS_update (\<lambda>_. v)), DInt (\<lambda>v. AnalysisMS_update (\<lambda>_. v)),
     DInt (\<lambda>v. PlanningMS_update (\<lambda>_. v)), DInt (\<lambda>v. ExecutionMS_update (\<lambda>_. v)),
     DInt (\<lambda>v. WallMS_update (\<lambda>_. v)), DInt (\<lambda>v. CPUMS_update (\<lambda>_. v)),
     DInt (\<lambda>v. PeakUserMemoryBytes_update (\<lambda>_. v)),
     DInt (\<lambda>v. PeakTotalMemoryBytes_update (\<lambda>_. v)),
     DInt (\<lambda>v. PhysicalInputBytes_update (\<lambda>_. v)),
     DInt (\<lambda>v. PhysicalInputRows_update (\<lambda>_. v)),
     DInt (\<lambda>v. ProcessedInputBytes_update (\<lambda>_. v)),
     DInt (\<lambda>v. ProcessedInputRows_update (\<lambda>_. v)),
     DInt (\<lambda>v. OutputBytes_update (\<lambda>_. v)), DInt (\<lambda>v. OutputRows_update (\<lambda>_. v)),
     DInt (\<lambda>v. WrittenBytes_update (\<lambda>_. v)), DInt (\<lambda>v. WrittenRows_update (\<lambda>_. v)),
     DInt (\<lambda>v. CompletedSplits_update (\<lambda>_. v)), DStr (\<lambda>v. RErrorCode_update (\<lambda>_. v)),
     DStr (\<lambda>v. RErrorType_update (\<lambda>_. v)), DStr (\<lambda>v. ErrorMessage_update (\<lambda>_. v)),
     DStr (\<lambda>v. Plan_update (\<lambda>_. v)), DStr (\<lambda>v. JSONPlan_update (\<lambda>_. v)),
     DStr (\<lambda>v. InputsJSON_update (\<lambda>_. v)),
     DStr (\<lambda>v. ResourceGroup_update (\<lambda>_. v)), DStr (\<lambda>v. ServerVersion_update (\<lambda>_. v)),
     DStr (\<lambda>v. Environment_update (\<lambda>_. v))]"

fun store1 :: "dest \<Rightarrow> arg \<Rightarrow> Row \<Rightarrow> Row option" where
  "store1 (DStr f) a r = map_option (\<lambda>v. f v r) (asStr a)"
| "store1 (DInt f) a r = map_option (\<lambda>v. f v r) (asInt a)"
| "store1 (DTime f) a r = map_option (\<lambda>v. f v r) (asTime a)"
| "store1 (DTimeOpt f) a r = map_option (\<lambda>v. f v r) (asTimeOpt a)"

fun scanInto :: "dest list \<Rightarrow> arg list \<Rightarrow> Row \<Rightarrow> Row option" where
  "scanInto [] [] r = Some r"
| "scanInto (d # ds) (a # as) r =
     (case store1 d a r of None \<Rightarrow> None | Some r' \<Rightarrow> scanInto ds as r')"
| "scanInto _ _ _ = None"

text \<open>\<^verbatim>\<open>var r Row\<close>: every field has its zero value.\<close>

definition zeroRow :: Row where
  "zeroRow = \<lparr>QueryID = '''', QueryState = '''', QueryType = '''', UserName = '''',
     Source = '''', Principal = '''', ClientTags = '''', Catalog = '''', SchemaName = '''',
     QueryText = '''', QueryPreview = '''', UpdateType = '''', CreateTime = zeroTime,
     ExecutionStartTime = None, EndTime = None, QueuedMS = 0, AnalysisMS = 0, PlanningMS = 0,
     ExecutionMS = 0, WallMS = 0, CPUMS = 0, PeakUserMemoryBytes = 0, PeakTotalMemoryBytes = 0,
     PhysicalInputBytes = 0, PhysicalInputRows = 0, ProcessedInputBytes = 0,
     ProcessedInputRows = 0, OutputBytes = 0, OutputRows = 0, WrittenBytes = 0,
     WrittenRows = 0, CompletedSplits = 0, RErrorCode = '''', RErrorType = '''',
     ErrorMessage = '''', Plan = '''', JSONPlan = '''', InputsJSON = '''', ResourceGroup = '''',
     ServerVersion = '''', Environment = ''''\<rparr>"

definition scanRow :: "arg list \<Rightarrow> Row option" where
  "scanRow vals = scanInto scanDests vals zeroRow"

section \<open>String fields and their addresses\<close>

text \<open>
  \<^verbatim>\<open>largeFields\<close> and \<^verbatim>\<open>smallFields\<close> return pointers into a row. A pointer is the name
  of the field it points to; \<open>getF\<close> reads through it and \<open>setF\<close> writes through it.
\<close>

datatype sfield =
    FQueryID | FQueryState | FQueryType | FUserName | FSource | FPrincipal | FClientTags
  | FCatalog | FSchemaName | FQueryText | FQueryPreview | FUpdateType | FErrorCode
  | FErrorType | FErrorMessage | FPlan | FJSONPlan | FInputsJSON | FResourceGroup
  | FServerVersion | FEnvironment

fun getF :: "sfield \<Rightarrow> Row \<Rightarrow> string" where
  "getF FQueryID = QueryID" | "getF FQueryState = QueryState" | "getF FQueryType = QueryType"
| "getF FUserName = UserName" | "getF FSource = Source" | "getF FPrincipal = Principal"
| "getF FClientTags = ClientTags" | "getF FCatalog = Catalog" | "getF FSchemaName = SchemaName"
| "getF FQueryText = QueryText" | "getF FQueryPreview = QueryPreview"
| "getF FUpdateType = UpdateType" | "getF FErrorCode = RErrorCode"
| "getF FErrorType = RErrorType" | "getF FErrorMessage = ErrorMessage" | "getF FPlan = Plan"
| "getF FJSONPlan = JSONPlan" | "getF FInputsJSON = InputsJSON"
| "getF FResourceGroup = ResourceGroup" | "getF FServerVersion = ServerVersion"
| "getF FEnvironment = Environment"

fun setF :: "sfield \<Rightarrow> string \<Rightarrow> Row \<Rightarrow> Row" where
  "setF FQueryID v r = r\<lparr>QueryID := v\<rparr>" | "setF FQueryState v r = r\<lparr>QueryState := v\<rparr>"
| "setF FQueryType v r = r\<lparr>QueryType := v\<rparr>" | "setF FUserName v r = r\<lparr>UserName := v\<rparr>"
| "setF FSource v r = r\<lparr>Source := v\<rparr>" | "setF FPrincipal v r = r\<lparr>Principal := v\<rparr>"
| "setF FClientTags v r = r\<lparr>ClientTags := v\<rparr>" | "setF FCatalog v r = r\<lparr>Catalog := v\<rparr>"
| "setF FSchemaName v r = r\<lparr>SchemaName := v\<rparr>" | "setF FQueryText v r = r\<lparr>QueryText := v\<rparr>"
| "setF FQueryPreview v r = r\<lparr>QueryPreview := v\<rparr>"
| "setF FUpdateType v r = r\<lparr>UpdateType := v\<rparr>" | "setF FErrorCode v r = r\<lparr>RErrorCode := v\<rparr>"
| "setF FErrorType v r = r\<lparr>RErrorType := v\<rparr>"
| "setF FErrorMessage v r = r\<lparr>ErrorMessage := v\<rparr>" | "setF FPlan v r = r\<lparr>Plan := v\<rparr>"
| "setF FJSONPlan v r = r\<lparr>JSONPlan := v\<rparr>" | "setF FInputsJSON v r = r\<lparr>InputsJSON := v\<rparr>"
| "setF FResourceGroup v r = r\<lparr>ResourceGroup := v\<rparr>"
| "setF FServerVersion v r = r\<lparr>ServerVersion := v\<rparr>"
| "setF FEnvironment v r = r\<lparr>Environment := v\<rparr>"

definition largeFields :: "sfield list" where
  "largeFields = [FPlan, FJSONPlan, FQueryText, FErrorMessage, FInputsJSON]"

definition smallFields :: "sfield list" where
  "smallFields =
    [FQueryID, FQueryState, FQueryType, FUserName, FSource, FPrincipal,
     FClientTags, FCatalog, FSchemaName, FQueryPreview, FUpdateType, FErrorCode, FErrorType,
     FResourceGroup, FServerVersion, FEnvironment]"

definition stringFields :: "sfield list" where
  "stringFields = largeFields @ smallFields"

section \<open>Laws of the field addresses\<close>

lemma getF_setF_same [simp, row_simps]: "getF f (setF f v r) = v"
  by (cases f) simp_all

lemma getF_setF_other [simp, row_simps]: "f \<noteq> g \<Longrightarrow> getF g (setF f v r) = getF g r"
  by (cases f; cases g; simp)

lemma getF_setF: "getF g (setF f v r) = (if f = g then v else getF g r)"
  by simp

lemma setF_getF [simp, row_simps]: "setF f (getF f r) r = r"
  by (cases f) simp_all

lemma stringFields_all [simp]: "f \<in> set stringFields"
  by (cases f) (simp_all add: stringFields_def largeFields_def smallFields_def)

lemma distinct_stringFields: "distinct stringFields"
  by (simp add: stringFields_def largeFields_def smallFields_def)

lemma length_stringFields: "length stringFields = 21"
  by (simp add: stringFields_def largeFields_def smallFields_def)

lemma stringFields_nonempty [simp]: "stringFields \<noteq> []"
  by (simp add: stringFields_def largeFields_def)

lemma length_args [simp]: "length (args r) = 41"
  by (simp add: args_def)

lemma length_schemaColumns [simp]: "length schemaColumns = 41"
  by (simp add: schemaColumns_def)

lemma scanRow_roundtrip: "scanRow (args r) = Some r"
  by (simp add: scanRow_def scanDests_def args_def zeroRow_def timeArg_def split: option.split)

section \<open>Properties\<close>

text \<open>
  A stored row reads back unchanged: scanning the values written for a row,
  in column order, into the scan destinations gives the row itself. The 41
  entries of the insert order (\<^verbatim>\<open>args\<close>) and of the scan order (\<^verbatim>\<open>scanDests\<close>) agree.
\<close>

theorem scanRow_args: "scanRow (args r) = Some r"
  by (rule scanRow_roundtrip)

text \<open>The type of value each SQL column type takes.\<close>

fun valueOfType :: "string \<Rightarrow> arg \<Rightarrow> bool" where
  "valueOfType ty (AStr s) = (ty = ''varchar'')"
| "valueOfType ty (AInt n) = (ty = ''bigint'')"
| "valueOfType ty (ATime t) = hasPrefix ty ''timestamp''"
| "valueOfType ty ANil = hasPrefix ty ''timestamp''"


end
