(* ===== verification/Truncate.thy ===== *)
theory Truncate
  imports StoreRow
begin

text \<open>
  \<^verbatim>\<open>store/truncate.go\<close>: cutting a string to a byte budget on a rune boundary, with a
  marker when it fits, and capping every string field of a row.
\<close>

definition maxSmallFieldBytes :: int where
  "maxSmallFieldBytes = 16384"

text \<open>
  \<^verbatim>\<open>runeSafeCut(s, cut)\<close> backs up to a rune start. Its contract is \<open>cut < len(s)\<close>; both
  callers establish it, so every index it reads is in range.
\<close>

fun runeSafeCut :: "string \<Rightarrow> nat \<Rightarrow> nat" where
  "runeSafeCut s 0 = 0"
| "runeSafeCut s (Suc c) = (if \<not> runeStart (s ! Suc c) then runeSafeCut s c else Suc c)"

text \<open>\<^verbatim>\<open>fmt.Sprintf("\n...[truncated %d bytes]", n)\<close>; the ellipsis is U+2026.\<close>

definition marker :: "nat \<Rightarrow> string" where
  "marker n = [CHR 0x0A, CHR 0xE2, CHR 0x80, CHR 0xA6] @ ''[truncated '' @ natDec n @ '' bytes]''"

definition truncateS :: "string \<Rightarrow> int \<Rightarrow> string" where
  "truncateS s mx =
     (if int (length s) \<le> mx then s
      else if mx \<le> 0 then ''''
      else let cut = mx - int (length (marker (length s)))
           in if cut \<le> 0 then take (runeSafeCut s (nat mx)) s
              else let cut = runeSafeCut s (nat cut)
                   in take cut s @ marker (length s - cut))"

text \<open>\<^verbatim>\<open>for _, f := range fs { *f = truncate(*f, max) }\<close>\<close>

definition truncateAt :: "int \<Rightarrow> sfield \<Rightarrow> Row \<Rightarrow> Row" where
  "truncateAt mx f r = setF f (truncateS (getF f r) mx) r"

definition TruncateFields :: "Row \<Rightarrow> int \<Rightarrow> Row" where
  "TruncateFields r mx =
     (if mx \<le> 0 then r
      else let small = min mx maxSmallFieldBytes
           in fold (truncateAt small) smallFields (fold (truncateAt mx) largeFields r))"

section \<open>Cutting on rune boundaries\<close>

lemma runeSafeCut_le: "runeSafeCut s c \<le> c"
  by (induction s c rule: runeSafeCut.induct) auto

text \<open>The result is 0 or the start of a rune, and only continuation bytes are skipped.\<close>

lemma runeSafeCut_start: "runeSafeCut s c = 0 \<or> runeStart (s ! runeSafeCut s c)"
  by (induction s c rule: runeSafeCut.induct) auto

lemma runeSafeCut_skips: "runeSafeCut s c < i \<Longrightarrow> i \<le> c \<Longrightarrow> \<not> runeStart (s ! i)"
proof (induction s c rule: runeSafeCut.induct)
  case (2 s c)
  then show ?case by (cases "i = Suc c") (auto split: if_splits)
qed simp

lemma validUtf8_runeSafeCut:
  assumes "validUtf8 s" and "c < length s"
  shows "validUtf8 (take (runeSafeCut s c) s)"
proof (cases "runeSafeCut s c = 0")
  case False
  with runeSafeCut_start [of s c] have "runeStart (s ! runeSafeCut s c)" by blast
  moreover have "runeSafeCut s c < length s"
    using runeSafeCut_le [of s c] assms(2) by simp
  ultimately show ?thesis using assms(1) validUtf8_take by blast
qed simp

lemma validUtf8_ascii: "list_all (\<lambda>c. byteVal c < 128) s \<Longrightarrow> validUtf8 s"
proof (induction s)
  case (Cons a s)
  then show ?case by (simp add: validUtf8.simps [of "a # s"] runeLen_def leadLen_def)
qed simp

lemma natDec_ascii: "list_all (\<lambda>c. byteVal c < 128) (natDec n)"
  using natDec_digits [of n] by (auto simp: list_all_iff isDigit_def)

lemma validUtf8_marker: "validUtf8 (marker n)"
proof -
  have "validUtf8 ([CHR 0x0A, CHR 0xE2, CHR 0x80, CHR 0xA6] @ ''[truncated '')"
    by (simp add: validUtf8.simps runeLen_def leadLen_def secondOk_def runeStart_def)
  moreover have "validUtf8 (natDec n @ '' bytes]'')"
    by (intro validUtf8_append validUtf8_ascii natDec_ascii) simp
  ultimately show ?thesis
    unfolding marker_def by (metis append.assoc validUtf8_append)
qed

lemma length_marker: "length (marker n) = 22 + length (natDec n)"
  by (simp add: marker_def)

lemma length_marker_mono: "m \<le> n \<Longrightarrow> length (marker m) \<le> length (marker n)"
  by (simp add: length_marker length_natDec_mono)

lemma marker_no_quote: "countC CHR 0x27 (marker n) = 0"
  by (simp add: marker_def natDec_no_quote)

section \<open>The three results of truncate\<close>

text \<open>
  Every result is the string itself, a bare prefix, or a prefix followed by a
  marker that counts exactly the bytes removed.
\<close>

lemma truncate_cases [case_names keep bare marked]:
  assumes "int (length s) \<le> mx \<Longrightarrow> truncateS s mx = s \<Longrightarrow> P"
    and "\<And>c. mx < int (length s) \<Longrightarrow> int c \<le> max 0 mx \<Longrightarrow>
      c = 0 \<or> runeStart (s ! c) \<Longrightarrow> truncateS s mx = take c s \<Longrightarrow> P"
    and "\<And>c. mx < int (length s) \<Longrightarrow> 0 < mx \<Longrightarrow> int c + int (length (marker (length s))) \<le> mx \<Longrightarrow>
      c = 0 \<or> runeStart (s ! c) \<Longrightarrow> truncateS s mx = take c s @ marker (length s - c) \<Longrightarrow> P"
  shows P
proof (cases "int (length s) \<le> mx")
  case True
  then show ?thesis using assms(1) by (simp add: truncateS_def)
next
  case False
  show ?thesis
  proof (cases "mx \<le> 0")
    case True
    with False show ?thesis using assms(2) [of 0] by (simp add: truncateS_def)
  next
    case pos: False
    let ?cut = "mx - int (length (marker (length s)))"
    show ?thesis
    proof (cases "?cut \<le> 0")
      case True
      with False pos have "truncateS s mx = take (runeSafeCut s (nat mx)) s"
        by (simp add: truncateS_def)
      moreover have "int (runeSafeCut s (nat mx)) \<le> mx"
        using runeSafeCut_le [of s "nat mx"] pos by linarith
      ultimately show ?thesis
        using assms(2) [of "runeSafeCut s (nat mx)"] False runeSafeCut_start by simp
    next
      case cut: False
      with False pos have "truncateS s mx =
          take (runeSafeCut s (nat ?cut)) s @ marker (length s - runeSafeCut s (nat ?cut))"
        by (simp add: truncateS_def Let_def)
      moreover have "int (runeSafeCut s (nat ?cut)) \<le> ?cut"
        using runeSafeCut_le [of s "nat ?cut"] cut by linarith
      ultimately show ?thesis
        using assms(3) [of "runeSafeCut s (nat ?cut)"] False pos runeSafeCut_start by simp
    qed
  qed
qed

lemma truncate_length: "int (length (truncateS s mx)) \<le> max 0 mx"
proof (cases rule: truncate_cases [of s mx])
  case (marked c)
  have "length (marker (length s - c)) \<le> length (marker (length s))"
    by (rule length_marker_mono) simp
  with marked show ?thesis by simp
qed auto

lemma truncate_quotes: "countC CHR 0x27 (truncateS s mx) \<le> countC CHR 0x27 s"
  by (cases rule: truncate_cases [of s mx]) (simp_all add: marker_no_quote countC_take_le)

lemma truncate_shrinks: "mx < int (length s) \<Longrightarrow> s \<noteq> [] \<Longrightarrow> length (truncateS s mx) < length s"
  using truncate_length [of s mx] by (cases s) auto

lemma truncate_short: "int (length s) \<le> mx \<Longrightarrow> truncateS s mx = s"
  by (simp add: truncateS_def)

section \<open>Properties\<close>

text \<open>
  \<^verbatim>\<open>truncate\<close> never returns more than \<^verbatim>\<open>max\<close> bytes (nothing when \<^verbatim>\<open>max <= 0\<close>), and
  returns the string unchanged exactly when it already fits.
\<close>

theorem truncate_bound:
  "int (length (truncateS s mx)) \<le> max 0 mx \<and> (truncateS s mx = s \<longleftrightarrow> int (length s) \<le> max 0 mx)"
proof -
  have "truncateS s mx = s" if "int (length s) \<le> max 0 mx"
    using that by (cases s) (auto simp: truncateS_def max_def split: if_splits)
  then show ?thesis using truncate_length [of s mx] by auto
qed

text \<open>
  C39. A truncated string is still valid UTF-8: the cut lands on a rune boundary
  and the marker is valid.
\<close>

theorem truncate_validUtf8:
  assumes "validUtf8 s"
  shows "validUtf8 (truncateS s mx)"
proof (cases rule: truncate_cases [of s mx])
  case (bare c)
  then have "c = 0 \<or> (c < length s \<and> runeStart (s ! c))"
    by (cases "c < length s") (auto simp: max_def split: if_splits)
  then show ?thesis using bare assms validUtf8_take by auto
next
  case (marked c)
  then have "c = 0 \<or> (c < length s \<and> runeStart (s ! c))"
    by auto
  then have "validUtf8 (take c s)" using assms validUtf8_take by auto
  then show ?thesis using marked validUtf8_marker validUtf8_append by simp
qed (use assms in simp)

text \<open>A two-byte rune that the byte budget would split is left out whole.\<close>

theorem truncate_validUtf8_witness:
  "validUtf8 (truncateS [CHR ''a'', CHR 0xC3, CHR 0xA9, CHR ''b''] 2) \<and>
   truncateS [CHR ''a'', CHR 0xC3, CHR 0xA9, CHR ''b''] 2 = ''a''"
proof -
  have "validUtf8 [CHR ''a'', CHR 0xC3, CHR 0xA9, CHR ''b'']"
    by (simp add: validUtf8.simps runeLen_def leadLen_def secondOk_def runeStart_def)
  moreover have "truncateS [CHR ''a'', CHR 0xC3, CHR 0xA9, CHR ''b''] 2 = ''a''"
    by (simp add: truncateS_def length_marker natDec.simps numeral_2_eq_2 runeStart_def)
  ultimately show ?thesis using truncate_validUtf8 by blast
qed

section \<open>Capping the fields of a row\<close>

lemma getF_fold_truncateAt:
  "distinct fs \<Longrightarrow>
   getF f (fold (truncateAt mx) fs r) = (if f \<in> set fs then truncateS (getF f r) mx else getF f r)"
  by (induction fs arbitrary: r) (auto simp: truncateAt_def getF_setF)

lemma TruncateFields_getF:
  assumes "0 < mx"
  shows "getF f (TruncateFields r mx) =
    (if f \<in> set largeFields then truncateS (getF f r) mx
     else truncateS (getF f r) (min mx maxSmallFieldBytes))"
proof -
  have d: "distinct largeFields" "distinct smallFields" "set largeFields \<inter> set smallFields = {}"
    by (auto simp: largeFields_def smallFields_def)
  have "f \<in> set largeFields \<union> set smallFields"
    using stringFields_all [of f] by (simp add: stringFields_def)
  then show ?thesis
    using assms d unfolding TruncateFields_def Let_def
    by (auto simp: getF_fold_truncateAt)
qed

text \<open>
  \<^verbatim>\<open>TruncateFields\<close> caps each payload field at \<^verbatim>\<open>max\<close> bytes and each other string
  field at \<^verbatim>\<open>min(max, 16384)\<close>, keeps the fields that already fit, and is the
  identity when \<^verbatim>\<open>max <= 0\<close>.
\<close>

theorem TruncateFields_caps:
  "(mx \<le> 0 \<longrightarrow> TruncateFields r mx = r) \<and>
   (0 < mx \<longrightarrow>
     (let cap = (if f \<in> set largeFields then mx else min mx 16384)
      in int (length (getF f (TruncateFields r mx))) \<le> cap \<and>
         (int (length (getF f r)) \<le> cap \<longrightarrow> getF f (TruncateFields r mx) = getF f r)))"
proof -
  have "int (length (getF f (TruncateFields r mx))) \<le> (if f \<in> set largeFields then mx else min mx 16384)"
    if "0 < mx"
    using that truncate_length [of "getF f r" mx] truncate_length [of "getF f r" "min mx 16384"]
    by (auto simp: TruncateFields_getF maxSmallFieldBytes_def split: if_splits)
  then show ?thesis
    by (auto simp: TruncateFields_getF maxSmallFieldBytes_def Let_def truncate_short)
      (simp add: TruncateFields_def)
qed

theorem TruncateFields_caps_witness:
  "length (getF FQueryID (TruncateFields (zeroRow\<lparr>QueryID := ''abcdef''\<rparr>) 4)) \<le> 4 \<and>
   TruncateFields zeroRow 0 = zeroRow"
  using TruncateFields_caps [of 4 "zeroRow\<lparr>QueryID := ''abcdef''\<rparr>" FQueryID]
    TruncateFields_caps [of 0 zeroRow FQueryID]
  by (simp add: Let_def split: if_splits)

end
