(* ===== verification/RowBuild.thy ===== *)
theory RowBuild
  imports Truncate
begin

text \<open>
  \<^verbatim>\<open>store/row.go\<close>: building a row from an event, the plan policy, and the
  whitespace-collapsed preview, with the parts of \<^verbatim>\<open>strings.Fields\<close> and
  \<^verbatim>\<open>encoding/json\<close> they use.
\<close>

section \<open>strings.Fields and strings.TrimSpace\<close>

text \<open>\<^verbatim>\<open>unicode.IsSpace\<close> on a rune given by its bytes.\<close>

definition isSpaceRune :: "string \<Rightarrow> bool" where
  "isSpaceRune g =
     (case map byteVal g of
        [v] \<Rightarrow> (9 \<le> v \<and> v \<le> 13) \<or> v = 32
      | [a, b] \<Rightarrow> a = 194 \<and> (b = 133 \<or> b = 160)
      | [a, b, c] \<Rightarrow> (a = 225 \<and> b = 154 \<and> c = 128) \<or>
          (a = 226 \<and> b = 128 \<and> ((128 \<le> c \<and> c \<le> 138) \<or> c = 168 \<or> c = 169 \<or> c = 175)) \<or>
          (a = 226 \<and> b = 129 \<and> c = 159) \<or> (a = 227 \<and> b = 128 \<and> c = 128)
      | _ \<Rightarrow> False)"

fun splitFields :: "string list \<Rightarrow> string \<Rightarrow> string list" where
  "splitFields [] cur = (if cur = [] then [] else [cur])"
| "splitFields (g # gs) cur =
     (if isSpaceRune g then (if cur = [] then [] else [cur]) @ splitFields gs []
      else splitFields gs (cur @ g))"

definition Fields :: "string \<Rightarrow> string list" where
  "Fields s = splitFields (runes s) []"

definition TrimSpace :: "string \<Rightarrow> string" where
  "TrimSpace s = concat (rev (dropWhile isSpaceRune (rev (dropWhile isSpaceRune (runes s)))))"

section \<open>json.Marshal of the inputs\<close>

definition u00 :: "nat \<Rightarrow> string" where
  "u00 v = [CHR 0x5C] @ ''u00'' @ [hexLower (v div 16), hexLower (v mod 16)]"

text \<open>
  One rune of a JSON string: the escapes of \<^verbatim>\<open>encoding/json\<close> with HTML escaping on,
  U+2028 and U+2029 escaped, and an ill-formed byte written as the replacement
  character's escape.
\<close>

definition jsonRune :: "string \<Rightarrow> string" where
  "jsonRune g =
     (case map byteVal g of
        [v] \<Rightarrow>
          (if 128 \<le> v then [CHR 0x5C] @ ''ufffd''
           else if v = 34 \<or> v = 92 then CHR 0x5C # g
           else if v = 8 then [CHR 0x5C, CHR ''b'']
           else if v = 12 then [CHR 0x5C, CHR ''f'']
           else if v = 10 then [CHR 0x5C, CHR ''n'']
           else if v = 13 then [CHR 0x5C, CHR ''r'']
           else if v = 9 then [CHR 0x5C, CHR ''t'']
           else if v < 32 \<or> v = 60 \<or> v = 62 \<or> v = 38 then u00 v
           else g)
      | [a, b, c] \<Rightarrow>
          (if a = 226 \<and> b = 128 \<and> c = 168 then [CHR 0x5C] @ ''u2028''
           else if a = 226 \<and> b = 128 \<and> c = 169 then [CHR 0x5C] @ ''u2029''
           else g)
      | _ \<Rightarrow> g)"

definition jsonString :: "string \<Rightarrow> string" where
  "jsonString s = [CHR 0x22] @ concat (map jsonRune (runes s)) @ [CHR 0x22]"

definition jsonKey :: "string \<Rightarrow> string" where
  "jsonKey k = [CHR 0x22] @ k @ [CHR 0x22] @ '':''"

definition jsonIntPtr :: "int option \<Rightarrow> string" where
  "jsonIntPtr p = (case p of None \<Rightarrow> ''null'' | Some n \<Rightarrow> itoa n)"

definition jsonColumn :: "InputColumn \<Rightarrow> string" where
  "jsonColumn c =
     ''{'' @ jsonKey ''name'' @ jsonString (ic_Name c) @ '','' @
     jsonKey ''type'' @ jsonString (ic_Type c) @ ''}''"

definition jsonInput :: "InputMetadata \<Rightarrow> string" where
  "jsonInput i =
     ''{'' @ jsonKey ''catalogName'' @ jsonString (im_CatalogName i) @ '','' @
     jsonKey ''schema'' @ jsonString (im_Schema i) @ '','' @
     jsonKey ''table'' @ jsonString (im_Table i) @ '','' @
     jsonKey ''columns'' @
       (case im_Columns i of None \<Rightarrow> ''null''
        | Some cs \<Rightarrow> ''['' @ joinS (map jsonColumn cs) '','' @ '']'') @ '','' @
     jsonKey ''physicalInputBytes'' @ jsonIntPtr (im_PhysicalInputBytes i) @ '','' @
     jsonKey ''physicalInputRows'' @ jsonIntPtr (im_PhysicalInputRows i) @ ''}''"

definition marshalInputs :: "InputMetadata list \<Rightarrow> string" where
  "marshalInputs is = ''['' @ joinS (map jsonInput is) '','' @ '']''"

section \<open>Rows from events\<close>

definition deref :: "string option \<Rightarrow> string" where
  "deref s = (case s of None \<Rightarrow> '''' | Some v \<Rightarrow> v)"

definition RowFromEvent :: "Event \<Rightarrow> Row" where
  "RowFromEvent e =
    (let m = ev_Metadata e; s = ev_Statistics e; c = ev_Context e;
         r = \<lparr>QueryID = md_QueryID m,
              QueryState = md_QueryState m,
              QueryType = deref (cx_QueryType c),
              UserName = cx_User c,
              Source = SourceValue e,
              Principal = deref (cx_Principal c),
              ClientTags = joinS (cx_ClientTags c) '','',
              Catalog = deref (cx_Catalog c),
              SchemaName = deref (cx_Schema c),
              QueryText = md_Query m,
              QueryPreview = '''',
              UpdateType = deref (md_UpdateType m),
              CreateTime = zeroTime,
              ExecutionStartTime = None,
              EndTime = None,
              QueuedMS = Millis (st_QueuedTime s),
              AnalysisMS = Millis (st_AnalysisTime s),
              PlanningMS = Millis (st_PlanningTime s),
              ExecutionMS = Millis (st_ExecutionTime s),
              WallMS = Millis (st_WallTime s),
              CPUMS = Millis (st_CPUTime s),
              PeakUserMemoryBytes = st_PeakUserMemoryBytes s,
              PeakTotalMemoryBytes = st_PeakTaskTotalMemory s,
              PhysicalInputBytes = st_PhysicalInputBytes s,
              PhysicalInputRows = st_PhysicalInputRows s,
              ProcessedInputBytes = st_ProcessedInputBytes s,
              ProcessedInputRows = st_ProcessedInputRows s,
              OutputBytes = st_OutputBytes s,
              OutputRows = st_OutputRows s,
              WrittenBytes = st_WrittenBytes s,
              WrittenRows = st_WrittenRows s,
              CompletedSplits = st_CompletedSplits s,
              RErrorCode = '''', RErrorType = '''', ErrorMessage = '''',
              Plan = deref (md_Plan m),
              JSONPlan = deref (md_JSONPlan m),
              InputsJSON = '''',
              ResourceGroup = joinS (cx_ResourceGroupID c) ''.'',
              ServerVersion = cx_ServerVersion c,
              Environment = cx_Environment c\<rparr>;
         r = (case ev_CreateTime e of None \<Rightarrow> r | Some t \<Rightarrow> r\<lparr>CreateTime := t\<rparr>);
         r = r\<lparr>ExecutionStartTime := ev_ExecutionStartTime e, EndTime := ev_EndTime e\<rparr>;
         r = (case ev_FailureInfo e of None \<Rightarrow> r
              | Some f \<Rightarrow>
                  let r = r\<lparr>RErrorCode := ec_Name (fi_ErrorCode f),
                            RErrorType := ec_Type (fi_ErrorCode f)\<rparr>;
                      r = (if RErrorType r = '''' then r\<lparr>RErrorType := deref (fi_FailureType f)\<rparr>
                           else r)
                  in r\<lparr>ErrorMessage := deref (fi_FailureMessage f)\<rparr>)
     in if io_Inputs (ev_IOMetadata e) \<noteq> []
        then r\<lparr>InputsJSON := marshalInputs (io_Inputs (ev_IOMetadata e))\<rparr> else r)"

section \<open>Plan policy and preview\<close>

record PlanPolicy =
  Capture :: string
  MinWall :: duration

definition keepsPlans :: "Row \<Rightarrow> PlanPolicy \<Rightarrow> bool" where
  "keepsPlans r p =
     (if Capture p = ''none'' then False
      else if Capture p = ''slow_or_failed''
           then RErrorCode r \<noteq> '''' \<or> Millis (MinWall p) \<le> WallMS r
      else True)"

definition ApplyPlanPolicy :: "Row \<Rightarrow> PlanPolicy \<Rightarrow> Row" where
  "ApplyPlanPolicy r p = (if \<not> keepsPlans r p then r\<lparr>Plan := '''', JSONPlan := ''''\<rparr> else r)"

definition WithPreview :: "Row \<Rightarrow> int \<Rightarrow> Row" where
  "WithPreview r maxBytes =
     (let preview = joinS (Fields (QueryText r)) '' '';
          preview = (if 0 < maxBytes \<and> maxBytes < int (length preview)
                     then take (runeSafeCut preview (nat maxBytes)) preview else preview)
      in r\<lparr>QueryPreview := preview\<rparr>)"

section \<open>Runes of valid strings, and fields\<close>

text \<open>A group with a byte below 128 is that byte alone.\<close>

lemma runeLen_ascii: "i < runeLen s \<Longrightarrow> byteVal (s ! i) < 128 \<Longrightarrow> runeLen s = 1 \<and> i = 0"
proof -
  assume i: "i < runeLen s" and v: "byteVal (s ! i) < 128"
  have i0: "i = 0"
    using runeLen_cont [of i s] i v by (cases i) (auto simp: runeStart_def)
  from i obtain a t where s: "s = a # t" by (cases s) auto
  with i v i0 show ?thesis by (auto simp: runeLen_def leadLen_def split: if_splits)
qed

lemma runes_ascii:
  "g \<in> set (runes s) \<Longrightarrow> c \<in> set g \<Longrightarrow> byteVal c < 128 \<Longrightarrow> g = [c]"
proof (induction s rule: runes.induct)
  case (1 s)
  have s: "s \<noteq> []" using "1.prems" by auto
  let ?n = "max 1 (runeLen s)"
  from "1.prems" s consider "g = take ?n s" | "g \<in> set (runes (drop ?n s))"
    by (subst (asm) runes.simps) (auto simp: Let_def)
  then show ?case
  proof cases
    case 1
    with "1.prems" obtain i where i: "i < ?n" "i < length s" "c = s ! i"
      by (auto simp: in_set_conv_nth)
    have "?n = 1"
      using runeLen_ascii [of i s] i "1.prems"(3) by (cases "i < runeLen s") auto
    then show ?thesis using 1 i s by (cases s) auto
  next
    case 2
    then show ?thesis using "1.IH" s "1.prems" by (auto simp: Let_def)
  qed
qed

lemma runes_valid: "validUtf8 s \<Longrightarrow> g \<in> set (runes s) \<Longrightarrow> validUtf8 g"
proof (induction s rule: runes.induct)
  case (1 s)
  have s: "s \<noteq> []" using "1.prems" by auto
  with "1.prems" have k: "0 < runeLen s" and v: "validUtf8 (drop (runeLen s) s)"
    by (auto simp: validUtf8.simps [of s] split: if_splits)
  then have n: "max 1 (runeLen s) = runeLen s" by simp
  from "1.prems" s n consider "g = take (runeLen s) s" | "g \<in> set (runes (drop (runeLen s) s))"
    by (subst (asm) runes.simps) (auto simp: Let_def)
  then show ?case
  proof cases
    case 1
    then show ?thesis
      using k by (simp add: validUtf8.simps [of "take (runeLen s) s"] runeLen_take)
  next
    case 2
    then show ?thesis using "1.IH" s v n by simp
  qed
qed

lemma splitFields_inv:
  assumes "P []" and "\<And>a b. P a \<Longrightarrow> P b \<Longrightarrow> P (a @ b)"
    and "\<And>g. g \<in> set gs \<Longrightarrow> \<not> isSpaceRune g \<Longrightarrow> P g" and "P cur"
    and "w \<in> set (splitFields gs cur)"
  shows "P w"
  using assms(3-)
proof (induction gs cur rule: splitFields.induct)
  case (2 g gs cur)
  then show ?case using assms(1,2) by (auto split: if_splits)
qed (auto split: if_splits)

lemma Fields_valid: "validUtf8 s \<Longrightarrow> w \<in> set (Fields s) \<Longrightarrow> validUtf8 w"
  unfolding Fields_def
  by (rule splitFields_inv [where P = validUtf8]) (auto intro: validUtf8_append runes_valid)

lemma joinS_valid: "\<forall>w \<in> set ws. validUtf8 w \<Longrightarrow> validUtf8 sep \<Longrightarrow> validUtf8 (joinS ws sep)"
  by (induction ws sep rule: joinS.induct) (auto intro: validUtf8_append)

abbreviation controlSpace :: "char \<Rightarrow> bool" where
  "controlSpace c \<equiv> 9 \<le> byteVal c \<and> byteVal c \<le> 13"

lemma Fields_no_control: "w \<in> set (Fields s) \<Longrightarrow> c \<in> set w \<Longrightarrow> \<not> controlSpace c"
proof -
  assume w: "w \<in> set (Fields s)" and c: "c \<in> set w"
  have "\<forall>c \<in> set w. \<not> controlSpace c"
  proof (rule splitFields_inv [where P = "\<lambda>w. \<forall>c \<in> set w. \<not> controlSpace c" and cur = "[]"])
    show "w \<in> set (splitFields (runes s) [])" using w by (simp add: Fields_def)
    fix g assume g: "g \<in> set (runes s)" "\<not> isSpaceRune g"
    show "\<forall>c \<in> set g. \<not> controlSpace c"
    proof
      fix c assume "c \<in> set g"
      show "\<not> controlSpace c"
      proof
        assume cs: "controlSpace c"
        then have "g = [c]" using runes_ascii g(1) \<open>c \<in> set g\<close> by force
        with g(2) cs show False by (simp add: isSpaceRune_def)
      qed
    qed
  qed auto
  with c show ?thesis by blast
qed

lemma set_joinS: "c \<in> set (joinS ws sep) \<Longrightarrow> (\<exists>w \<in> set ws. c \<in> set w) \<or> c \<in> set sep"
  by (induction ws sep rule: joinS.induct) auto

lemma WithPreview_preview:
  "\<exists>n. QueryPreview (WithPreview r k) = take n (joinS (Fields (QueryText r)) '' '')"
  by (auto simp: WithPreview_def Let_def intro: exI [of _ "length (joinS (Fields (QueryText r)) '' '')"])

section \<open>Properties\<close>

text \<open>
  The preview of a row is a single-line prefix of the collapsed query text:
  it has no tab, newline or other ASCII control space, at most \<^verbatim>\<open>maxBytes\<close> bytes
  when that is positive, and is valid UTF-8 when the query text is. No other
  field changes.
\<close>

theorem WithPreview_spec:
  "(0 < k \<longrightarrow> int (length (QueryPreview (WithPreview r k))) \<le> k) \<and>
   (\<forall>c. c \<in> set (QueryPreview (WithPreview r k)) \<longrightarrow> \<not> (9 \<le> byteVal c \<and> byteVal c \<le> 13)) \<and>
   (validUtf8 (QueryText r) \<longrightarrow> validUtf8 (QueryPreview (WithPreview r k))) \<and>
   WithPreview r k = r\<lparr>QueryPreview := QueryPreview (WithPreview r k)\<rparr>"
proof (intro conjI allI impI)
  let ?p = "joinS (Fields (QueryText r)) '' ''"
  show "int (length (QueryPreview (WithPreview r k))) \<le> k" if "0 < k"
    using that runeSafeCut_le [of ?p "nat k"] by (auto simp: WithPreview_def Let_def)
  show "WithPreview r k = r\<lparr>QueryPreview := QueryPreview (WithPreview r k)\<rparr>"
    by (simp add: WithPreview_def Let_def)
  fix c assume "c \<in> set (QueryPreview (WithPreview r k))"
  then have "c \<in> set ?p"
    using WithPreview_preview [of r k] by (metis in_set_takeD)
  then consider w where "w \<in> set (Fields (QueryText r))" "c \<in> set w" | "c = CHR '' ''"
    using set_joinS by fastforce
  then show "\<not> controlSpace c"
  proof cases
    case 1
    then show ?thesis by (rule Fields_no_control)
  qed simp
next
  let ?p = "joinS (Fields (QueryText r)) '' ''"
  assume q: "validUtf8 (QueryText r)"
  have v: "validUtf8 ?p"
    by (rule joinS_valid) (use Fields_valid [OF q] validUtf8_ascii in auto)
  then show "validUtf8 (QueryPreview (WithPreview r k))"
    using validUtf8_runeSafeCut [OF v, of "nat k"]
    by (auto simp: WithPreview_def Let_def)
qed

theorem WithPreview_spec_witness:
  "QueryPreview (WithPreview (zeroRow\<lparr>QueryText := [CHR ''a'', CHR 0x0A, CHR 0x09, CHR ''b'']\<rparr>) 200)
     = ''a b'' \<and>
   int (length (QueryPreview (WithPreview
     (zeroRow\<lparr>QueryText := [CHR ''a'', CHR 0x0A, CHR 0x09, CHR ''b'']\<rparr>) 2))) \<le> 2"
proof -
  have "QueryPreview (WithPreview (zeroRow\<lparr>QueryText := [CHR ''a'', CHR 0x0A, CHR 0x09, CHR ''b'']\<rparr>) 200)
      = ''a b''"
    by (simp add: WithPreview_def Fields_def runes.simps runeLen_def leadLen_def isSpaceRune_def)
  then show ?thesis
    using WithPreview_spec [of 2 "zeroRow\<lparr>QueryText := [CHR ''a'', CHR 0x0A, CHR 0x09, CHR ''b'']\<rparr>"]
    by simp
qed

text \<open>
  The plan policy: under \<^verbatim>\<open>none\<close> no plan is kept; under \<^verbatim>\<open>slow_or_failed\<close> the
  plans of a failed query or of one whose wall time reaches the threshold are
  kept and all others emptied; any other mode keeps every plan. The decision
  reads only fields that the policy leaves alone, so applying it twice is
  applying it once.
\<close>

theorem ApplyPlanPolicy_spec:
  "Plan (ApplyPlanPolicy r p) = (if keepsPlans r p then Plan r else '''') \<and>
   JSONPlan (ApplyPlanPolicy r p) = (if keepsPlans r p then JSONPlan r else '''') \<and>
   (keepsPlans r p \<longleftrightarrow> (Capture p \<noteq> ''none'' \<and>
      (Capture p = ''slow_or_failed'' \<longrightarrow> RErrorCode r \<noteq> '''' \<or> Millis (MinWall p) \<le> WallMS r))) \<and>
   ApplyPlanPolicy (ApplyPlanPolicy r p) p = ApplyPlanPolicy r p \<and>
   (\<forall>f. f \<noteq> FPlan \<longrightarrow> f \<noteq> FJSONPlan \<longrightarrow> getF f (ApplyPlanPolicy r p) = getF f r)"
proof -
  have "getF f (ApplyPlanPolicy r p) = getF f r" if "f \<noteq> FPlan" "f \<noteq> FJSONPlan" for f
    using that by (cases f) (simp_all add: ApplyPlanPolicy_def)
  then show ?thesis by (auto simp: ApplyPlanPolicy_def keepsPlans_def)
qed

theorem ApplyPlanPolicy_spec_witness:
  "Plan (ApplyPlanPolicy (zeroRow\<lparr>Plan := ''p'', WallMS := 9999\<rparr>)
     \<lparr>Capture = ''slow_or_failed'', MinWall = 10000000000\<rparr>) = '''' \<and>
   Plan (ApplyPlanPolicy (zeroRow\<lparr>Plan := ''p'', WallMS := 10000\<rparr>)
     \<lparr>Capture = ''slow_or_failed'', MinWall = 10000000000\<rparr>) = ''p''"
  using ApplyPlanPolicy_spec [of "zeroRow\<lparr>Plan := ''p'', WallMS := 9999\<rparr>"
      "\<lparr>Capture = ''slow_or_failed'', MinWall = 10000000000\<rparr>"]
    ApplyPlanPolicy_spec [of "zeroRow\<lparr>Plan := ''p'', WallMS := 10000\<rparr>"
      "\<lparr>Capture = ''slow_or_failed'', MinWall = 10000000000\<rparr>"]
  by (simp add: zeroRow_def Millis_def)

end
