(* ===== verification/Config.thy ===== *)
theory Config
  imports RowBuild GoFloat
begin

text \<open>
  Package \<^verbatim>\<open>config\<close>: the configuration records, loading them from the environment
  (with the parsers of \<^verbatim>\<open>strconv\<close>, \<^verbatim>\<open>time\<close> and \<^verbatim>\<open>net\<close> that it calls) and validating
  them. The environment is a map from names to values.
\<close>

section \<open>The configuration\<close>

record TrinoCfg =
  tr_Host :: string
  tr_Port :: int
  tr_User :: string
  tr_Source :: string
  tr_Catalog :: string
  tr_Schema :: string
  tr_Table :: string
  tr_Password :: string
  tr_AccessToken :: string
  tr_SSL :: bool
  tr_QueryTimeout :: duration
  tr_MaxStatementBytes :: int
  tr_IcebergLocation :: string

record ClickHouseCfg =
  ch_Addr :: string
  ch_Database :: string
  ch_Table :: string
  ch_User :: string
  ch_Password :: string
  ch_TLS :: bool
  ch_TLSInsecure :: bool
  ch_TLSCA :: string
  ch_DialTimeout :: duration
  ch_QueryTimeout :: duration
  ch_MaxBatchBytes :: int

record CacheCfg =
  ca_Addr :: string
  ca_Password :: string
  ca_DB :: int
  ca_TLS :: bool
  ca_ListTTL :: duration
  ca_QueryTTL :: duration
  ca_Timeout :: duration

definition Enabled :: "CacheCfg \<Rightarrow> bool" where
  "Enabled c = (ca_Addr c \<noteq> '''')"

record ReadinessCfg =
  rd_Mode :: string
  rd_Interval :: duration
  rd_FailInterval :: duration
  rd_Timeout :: duration

record Config =
  ListenAddr :: string
  StoreBackend :: string
  cfgTrino :: TrinoCfg
  cfgClickHouse :: ClickHouseCfg
  cfgCache :: CacheCfg
  cfgReadiness :: ReadinessCfg
  BatchSize :: int
  FlushInterval :: duration
  BufferCapacity :: int
  FlushMaxRetries :: int
  FlushRetryBackoff :: duration
  FlushRetryMaxBackoff :: duration
  MaxFieldBytes :: int
  PlanCapture :: string
  PlanCaptureMinWall :: duration
  PreviewBytes :: int
  RetentionDays :: int
  MaintainRetention :: string
  OptimizeDays :: int
  MetricsEnabled :: bool
  LogLevel :: string

definition minClickHouseBatchBytes :: int where
  "minClickHouseBatchBytes = 1048576"

section \<open>Library parsers\<close>

text \<open>The pattern \<^verbatim>\<open>^[A-Za-z_][A-Za-z0-9_]{0,63}$\<close>.\<close>

definition identStart :: "char \<Rightarrow> bool" where
  "identStart c = (let v = byteVal c in (65 \<le> v \<and> v \<le> 90) \<or> (97 \<le> v \<and> v \<le> 122) \<or> v = 95)"

definition identifierPattern :: "string \<Rightarrow> bool" where
  "identifierPattern s =
     (case s of [] \<Rightarrow> False
      | c # cs \<Rightarrow> identStart c \<and> length cs \<le> 63 \<and> list_all (\<lambda>d. identStart d \<or> isDigit d) cs)"

text \<open>\<^verbatim>\<open>strconv.ParseBool\<close>.\<close>

definition ParseBool :: "string \<Rightarrow> bool option" where
  "ParseBool s =
     (if s \<in> {''1'', ''t'', ''T'', ''TRUE'', ''true'', ''True''} then Some True
      else if s \<in> {''0'', ''f'', ''F'', ''FALSE'', ''false'', ''False''} then Some False
      else None)"

text \<open>\<^verbatim>\<open>net.SplitHostPort\<close>: the port follows the last colon; a bracketed host is an IPv6 literal.\<close>

fun lastIndex :: "char \<Rightarrow> string \<Rightarrow> nat option" where
  "lastIndex c [] = None"
| "lastIndex c (x # xs) =
     (case lastIndex c xs of Some i \<Rightarrow> Some (Suc i) | None \<Rightarrow> if x = c then Some 0 else None)"

fun firstIndex :: "char \<Rightarrow> string \<Rightarrow> nat option" where
  "firstIndex c [] = None"
| "firstIndex c (x # xs) = (if x = c then Some 0 else map_option Suc (firstIndex c xs))"

definition SplitHostPort :: "string \<Rightarrow> (string \<times> string) option" where
  "SplitHostPort hp =
     (case lastIndex CHR '':'' hp of None \<Rightarrow> None
      | Some i \<Rightarrow>
          (let bracketed = (hd hp = CHR ''['')
           in case (if bracketed then
                      (case firstIndex CHR '']'' hp of None \<Rightarrow> None
                       | Some e \<Rightarrow> if e + 1 = i then Some (drop 1 (take e hp), 1, e + 1) else None)
                    else if CHR '':'' \<in> set (take i hp) then None else Some (take i hp, 0, 0))
              of None \<Rightarrow> None
               | Some (host, j, k) \<Rightarrow>
                   if CHR ''['' \<in> set (drop j hp) \<or> CHR '']'' \<in> set (drop k hp) then None
                   else Some (host, drop (Suc i) hp)))"

definition validHostPort :: "string \<Rightarrow> bool" where
  "validHostPort addr =
     (case SplitHostPort addr of None \<Rightarrow> False
      | Some (host, port) \<Rightarrow>
          if host = '''' then False
          else (case atoi port of None \<Rightarrow> False | Some n \<Rightarrow> 1 \<le> n \<and> n \<le> 65535))"

text \<open>
  \<^verbatim>\<open>time.ParseDuration\<close>: a sequence of decimal numbers, each with an optional
  fraction and a unit. The fraction goes through double arithmetic; digits that
  no longer fit 63 bits are dropped.
\<close>

definition unitMap :: "string \<rightharpoonup> nat" where
  "unitMap = map_of
     [(''ns'', 1), (''us'', 1000), ([CHR 0xC2, CHR 0xB5, CHR ''s''], 1000),
      ([CHR 0xCE, CHR 0xBC, CHR ''s''], 1000), (''ms'', 1000000), (''s'', 1000000000),
      (''m'', 60000000000), (''h'', 3600000000000)]"

fun leadingFraction :: "string \<Rightarrow> nat \<Rightarrow> nat \<Rightarrow> nat \<times> nat" where
  "leadingFraction [] x scale = (x, scale)"
| "leadingFraction (c # cs) x scale =
     (if (2 ^ 63 - 1) div 10 < x \<or> 2 ^ 63 < 10 * x + digitVal c then (x, scale)
      else leadingFraction cs (10 * x + digitVal c) (10 * scale))"

definition unitEnd :: "char \<Rightarrow> bool" where
  "unitEnd c = (c = CHR ''.'' \<or> isDigit c)"

function durLoop :: "string \<Rightarrow> nat \<Rightarrow> nat option" where
  "durLoop s d =
     (if s = [] then Some d
      else if \<not> unitEnd (hd s) then None
      else
        (let pre = takeWhile isDigit s; s1 = dropWhile isDigit s;
             (frac, s2) = (if s1 \<noteq> [] \<and> hd s1 = CHR ''.''
                           then (takeWhile isDigit (tl s1), dropWhile isDigit (tl s1))
                           else ([], s1));
             u = takeWhile (\<lambda>c. \<not> unitEnd c) s2; rest = dropWhile (\<lambda>c. \<not> unitEnd c) s2;
             (f, scale) = leadingFraction frac 0 1; v = decVal pre
         in if 2 ^ 63 < v \<or> (pre = [] \<and> frac = []) \<or> u = [] then None
            else
              (case unitMap u of None \<Rightarrow> None
               | Some unit \<Rightarrow>
                   if 2 ^ 63 div unit < v then None
                   else
                     (let v = v * unit +
                            (if 0 < f then ftrunc (fmul (fl f 1) (fdiv (fl unit 1) (fl scale 1)))
                             else 0)
                      in if 2 ^ 63 < v \<or> 2 ^ 63 < d + v then None
                         else durLoop rest (d + v)))))"
  by pat_completeness auto
termination
proof (relation "measure (\<lambda>(s, d). length s)", goal_cases)
  case (2 s d pre s1 p frac s2 u rest)
  have "length s1 \<le> length s" using 2 by (simp add: length_dropWhile_le)
  moreover have "length s2 \<le> length s1"
    using 2 length_dropWhile_le [of isDigit "tl s1"] by (auto split: if_splits)
  moreover have "length rest < length s2"
    using 2 length_dropWhile_le [of "\<lambda>c. \<not> unitEnd c" "tl s2"] by (cases s2) (auto split: if_splits)
  ultimately show ?case by simp
qed simp

declare durLoop.simps [simp del]

definition ParseDuration :: "string \<Rightarrow> duration option" where
  "ParseDuration s =
     (let (neg, s) = (if s \<noteq> [] \<and> (hd s = CHR ''-'' \<or> hd s = CHR ''+'')
                      then (hd s = CHR ''-'', tl s) else (False, s))
      in if s = ''0'' then Some 0
         else if s = [] then None
         else
           (case durLoop s 0 of None \<Rightarrow> None
            | Some d \<Rightarrow>
                if neg then Some (- int d)
                else if 2 ^ 63 \<le> d then None else Some (int d)))"

section \<open>Loading\<close>

datatype cfg_error =
    InvalidInteger string string | InvalidBoolean string string | InvalidDuration string string
  | Invalid string

type_synonym environment = "string \<rightharpoonup> string"

definition str :: "environment \<Rightarrow> string \<Rightarrow> string \<Rightarrow> string" where
  "str env key def = (case env key of Some v \<Rightarrow> if v \<noteq> '''' then v else def | None \<Rightarrow> def)"

text \<open>A reader returns the value and the errors it appends to \<^verbatim>\<open>e.errs\<close>.\<close>

definition readVal :: "(string \<Rightarrow> 'a option) \<Rightarrow> (string \<Rightarrow> string \<Rightarrow> cfg_error) \<Rightarrow>
    environment \<Rightarrow> string \<Rightarrow> 'a \<Rightarrow> 'a \<times> cfg_error list" where
  "readVal parse bad env key def =
     (case env key of None \<Rightarrow> (def, [])
      | Some raw \<Rightarrow>
          if raw = '''' then (def, [])
          else (case parse (TrimSpace raw) of
                  None \<Rightarrow> (def, [bad key raw])
                | Some v \<Rightarrow> (v, [])))"

definition intVal :: "environment \<Rightarrow> string \<Rightarrow> int \<Rightarrow> int \<times> cfg_error list" where
  "intVal = readVal atoi InvalidInteger"

definition boolVal :: "environment \<Rightarrow> string \<Rightarrow> bool \<Rightarrow> bool \<times> cfg_error list" where
  "boolVal = readVal ParseBool InvalidBoolean"

definition durationVal :: "environment \<Rightarrow> string \<Rightarrow> duration \<Rightarrow> duration \<times> cfg_error list" where
  "durationVal = readVal ParseDuration InvalidDuration"

text \<open>The configuration literal of \<^verbatim>\<open>Load\<close>, and the reader errors in evaluation order.\<close>

definition loadConfig :: "environment \<Rightarrow> Config" where
  "loadConfig e =
    \<lparr>ListenAddr = str e ''LISTEN_ADDR'' '':8080'',
     StoreBackend = str e ''STORE_BACKEND'' ''trino'',
     cfgTrino =
       \<lparr>tr_Host = str e ''TRINO_HOST'' ''trino-cluster-trino.trino'',
        tr_Port = fst (intVal e ''TRINO_PORT'' 8080),
        tr_User = str e ''TRINO_USER'' ''trino-query-log'',
        tr_Source = str e ''TRINO_SOURCE'' ''trino-query-log'',
        tr_Catalog = str e ''TRINO_CATALOG'' ''gravitino'',
        tr_Schema = str e ''TRINO_SCHEMA'' ''observability'',
        tr_Table = str e ''TRINO_TABLE'' ''trino_query_log'',
        tr_Password = str e ''TRINO_PASSWORD'' '''',
        tr_AccessToken = str e ''TRINO_ACCESS_TOKEN'' '''',
        tr_SSL = fst (boolVal e ''TRINO_SSL'' False),
        tr_QueryTimeout = fst (durationVal e ''TRINO_QUERY_TIMEOUT'' (60 * second)),
        tr_MaxStatementBytes = fst (intVal e ''MAX_STATEMENT_BYTES'' 700000),
        tr_IcebergLocation = str e ''ICEBERG_LOCATION'' ''''\<rparr>,
     cfgClickHouse =
       \<lparr>ch_Addr = str e ''CLICKHOUSE_ADDR'' '''',
        ch_Database = str e ''CLICKHOUSE_DATABASE'' ''observability'',
        ch_Table = str e ''CLICKHOUSE_TABLE'' ''trino_query_log'',
        ch_User = str e ''CLICKHOUSE_USER'' ''default'',
        ch_Password = str e ''CLICKHOUSE_PASSWORD'' '''',
        ch_TLS = fst (boolVal e ''CLICKHOUSE_TLS'' False),
        ch_TLSInsecure = fst (boolVal e ''CLICKHOUSE_TLS_INSECURE'' False),
        ch_TLSCA = str e ''CLICKHOUSE_TLS_CA'' '''',
        ch_DialTimeout = fst (durationVal e ''CLICKHOUSE_DIAL_TIMEOUT'' (5 * second)),
        ch_QueryTimeout = fst (durationVal e ''CLICKHOUSE_QUERY_TIMEOUT'' (60 * second)),
        ch_MaxBatchBytes = fst (intVal e ''CLICKHOUSE_MAX_BATCH_BYTES'' 8388608)\<rparr>,
     cfgCache =
       \<lparr>ca_Addr = str e ''REDIS_ADDR'' '''',
        ca_Password = str e ''REDIS_PASSWORD'' '''',
        ca_DB = fst (intVal e ''REDIS_DB'' 0),
        ca_TLS = fst (boolVal e ''REDIS_TLS'' False),
        ca_ListTTL = fst (durationVal e ''CACHE_LIST_TTL'' (600 * second)),
        ca_QueryTTL = fst (durationVal e ''CACHE_QUERY_TTL'' (3600 * second)),
        ca_Timeout = fst (durationVal e ''CACHE_TIMEOUT'' 250000000)\<rparr>,
     cfgReadiness =
       \<lparr>rd_Mode = str e ''READINESS_MODE'' ''connection'',
        rd_Interval = fst (durationVal e ''READINESS_INTERVAL'' (30 * second)),
        rd_FailInterval = fst (durationVal e ''READINESS_FAIL_INTERVAL'' (30 * second)),
        rd_Timeout = fst (durationVal e ''READINESS_TIMEOUT'' (10 * second))\<rparr>,
     BatchSize = fst (intVal e ''BATCH_SIZE'' 100),
     FlushInterval = fst (durationVal e ''FLUSH_INTERVAL'' (5 * second)),
     BufferCapacity = fst (intVal e ''BUFFER_CAPACITY'' 10000),
     FlushMaxRetries = fst (intVal e ''FLUSH_MAX_RETRIES'' 3),
     FlushRetryBackoff = fst (durationVal e ''FLUSH_RETRY_BACKOFF'' second),
     FlushRetryMaxBackoff = fst (durationVal e ''FLUSH_RETRY_MAX_BACKOFF'' (30 * second)),
     MaxFieldBytes = fst (intVal e ''MAX_FIELD_BYTES'' 300000),
     PlanCapture = str e ''PLAN_CAPTURE'' ''slow_or_failed'',
     PlanCaptureMinWall = fst (durationVal e ''PLAN_CAPTURE_MIN_WALL'' (10 * second)),
     PreviewBytes = fst (intVal e ''QUERY_PREVIEW_BYTES'' 200),
     RetentionDays = fst (intVal e ''RETENTION_DAYS'' 7),
     MaintainRetention = str e ''MAINTAIN_RETENTION'' ''7d'',
     OptimizeDays = fst (intVal e ''OPTIMIZE_DAYS'' 1),
     MetricsEnabled = fst (boolVal e ''METRICS_ENABLED'' True),
     LogLevel = str e ''LOG_LEVEL'' ''info''\<rparr>"

definition loadErrors :: "environment \<Rightarrow> cfg_error list" where
  "loadErrors e =
     snd (intVal e ''TRINO_PORT'' 8080) @
     snd (boolVal e ''TRINO_SSL'' False) @
     snd (durationVal e ''TRINO_QUERY_TIMEOUT'' (60 * second)) @
     snd (intVal e ''MAX_STATEMENT_BYTES'' 700000) @
     snd (boolVal e ''CLICKHOUSE_TLS'' False) @
     snd (boolVal e ''CLICKHOUSE_TLS_INSECURE'' False) @
     snd (durationVal e ''CLICKHOUSE_DIAL_TIMEOUT'' (5 * second)) @
     snd (durationVal e ''CLICKHOUSE_QUERY_TIMEOUT'' (60 * second)) @
     snd (intVal e ''CLICKHOUSE_MAX_BATCH_BYTES'' 8388608) @
     snd (intVal e ''REDIS_DB'' 0) @
     snd (boolVal e ''REDIS_TLS'' False) @
     snd (durationVal e ''CACHE_LIST_TTL'' (600 * second)) @
     snd (durationVal e ''CACHE_QUERY_TTL'' (3600 * second)) @
     snd (durationVal e ''CACHE_TIMEOUT'' 250000000) @
     snd (durationVal e ''READINESS_INTERVAL'' (30 * second)) @
     snd (durationVal e ''READINESS_FAIL_INTERVAL'' (30 * second)) @
     snd (durationVal e ''READINESS_TIMEOUT'' (10 * second)) @
     snd (intVal e ''BATCH_SIZE'' 100) @
     snd (durationVal e ''FLUSH_INTERVAL'' (5 * second)) @
     snd (intVal e ''BUFFER_CAPACITY'' 10000) @
     snd (intVal e ''FLUSH_MAX_RETRIES'' 3) @
     snd (durationVal e ''FLUSH_RETRY_BACKOFF'' second) @
     snd (durationVal e ''FLUSH_RETRY_MAX_BACKOFF'' (30 * second)) @
     snd (intVal e ''MAX_FIELD_BYTES'' 300000) @
     snd (durationVal e ''PLAN_CAPTURE_MIN_WALL'' (10 * second)) @
     snd (intVal e ''QUERY_PREVIEW_BYTES'' 200) @
     snd (intVal e ''RETENTION_DAYS'' 7) @
     snd (intVal e ''OPTIMIZE_DAYS'' 1) @
     snd (boolVal e ''METRICS_ENABLED'' True)"

section \<open>Validation\<close>

definition addErr :: "bool \<Rightarrow> string \<Rightarrow> cfg_error list" where
  "addErr cond msg = (if cond then [Invalid msg] else [])"

definition validateBackend :: "Config \<Rightarrow> cfg_error list" where
  "validateBackend c =
     (if StoreBackend c = ''trino'' then []
      else if StoreBackend c = ''clickhouse'' then
        (let ch = cfgClickHouse c in
         addErr (\<not> validHostPort (ch_Addr ch)) ''CLICKHOUSE_ADDR must be set to host:port when STORE_BACKEND=clickhouse'' @
         addErr (\<not> identifierPattern (ch_Database ch)) ''CLICKHOUSE_DATABASE must be a plain identifier (letters, digits, underscore)'' @
         addErr (\<not> identifierPattern (ch_Table ch)) ''CLICKHOUSE_TABLE must be a plain identifier (letters, digits, underscore)'' @
         addErr (ch_User ch = '''') ''CLICKHOUSE_USER must not be empty'' @
         addErr (ch_DialTimeout ch \<le> 0) ''CLICKHOUSE_DIAL_TIMEOUT must be > 0'' @
         addErr (ch_QueryTimeout ch \<le> 0) ''CLICKHOUSE_QUERY_TIMEOUT must be > 0'' @
         addErr (ch_MaxBatchBytes ch < minClickHouseBatchBytes) ''CLICKHOUSE_MAX_BATCH_BYTES must be >= 1048576'' @
         addErr (ch_TLSInsecure ch \<and> \<not> ch_TLS ch) ''CLICKHOUSE_TLS_INSECURE requires CLICKHOUSE_TLS=true'' @
         addErr (ch_TLSCA ch \<noteq> '''' \<and> \<not> ch_TLS ch) ''CLICKHOUSE_TLS_CA requires CLICKHOUSE_TLS=true'')
      else addErr True ''STORE_BACKEND must be one of trino, clickhouse'')"

definition validate :: "Config \<Rightarrow> cfg_error list" where
  "validate c =
     (let t = cfgTrino c; rd = cfgReadiness c; ca = cfgCache c in
     addErr (tr_Host t = '''') ''TRINO_HOST must not be empty'' @
     addErr (tr_Port t < 1 \<or> tr_Port t > 65535) ''TRINO_PORT must be in 1..65535'' @
     addErr (tr_User t = '''') ''TRINO_USER must not be empty'' @
     addErr (tr_Source t = '''') ''TRINO_SOURCE must not be empty'' @
     addErr (tr_Catalog t = '''') ''TRINO_CATALOG must not be empty'' @
     addErr (tr_Schema t = '''') ''TRINO_SCHEMA must not be empty'' @
     addErr (tr_Table t = '''') ''TRINO_TABLE must not be empty'' @
     addErr (BatchSize c < 1) ''BATCH_SIZE must be >= 1'' @
     addErr (FlushInterval c \<le> 0) ''FLUSH_INTERVAL must be > 0'' @
     addErr (BufferCapacity c < 1) ''BUFFER_CAPACITY must be >= 1'' @
     addErr (FlushMaxRetries c < 0) ''FLUSH_MAX_RETRIES must be >= 0'' @
     addErr (FlushRetryBackoff c \<le> 0) ''FLUSH_RETRY_BACKOFF must be > 0'' @
     addErr (FlushRetryMaxBackoff c < FlushRetryBackoff c) ''FLUSH_RETRY_MAX_BACKOFF must be >= FLUSH_RETRY_BACKOFF'' @
     addErr (tr_MaxStatementBytes t < 16384) ''MAX_STATEMENT_BYTES must be >= 16384'' @
     addErr (MaxFieldBytes c < 1024) ''MAX_FIELD_BYTES must be >= 1024'' @
     addErr (RetentionDays c < 0) ''RETENTION_DAYS must be >= 0'' @
     addErr (OptimizeDays c < 0) ''OPTIMIZE_DAYS must be >= 0'' @
     addErr (rd_Interval rd \<le> 0) ''READINESS_INTERVAL must be > 0'' @
     addErr (rd_FailInterval rd \<le> 0) ''READINESS_FAIL_INTERVAL must be > 0'' @
     addErr (rd_Timeout rd \<le> 0) ''READINESS_TIMEOUT must be > 0'' @
     addErr (PlanCaptureMinWall c < 0) ''PLAN_CAPTURE_MIN_WALL must be >= 0'' @
     addErr (PreviewBytes c < 1) ''QUERY_PREVIEW_BYTES must be >= 1'' @
     validateBackend c @
     addErr (rd_Mode rd \<notin> {''connection'', ''table''}) ''READINESS_MODE must be one of connection, table'' @
     addErr (PlanCapture c \<notin> {''all'', ''slow_or_failed'', ''none''}) ''PLAN_CAPTURE must be one of all, slow_or_failed, none'' @
     (if Enabled ca then
        addErr (ca_DB ca < 0) ''REDIS_DB must be >= 0'' @
        addErr (ca_ListTTL ca \<le> 0) ''CACHE_LIST_TTL must be > 0 when REDIS_ADDR is set'' @
        addErr (ca_QueryTTL ca \<le> 0) ''CACHE_QUERY_TTL must be > 0 when REDIS_ADDR is set'' @
        addErr (ca_Timeout ca \<le> 0) ''CACHE_TIMEOUT must be > 0 when REDIS_ADDR is set''
      else []) @
     addErr (LogLevel c \<notin> {''debug'', ''info'', ''warn'', ''error''}) ''LOG_LEVEL must be one of debug, info, warn, error'')"

text \<open>\<^verbatim>\<open>Load\<close>: all errors joined, or the configuration.\<close>

definition Load :: "environment \<Rightarrow> cfg_error list + Config" where
  "Load e = (let cfg = loadConfig e; errs = loadErrors e @ validate cfg
             in if errs = [] then Inr cfg else Inl errs)"

definition StoreQueryTimeout :: "Config \<Rightarrow> duration" where
  "StoreQueryTimeout c =
     (if StoreBackend c = ''clickhouse'' then ch_QueryTimeout (cfgClickHouse c)
      else tr_QueryTimeout (cfgTrino c))"

definition StoreTarget :: "Config \<Rightarrow> string" where
  "StoreTarget c =
     (if StoreBackend c = ''clickhouse'' then
        ''clickhouse://'' @ ch_Addr (cfgClickHouse c) @ ''/'' @ ch_Database (cfgClickHouse c) @
        ''.'' @ ch_Table (cfgClickHouse c)
      else
        ''trino://'' @ tr_Host (cfgTrino c) @ '':'' @ itoa (tr_Port (cfgTrino c)) @ ''/'' @
        tr_Catalog (cfgTrino c) @ ''.'' @ tr_Schema (cfgTrino c) @ ''.'' @ tr_Table (cfgTrino c))"

section \<open>What validation establishes\<close>

lemma addErr_Nil [simp]: "addErr cond msg = [] \<longleftrightarrow> \<not> cond"
  by (simp add: addErr_def)

lemma Load_Inr: "Load e = Inr c \<Longrightarrow> c = loadConfig e \<and> loadErrors e = [] \<and> validate c = []"
  by (auto simp: Load_def Let_def split: if_splits)

lemma validate_bounds:
  assumes "validate c = []"
  shows "1 \<le> BatchSize c" "0 < FlushInterval c" "1 \<le> BufferCapacity c" "0 \<le> FlushMaxRetries c"
    "0 < FlushRetryBackoff c" "FlushRetryBackoff c \<le> FlushRetryMaxBackoff c"
    "16384 \<le> tr_MaxStatementBytes (cfgTrino c)" "1024 \<le> MaxFieldBytes c"
    "0 \<le> RetentionDays c" "0 \<le> OptimizeDays c" "1 \<le> PreviewBytes c" "0 \<le> PlanCaptureMinWall c"
    "tr_Source (cfgTrino c) \<noteq> ''''"
  using assms by (simp_all add: validate_def Let_def)

lemma validate_clickhouse:
  assumes "validate c = []" and "StoreBackend c = ''clickhouse''"
  shows "identifierPattern (ch_Database (cfgClickHouse c))"
    "identifierPattern (ch_Table (cfgClickHouse c))"
    "minClickHouseBatchBytes \<le> ch_MaxBatchBytes (cfgClickHouse c)"
    "0 < ch_QueryTimeout (cfgClickHouse c)" "validHostPort (ch_Addr (cfgClickHouse c))"
    "ch_TLSInsecure (cfgClickHouse c) \<longrightarrow> ch_TLS (cfgClickHouse c)"
  using assms by (simp_all add: validate_def validateBackend_def Let_def)

lemma validate_backend:
  "validate c = [] \<Longrightarrow> StoreBackend c = ''trino'' \<or> StoreBackend c = ''clickhouse''"
  by (auto simp: validate_def validateBackend_def Let_def addErr_def split: if_splits)

section \<open>Properties\<close>

lemma Load_empty: "Load (\<lambda>_. None) = Inr (loadConfig (\<lambda>_. None))"
proof -
  note readers = str_def readVal_def intVal_def boolVal_def durationVal_def
  have "loadErrors (\<lambda>_. None) = []" by (simp add: loadErrors_def readers)
  moreover have "validate (loadConfig (\<lambda>_. None)) = []"
    by (simp add: validate_def validateBackend_def Enabled_def Let_def loadConfig_def readers)
  ultimately show ?thesis by (simp add: Load_def Let_def)
qed

text \<open>
  With no environment variable set, loading succeeds and gives the documented
  defaults: the Trino backend on port 8080, batches of 100 rows flushed every 5 s
  from a queue of 10000, three retries backing off from 1 s to 30 s, a 700000-byte
  statement budget, and no cache.
\<close>

theorem Load_defaults:
  "\<exists>c. Load (\<lambda>_. None) = Inr c \<and> StoreBackend c = ''trino'' \<and> tr_Port (cfgTrino c) = 8080 \<and>
     BatchSize c = 100 \<and> FlushInterval c = 5000000000 \<and> BufferCapacity c = 10000 \<and>
     FlushMaxRetries c = 3 \<and> FlushRetryBackoff c = 1000000000 \<and>
     FlushRetryMaxBackoff c = 30000000000 \<and> tr_MaxStatementBytes (cfgTrino c) = 700000 \<and>
     \<not> Enabled (cfgCache c)"
  using Load_empty by (simp add: loadConfig_def str_def readVal_def intVal_def boolVal_def durationVal_def Enabled_def)

text \<open>
  A malformed number is never silently replaced by its default: if a set,
  non-empty variable that configures an integer does not parse, loading fails
  and names it.
\<close>

theorem Load_rejects_malformed_int:
  assumes "env ''BATCH_SIZE'' = Some raw" and "raw \<noteq> ''''" and "atoi (TrimSpace raw) = None"
  shows "\<exists>errs. Load env = Inl errs \<and> InvalidInteger ''BATCH_SIZE'' raw \<in> set errs"
proof -
  have "InvalidInteger ''BATCH_SIZE'' raw \<in> set (loadErrors env)"
    using assms by (simp add: loadErrors_def intVal_def readVal_def)
  then show ?thesis by (auto simp: Load_def Let_def)
qed

theorem Load_rejects_malformed_int_witness:
  "\<exists>errs. Load [''BATCH_SIZE'' \<mapsto> ''ten''] = Inl errs \<and> InvalidInteger ''BATCH_SIZE'' ''ten'' \<in> set errs"
proof (rule Load_rejects_malformed_int)
  have "TrimSpace ''ten'' = ''ten''"
    by (simp add: TrimSpace_def runes.simps runeLen_def leadLen_def isSpaceRune_def)
  then show "atoi (TrimSpace ''ten'') = None" by (simp add: atoi_def isDigit_def)
qed simp_all

end
