(* ===== verification/SqlText.thy ===== *)
theory SqlText
  imports StoreRow
begin

text \<open>
  \<^verbatim>\<open>store/identifier.go\<close> and the SQL literals of the stores: quoting by doubling, and
  that a quoted name reads back as the name whatever it contains.
\<close>

definition quoteIdent :: "string \<Rightarrow> string" where
  "quoteIdent s = [CHR 0x22] @ replaceC CHR 0x22 [CHR 0x22, CHR 0x22] s @ [CHR 0x22]"

definition qualifiedName :: "string \<Rightarrow> string \<Rightarrow> string \<Rightarrow> string" where
  "qualifiedName catalog schema table =
     quoteIdent catalog @ ''.'' @ quoteIdent schema @ ''.'' @ quoteIdent table"

text \<open>A single-quoted SQL string literal, as \<^verbatim>\<open>Maintain\<close> and \<^verbatim>\<open>SchemaDDL\<close> build it.\<close>

definition quoteLit :: "string \<Rightarrow> string" where
  "quoteLit s = [CHR 0x27] @ replaceC CHR 0x27 [CHR 0x27, CHR 0x27] s @ [CHR 0x27]"

text \<open>
  How SQL reads a delimited token: the delimiter, then characters in which a
  doubled delimiter stands for one, up to the closing delimiter. The result is
  the token's value and the text after it.
\<close>

fun readQuoted :: "char \<Rightarrow> string \<Rightarrow> (string \<times> string) option" where
  "readQuoted q [] = None"
| "readQuoted q (c # s) =
     (if c \<noteq> q then map_option (\<lambda>(v, rest). (c # v, rest)) (readQuoted q s)
      else case s of
        [] \<Rightarrow> Some ([], [])
      | d # t \<Rightarrow> if d = q then map_option (\<lambda>(v, rest). (q # v, rest)) (readQuoted q t)
                 else Some ([], s))"

definition readDelimited :: "char \<Rightarrow> string \<Rightarrow> (string \<times> string) option" where
  "readDelimited q s = (case s of c # t \<Rightarrow> if c = q then readQuoted q t else None | [] \<Rightarrow> None)"

lemma readQuoted_double:
  "(rest = [] \<or> hd rest \<noteq> q) \<Longrightarrow>
   readQuoted q (replaceC q [q, q] s @ q # rest) = Some (s, rest)"
proof (induction s)
  case Nil
  then show ?case by (cases rest) auto
qed auto

text \<open>
  Quoting is safe: an identifier, whatever bytes it holds, is read back by the
  SQL lexer as exactly that identifier, and the text after it is untouched. No
  name can close its own quotes.
\<close>

theorem quoteIdent_reads_back:
  assumes "rest = '''' \<or> hd rest \<noteq> CHR 0x22"
  shows "readDelimited CHR 0x22 (quoteIdent s @ rest) = Some (s, rest)"
  using readQuoted_double [of rest "CHR 0x22" s] assms
  by (simp add: readDelimited_def quoteIdent_def)

theorem quoteIdent_reads_back_witness:
  "readDelimited CHR 0x22 (quoteIdent [CHR ''a'', CHR 0x22, CHR '';''] @ '' FROM t'') =
     Some ([CHR ''a'', CHR 0x22, CHR '';''], '' FROM t'')"
  by (rule quoteIdent_reads_back) simp

lemma quoteLit_reads_back:
  assumes "rest = '''' \<or> hd rest \<noteq> CHR 0x27"
  shows "readDelimited CHR 0x27 (quoteLit s @ rest) = Some (s, rest)"
  using readQuoted_double [of rest "CHR 0x27" s] assms
  by (simp add: readDelimited_def quoteLit_def)

lemma quoteIdent_inject [simp]: "quoteIdent a = quoteIdent b \<longleftrightarrow> a = b"
proof
  assume "quoteIdent a = quoteIdent b"
  then have "readDelimited CHR 0x22 (quoteIdent a @ []) = readDelimited CHR 0x22 (quoteIdent b @ [])"
    by simp
  moreover have "readDelimited CHR 0x22 (quoteIdent x @ []) = Some (x, [])" for x
    using readQuoted_double [of "[]" "CHR 0x22" x] by (simp add: readDelimited_def quoteIdent_def)
  ultimately show "a = b" by simp
qed simp

text \<open>
  Different tables have different qualified names: the three quoted parts can
  be recovered from the text.
\<close>

theorem qualifiedName_inject:
  "qualifiedName c s t = qualifiedName c' s' t' \<longleftrightarrow> c = c' \<and> s = s' \<and> t = t'"
proof
  have rd: "readDelimited CHR 0x22 (quoteIdent x @ CHR ''.'' # y) = Some (x, CHR ''.'' # y)" for x y
    using readQuoted_double [of "CHR ''.'' # y" "CHR 0x22" x]
    by (simp add: readDelimited_def quoteIdent_def)
  assume "qualifiedName c s t = qualifiedName c' s' t'"
  then have eq: "quoteIdent c @ CHR ''.'' # quoteIdent s @ CHR ''.'' # quoteIdent t =
      quoteIdent c' @ CHR ''.'' # quoteIdent s' @ CHR ''.'' # quoteIdent t'"
    by (simp add: qualifiedName_def)
  from arg_cong [OF this, of "readDelimited CHR 0x22"] have "c = c'" by (simp add: rd)
  with eq have eq2: "quoteIdent s @ CHR ''.'' # quoteIdent t = quoteIdent s' @ CHR ''.'' # quoteIdent t'"
    by simp
  from arg_cong [OF this, of "readDelimited CHR 0x22"] have "s = s'" by (simp add: rd)
  with eq2 \<open>c = c'\<close> show "c = c' \<and> s = s' \<and> t = t'" by simp
qed simp

end
