(* ===== verification/Chunk.thy ===== *)
theory Chunk
  imports StoreRow
begin

text \<open>
  \<^verbatim>\<open>store/chunk.go\<close>: size estimates of insert arguments and the greedy packing of
  rows into chunks. The packing is generic in the row type and the estimate.
\<close>

definition stringArgOverhead :: int where "stringArgOverhead = 4"
definition nullArgBytes :: int where "nullArgBytes = 6"
definition numericArgBytes :: int where "numericArgBytes = 24"
definition timestampArgBytes :: int where "timestampArgBytes = 64"

fun estimateArgBytes :: "arg \<Rightarrow> int" where
  "estimateArgBytes (AStr v) = int (length v) + int (countC CHR 0x27 v) + stringArgOverhead"
| "estimateArgBytes ANil = nullArgBytes"
| "estimateArgBytes (ATime t) = timestampArgBytes"
| "estimateArgBytes (AInt n) = numericArgBytes"

text \<open>
  The loop of \<^verbatim>\<open>chunkRows\<close>: \<^verbatim>\<open>chunks\<close>, \<^verbatim>\<open>cur\<close> and \<^verbatim>\<open>size\<close> are its variables.
\<close>

fun chunkLoop :: "int \<Rightarrow> ('a \<Rightarrow> int) \<Rightarrow> 'a list \<Rightarrow> 'a list list \<Rightarrow> 'a list \<Rightarrow> int \<Rightarrow> 'a list list"
where
  "chunkLoop budget estimate [] chunks cur sz =
     (if 0 < length cur then chunks @ [cur] else chunks)"
| "chunkLoop budget estimate (r # rows) chunks cur sz =
     (let n = estimate r;
          (chunks, cur, sz) =
            (if 0 < length cur \<and> budget < sz + n then (chunks @ [cur], [], 0)
             else (chunks, cur, sz))
      in chunkLoop budget estimate rows chunks (cur @ [r]) (sz + n))"

definition chunkRows :: "'a list \<Rightarrow> int \<Rightarrow> ('a \<Rightarrow> int) \<Rightarrow> 'a list list" where
  "chunkRows rows budget estimate = chunkLoop budget estimate rows [] [] 0"

abbreviation sizeOf :: "('a \<Rightarrow> int) \<Rightarrow> 'a list \<Rightarrow> int" where
  "sizeOf estimate rows \<equiv> sum_list (map estimate rows)"

section \<open>A chunk at a time\<close>

text \<open>
  The rows a chunk of a given size still takes in, and what is left after it:
  the reference description of the loop.
\<close>

fun fitLen :: "int \<Rightarrow> ('a \<Rightarrow> int) \<Rightarrow> int \<Rightarrow> 'a list \<Rightarrow> nat" where
  "fitLen budget estimate sz [] = 0"
| "fitLen budget estimate sz (r # rows) =
     (if budget < sz + estimate r then 0
      else Suc (fitLen budget estimate (sz + estimate r) rows))"

lemma fitLen_le: "fitLen b est sz rows \<le> length rows"
  by (induction b est sz rows rule: fitLen.induct) auto

lemma fitLen_fits:
  "0 < fitLen b est sz rows \<Longrightarrow> sz + sizeOf est (take (fitLen b est sz rows) rows) \<le> b"
proof (induction b est sz rows rule: fitLen.induct)
  case (2 b est sz r rows)
  then show ?case
    by (cases "fitLen b est (sz + est r) rows = 0") (auto split: if_splits)
qed simp

lemma fitLen_stops:
  "fitLen b est sz rows < length rows \<Longrightarrow>
   b < sz + sizeOf est (take (fitLen b est sz rows) rows) + est (rows ! fitLen b est sz rows)"
  by (induction b est sz rows rule: fitLen.induct) (auto split: if_splits)

lemma fitLen_max:
  assumes "\<And>r. r \<in> set rows \<Longrightarrow> 0 \<le> est r"
    and "n \<le> length rows" and "sz + sizeOf est (take n rows) \<le> b"
  shows "n \<le> fitLen b est sz rows"
  using assms
proof (induction rows arbitrary: n sz)
  case (Cons r rows)
  show ?case
  proof (cases n)
    case (Suc m)
    have "0 \<le> sizeOf est (take m rows)"
      by (rule sum_list_map_nonneg) (use Cons.prems(1) in_set_takeD in fastforce)
    moreover have "m \<le> fitLen b est (sz + est r) rows"
      using Cons.prems Suc by (intro Cons.IH) (auto simp: algebra_simps)
    ultimately show ?thesis using Cons.prems(3) Suc by auto
  qed simp
qed simp

lemma chunkLoop_step:
  "cur \<noteq> [] \<Longrightarrow>
   chunkLoop b est rows chunks cur sz =
     (let k = fitLen b est sz rows
      in chunks @ [cur @ take k rows] @ chunkRows (drop k rows) b est)"
proof (induction rows arbitrary: chunks cur sz)
  case Nil
  then show ?case by (simp add: chunkRows_def)
next
  case (Cons r rows)
  show ?case
  proof (cases "b < sz + est r")
    case True
    have "chunkLoop b est rows (chunks @ [cur]) [r] (est r) =
        chunks @ [cur] @ chunkRows (r # rows) b est"
      using Cons.IH [of "[r]" "chunks @ [cur]" "est r"] Cons.IH [of "[r]" "[]" "est r"]
      by (simp add: chunkRows_def Let_def)
    with True Cons.prems show ?thesis by simp
  next
    case False
    with Cons show ?thesis by (simp add: Let_def)
  qed
qed

text \<open>One unfolding of the packing: the first chunk is the first row and all that fit after it.\<close>

lemma chunkRows_Nil [simp]: "chunkRows [] b est = []"
  by (simp add: chunkRows_def)

lemma chunkRows_Cons:
  "chunkRows (r # rows) b est =
     (let k = fitLen b est (est r) rows
      in (r # take k rows) # chunkRows (drop k rows) b est)"
  using chunkLoop_step [of "[r]" b est rows "[]" "est r"]
  by (simp add: chunkRows_def)

lemma chunkRows_induct [case_names Nil Cons]:
  assumes "P []"
    and "\<And>r rows. P (drop (fitLen b est (est r) rows) rows) \<Longrightarrow> P (r # rows)"
  shows "P rows"
proof (induction rows rule: length_induct)
  case (1 rows)
  then show ?case using assms by (cases rows) auto
qed

lemma concat_chunkRows: "concat (chunkRows rows b est) = rows"
  by (induction rows rule: chunkRows_induct [of _ b est]) (auto simp: chunkRows_Cons Let_def)

lemma chunkRows_nonempty: "c \<in> set (chunkRows rows b est) \<Longrightarrow> c \<noteq> []"
  by (induction rows rule: chunkRows_induct [of _ b est]) (auto simp: chunkRows_Cons Let_def)

lemma chunkRows_within:
  "c \<in> set (chunkRows rows b est) \<Longrightarrow> sizeOf est c \<le> b \<or> (\<exists>r. c = [r] \<and> b < est r)"
proof (induction rows rule: chunkRows_induct [of _ b est])
  case (Cons r rows)
  let ?k = "fitLen b est (est r) rows"
  have "sizeOf est (r # take ?k rows) \<le> b \<or> (?k = 0 \<and> b < est r)"
    using fitLen_fits [of b est "est r" rows] by (cases "?k = 0") auto
  with Cons show ?case by (auto simp: chunkRows_Cons Let_def)
qed simp

lemma chunkRows_eq_Nil [simp]: "chunkRows rows b est = [] \<longleftrightarrow> rows = []"
  by (cases rows) (auto simp: chunkRows_Cons Let_def)

lemma chunkRows_single:
  assumes "rows \<noteq> []" and "\<And>r. r \<in> set rows \<Longrightarrow> 0 \<le> est r" and "sizeOf est rows \<le> b"
  shows "chunkRows rows b est = [rows]"
proof -
  obtain r rs where rows: "rows = r # rs" using assms(1) by (cases rows) auto
  have "length rs \<le> fitLen b est (est r) rs"
    by (rule fitLen_max) (use assms rows in auto)
  with fitLen_le have "fitLen b est (est r) rs = length rs" by (metis le_antisym)
  then show ?thesis by (simp add: rows chunkRows_Cons)
qed

section \<open>Properties\<close>

text \<open>
  \<^verbatim>\<open>chunkRows\<close> keeps every row in its order, makes no empty chunk, and a chunk's
  estimated size is within the budget unless it is a single row that alone
  exceeds it.
\<close>

theorem chunkRows_partition:
  "concat (chunkRows rows b est) = rows \<and>
   (\<forall>c. c \<in> set (chunkRows rows b est) \<longrightarrow>
      c \<noteq> [] \<and> (sizeOf est c \<le> b \<or> (\<exists>r. c = [r] \<and> b < est r)))"
  using concat_chunkRows chunkRows_nonempty chunkRows_within by blast

theorem chunkRows_partition_witness:
  "chunkRows [3::int, 4, 5, 20, 1] 8 (\<lambda>x. x) = [[3, 4], [5], [20], [1]] \<and>
   concat (chunkRows [3::int, 4, 5, 20, 1] 8 (\<lambda>x. x)) = [3, 4, 5, 20, 1]"
  using chunkRows_partition [of "[3::int, 4, 5, 20, 1]" 8 "\<lambda>x. x"]
  by (simp add: chunkRows_def)

lemma chunkRows_stays_ahead:
  assumes "\<And>r. 0 \<le> est r"
  shows "(\<And>c. c \<in> set css \<Longrightarrow> sizeOf est c \<le> b \<or> length c \<le> 1) \<Longrightarrow>
    concat css = pre @ rows \<Longrightarrow> length (chunkRows rows b est) \<le> length css"
proof (induction css arbitrary: pre rows)
  case (Cons c css)
  from Cons.prems(2) have eq: "c @ concat css = pre @ rows" by simp
  then obtain us where us: "(pre = c @ us \<and> concat css = us @ rows) \<or>
      (c = pre @ us \<and> rows = us @ concat css)"
    by (auto simp: append_eq_append_conv2)
  then consider us where "pre = c @ us" "concat css = us @ rows"
    | us where "c = pre @ us" "us \<noteq> []" "rows = us @ concat css"
    by (cases "us = []") force+
  then show ?case
  proof cases
    case 1
    with Cons.IH [of us rows] Cons.prems(1) show ?thesis by simp
  next
    case (2 us)
    then obtain r vs where us: "us = r # vs" by (cases us) auto
    let ?k = "fitLen b est (est r) (vs @ concat css)"
    have "0 \<le> sizeOf est pre" by (rule sum_list_map_nonneg) (rule assms)
    then have "sizeOf est us \<le> b \<or> vs = []"
      using Cons.prems(1) [of c] 2(1) us by auto
    then have k: "length vs \<le> ?k"
      using fitLen_max [of "vs @ concat css" est "length vs" "est r" b] assms us by auto
    then obtain pre' where "concat css = pre' @ drop ?k (vs @ concat css)"
      by (metis append_take_drop_id drop_append drop_all append_Nil)
    then have "length (chunkRows (drop ?k (vs @ concat css)) b est) \<le> length css"
      using Cons.IH Cons.prems(1) by simp
    then show ?thesis by (simp add: 2(3) us chunkRows_Cons Let_def)
  qed
qed simp

text \<open>
  The packing is optimal: no way of cutting the rows, in order, into chunks
  that each fit the budget (or hold a single row) needs fewer chunks.
\<close>

theorem chunkRows_optimal:
  assumes "\<And>r. 0 \<le> est r"
    and "concat css = rows"
    and "\<And>c. c \<in> set css \<Longrightarrow> sizeOf est c \<le> b \<or> length c \<le> 1"
  shows "length (chunkRows rows b est) \<le> length css"
  using chunkRows_stays_ahead [of est css b "[]" rows] assms by simp

theorem chunkRows_optimal_witness:
  "length (chunkRows [3::nat, 4, 5, 20, 1] 8 int) \<le> length [[3::nat], [4], [5], [20], [1]]"
  by (rule chunkRows_optimal) auto

end
