(* ===== verification/StoreErrors.thy ===== *)
theory StoreErrors
  imports GoStrings
begin

text \<open>
  \<^verbatim>\<open>store/errors.go\<close> and the error values the stores build. A Go error is a tree: a
  sentinel or a driver's error at the leaves, wrapping (\<^verbatim>\<open>fmt.Errorf\<close> with one or two
  \<^verbatim>\<open>%w\<close>, \<^verbatim>\<open>PartialCommitError\<close>, \<^verbatim>\<open>errors.Join\<close>) at the inner nodes. \<^verbatim>\<open>errors.Is\<close> and
  \<^verbatim>\<open>errors.As\<close> walk that tree in depth-first order.
\<close>

datatype err =
    ErrNonRetryable
  | EOther string                      \<comment> \<open>any other leaf, by its text\<close>
  | ErrTrino string string             \<comment> \<open>\<^verbatim>\<open>*trino.ErrTrino\<close>: ErrorName and text\<close>
  | ChException int string             \<comment> \<open>\<^verbatim>\<open>*clickhouse.Exception\<close>: Code and text\<close>
  | Wrap string err                    \<comment> \<open>\<^verbatim>\<open>fmt.Errorf("<text>: %w", e)\<close>\<close>
  | Wrap2 err err                      \<comment> \<open>\<^verbatim>\<open>fmt.Errorf("%w: %w", e1, e2)\<close>\<close>
  | PartialCommitError int err
  | Joined "err list"                  \<comment> \<open>\<^verbatim>\<open>errors.Join\<close>\<close>

text \<open>
  What a database driver returns: an error of its own type or a transport error. It
  never carries an error value of this program.
\<close>

datatype driver_err = DTrino string string | DClickHouse int string | DOther string

fun ofDriver :: "driver_err \<Rightarrow> err" where
  "ofDriver (DTrino n t) = ErrTrino n t"
| "ofDriver (DClickHouse c t) = ChException c t"
| "ofDriver (DOther t) = EOther t"

text \<open>\<^verbatim>\<open>err.Error()\<close>.\<close>

fun errText :: "err \<Rightarrow> string" where
  "errText ErrNonRetryable = ''non-retryable''"
| "errText (EOther t) = t"
| "errText (ErrTrino n t) = t"
| "errText (ChException c t) = t"
| "errText (Wrap p e) = p @ '': '' @ errText e"
| "errText (Wrap2 e1 e2) = errText e1 @ '': '' @ errText e2"
| "errText (PartialCommitError n e) = itoa n @ '' rows committed before failure: '' @ errText e"
| "errText (Joined es) = joinS (map errText es) [CHR 0x0A]"

text \<open>\<^verbatim>\<open>errors.Is(err, ErrNonRetryable)\<close>.\<close>

fun isNonRetryable :: "err \<Rightarrow> bool" where
  "isNonRetryable ErrNonRetryable = True"
| "isNonRetryable (Wrap p e) = isNonRetryable e"
| "isNonRetryable (Wrap2 e1 e2) = (isNonRetryable e1 \<or> isNonRetryable e2)"
| "isNonRetryable (PartialCommitError n e) = isNonRetryable e"
| "isNonRetryable (Joined es) = (\<exists>e \<in> set es. isNonRetryable e)"
| "isNonRetryable _ = False"

text \<open>
  \<^verbatim>\<open>errors.As\<close>: the first node, in depth-first order, that a reader accepts.
\<close>

fun firstSome :: "('a \<Rightarrow> 'b option) \<Rightarrow> 'a list \<Rightarrow> 'b option" where
  "firstSome f [] = None"
| "firstSome f (x # xs) = (case f x of None \<Rightarrow> firstSome f xs | Some y \<Rightarrow> Some y)"

lemma firstSome_cong [fundef_cong]:
  "xs = ys \<Longrightarrow> (\<And>x. x \<in> set ys \<Longrightarrow> f x = g x) \<Longrightarrow> firstSome f xs = firstSome g ys"
  by (induction ys arbitrary: xs) (auto split: option.splits)

fun asPartial :: "err \<Rightarrow> int option" where
  "asPartial (PartialCommitError n e) = Some n"
| "asPartial (Wrap p e) = asPartial e"
| "asPartial (Wrap2 e1 e2) = (case asPartial e1 of None \<Rightarrow> asPartial e2 | Some n \<Rightarrow> Some n)"
| "asPartial (Joined es) = firstSome asPartial es"
| "asPartial _ = None"

fun asTrino :: "err \<Rightarrow> string option" where
  "asTrino (ErrTrino n t) = Some n"
| "asTrino (PartialCommitError n e) = asTrino e"
| "asTrino (Wrap p e) = asTrino e"
| "asTrino (Wrap2 e1 e2) = (case asTrino e1 of None \<Rightarrow> asTrino e2 | Some n \<Rightarrow> Some n)"
| "asTrino (Joined es) = firstSome asTrino es"
| "asTrino _ = None"

fun asClickHouse :: "err \<Rightarrow> int option" where
  "asClickHouse (ChException c t) = Some c"
| "asClickHouse (PartialCommitError n e) = asClickHouse e"
| "asClickHouse (Wrap p e) = asClickHouse e"
| "asClickHouse (Wrap2 e1 e2) = (case asClickHouse e1 of None \<Rightarrow> asClickHouse e2 | Some n \<Rightarrow> Some n)"
| "asClickHouse (Joined es) = firstSome asClickHouse es"
| "asClickHouse _ = None"

definition CommittedRows :: "err \<Rightarrow> int" where
  "CommittedRows e = (case asPartial e of None \<Rightarrow> 0 | Some n \<Rightarrow> n)"

text \<open>\<^verbatim>\<open>strings.Contains(s, sub)\<close>.\<close>

fun containsS :: "string \<Rightarrow> string \<Rightarrow> bool" where
  "containsS [] sub = (sub = [])"
| "containsS (c # s) sub = (hasPrefix (c # s) sub \<or> containsS s sub)"

lemma ofDriver_plain [simp]:
  "asPartial (ofDriver e) = None" "isNonRetryable (ofDriver e) = False"
  by (cases e; simp)+

lemma CommittedRows_simps [simp]:
  "CommittedRows (Wrap p e) = CommittedRows e"
  "CommittedRows (PartialCommitError n e) = n"
  "CommittedRows ErrNonRetryable = 0"
  by (simp_all add: CommittedRows_def)

lemma CommittedRows_none: "asPartial e = None \<Longrightarrow> CommittedRows e = 0"
  by (simp add: CommittedRows_def)

lemma containsS_append: "containsS s sub \<Longrightarrow> containsS (p @ s) sub"
  by (induction p) auto

end
