(* ===== verification/StoreContract.thy ===== *)
theory StoreContract
  imports Chunk StoreErrors
begin

text \<open>
  The write contract of \<^verbatim>\<open>store.Store\<close> that the ingest buffer relies on, as locales.
  Every write operation takes and returns the state of its backend; \<open>acked\<close> reads
  off the rows whose insert statement the backend has acknowledged, in order.

  \<open>batch_writer\<close> is what \<^verbatim>\<open>InsertBatch\<close> promises: on success every row is stored;
  on failure the rows stored are a proper prefix, and \<^verbatim>\<open>CommittedRows\<close> of the error
  is its length. \<open>chunk_store\<close> is what a backend provides to obtain that contract:
  an order-preserving split and a chunk insert that is all or nothing.
\<close>

section \<open>The loop over the chunks\<close>

text \<open>
  The body of \<^verbatim>\<open>InsertBatch\<close>, the same in both backends: chunks are inserted in order
  and the first failure is reported with the number of rows before it.
\<close>

fun insertLoop :: "('s \<Rightarrow> 'b list \<Rightarrow> 's \<times> err option) \<Rightarrow> 's \<Rightarrow> 'b list list \<Rightarrow> int \<Rightarrow> 's \<times> err option"
where
  "insertLoop insertChunk w [] committed = (w, None)"
| "insertLoop insertChunk w (chunk # chunks) committed =
     (case insertChunk w chunk of
        (w', Some e) \<Rightarrow> (w', Some (if 0 < committed then PartialCommitError committed e else e))
      | (w', None) \<Rightarrow> insertLoop insertChunk w' chunks (committed + int (length chunk)))"

section \<open>Interfaces\<close>

locale batch_writer =
  fixes insertBatch :: "'s \<Rightarrow> 'a list \<Rightarrow> 's \<times> err option"
    and acked :: "'s \<Rightarrow> 'b list"
    and img :: "'a \<Rightarrow> 'b"
  assumes insert_ok: "insertBatch w rows = (w', None) \<Longrightarrow> acked w' = acked w @ map img rows"
    and insert_err: "insertBatch w rows = (w', Some e) \<Longrightarrow>
      0 \<le> CommittedRows e \<and> nat (CommittedRows e) < length rows \<and>
      acked w' = acked w @ map img (take (nat (CommittedRows e)) rows)"

locale row_splitter =
  fixes split :: "'a list \<Rightarrow> 'c list list"
    and simg :: "'a \<Rightarrow> 'c"
  assumes split_concat: "concat (split rows) = map simg rows"
    and split_nonempty: "c \<in> set (split rows) \<Longrightarrow> c \<noteq> []"

locale chunk_store = row_splitter split img
  for split :: "'a list \<Rightarrow> 'b list list" and img :: "'a \<Rightarrow> 'b" +
  fixes insertChunk :: "'s \<Rightarrow> 'b list \<Rightarrow> 's \<times> err option"
    and acked :: "'s \<Rightarrow> 'b list"
  assumes chunk_ok: "insertChunk w c = (w', None) \<Longrightarrow> acked w' = acked w @ c"
    and chunk_err: "insertChunk w c = (w', Some e) \<Longrightarrow> acked w' = acked w \<and> asPartial e = None"
begin

lemma insertLoop_ok:
  "insertLoop insertChunk w cs n = (w', None) \<Longrightarrow> acked w' = acked w @ concat cs"
  by (induction cs arbitrary: w n) (auto split: prod.splits option.splits dest: chunk_ok)

lemma insertLoop_err:
  assumes "insertLoop insertChunk w cs n = (w', Some e)" and "0 \<le> n"
    and "\<And>c. c \<in> set cs \<Longrightarrow> c \<noteq> []"
  shows "\<exists>k. CommittedRows e = n + int k \<and> k < length (concat cs) \<and>
      acked w' = acked w @ take k (concat cs)"
  using assms
proof (induction cs arbitrary: w n)
  case (Cons c cs)
  obtain w1 res where ins: "insertChunk w c = (w1, res)" by fastforce
  show ?case
  proof (cases res)
    case (Some d)
    with Cons.prems ins have "w' = w1" and e: "e = (if 0 < n then PartialCommitError n d else d)"
      by auto
    moreover have "acked w1 = acked w" "CommittedRows d = 0"
      using chunk_err [of w c w1 d] ins Some by (auto simp: CommittedRows_none)
    ultimately show ?thesis
      using Cons.prems by (intro exI [of _ 0]) (auto simp: CommittedRows_def)
  next
    case None
    with Cons.prems(1) ins have "insertLoop insertChunk w1 cs (n + int (length c)) = (w', Some e)"
      by simp
    then obtain k where "CommittedRows e = n + int (length c) + int k" "k < length (concat cs)"
      "acked w' = acked w1 @ take k (concat cs)"
      using Cons.IH Cons.prems by force
    moreover have "acked w1 = acked w @ c" using chunk_ok ins None by blast
    ultimately show ?thesis by (intro exI [of _ "length c + k"]) simp
  qed
qed simp

end

sublocale chunk_store \<subseteq> writer: batch_writer "\<lambda>w rows. insertLoop insertChunk w (split rows) 0" acked img
proof
  fix w rows w' e
  show "insertLoop insertChunk w (split rows) 0 = (w', None) \<Longrightarrow> acked w' = acked w @ map img rows"
    using insertLoop_ok split_concat by metis
  assume "insertLoop insertChunk w (split rows) 0 = (w', Some e)"
  then obtain k where "CommittedRows e = int k" "k < length (concat (split rows))"
    "acked w' = acked w @ take k (concat (split rows))"
    using insertLoop_err split_nonempty by force
  then show "0 \<le> CommittedRows e \<and> nat (CommittedRows e) < length rows \<and>
      acked w' = acked w @ map img (take (nat (CommittedRows e)) rows)"
    by (simp add: split_concat take_map)
qed

end
