(* ===== verification/TrinoStore.thy ===== *)
theory TrinoStore
  imports Config Truncate SqlText StoreContract
begin

text \<open>
  The Trino backend, write path (\<^verbatim>\<open>store/trino.go\<close>): the prepared statement texts, the
  statement-size budget, clamping of single rows, splitting and inserting. The
  driver's \<^verbatim>\<open>db.ExecContext\<close> is the parameter \<open>exec\<close>; the store's state is the
  driver's state together with the rows of the statements it has acknowledged.
\<close>

section \<open>Statements\<close>

record TrinoStore =
  ts_cfg :: TrinoCfg
  ts_table :: string
  insertColumns :: string
  insertPrefix :: string
  rowPlaceholder :: string
  rowSelectList :: string
  ts_summarySelect :: string
  stmtOverhead :: int
  maxStmtBytes :: int

definition defaultMaxStatementBytes :: int where "defaultMaxStatementBytes = 700000"
definition minStatementBudget :: int where "minStatementBudget = 4096"
definition clampMaxIterations :: nat where "clampMaxIterations = 1000"
definition executeImmediateOverhead :: int where "executeImmediateOverhead = 27"

definition summaryColumns :: "string list" where
  "summaryColumns =
    [''query_id'', ''create_time'', ''execution_start_time'', ''user_name'', ''source'',
     ''catalog'', ''query_state'', ''query_type'', ''query_preview'', ''wall_ms'', ''cpu_ms'',
     ''physical_input_bytes'', ''peak_user_memory_bytes'', ''output_rows'',
     ''processed_input_rows'', ''error_code'']"

definition coalesced :: "column \<Rightarrow> string \<Rightarrow> string" where
  "coalesced c quoted =
     (if hasPrefix (sqlType c) ''timestamp'' then quoted
      else if sqlType c = ''bigint'' then ''COALESCE('' @ quoted @ '', 0)''
      else ''COALESCE('' @ quoted @ '', '' @ [CHR 0x27, CHR 0x27] @ '')'')"

text \<open>\<^verbatim>\<open>byName[name]\<close>: a missing key gives the zero column.\<close>

definition byName :: "string \<Rightarrow> column" where
  "byName n = (case filter (\<lambda>c. name c = n) schemaColumns of
                 [] \<Rightarrow> \<lparr>name = '''', sqlType = ''''\<rparr> | c # cs \<Rightarrow> last (c # cs))"

text \<open>\<^verbatim>\<open>"(" + strings.TrimSuffix(strings.Repeat("?,", n), ",") + ")"\<close>\<close>

definition placeholder :: "nat \<Rightarrow> string" where
  "placeholder n =
     (let rep = concat (replicate n ''?,'')
      in ''('' @ (if rep \<noteq> [] \<and> last rep = CHR '','' then butlast rep else rep) @ '')'')"

definition buildStatements :: "TrinoStore \<Rightarrow> TrinoStore" where
  "buildStatements s =
     (let cols = joinS (map (\<lambda>c. quoteIdent (name c)) schemaColumns) '', '';
          prefix = ''INSERT INTO '' @ ts_table s @ '' ('' @ cols @ '') VALUES ''
      in s\<lparr>insertColumns := cols,
           rowSelectList := joinS (map (\<lambda>c. coalesced c (quoteIdent (name c))) schemaColumns) '', '',
           rowPlaceholder := placeholder (length schemaColumns),
           insertPrefix := prefix,
           stmtOverhead := executeImmediateOverhead + int (length prefix) + int (countC CHR 0x27 prefix),
           ts_summarySelect := ''SELECT '' @
             joinS (map (\<lambda>n. coalesced (byName n) (quoteIdent n)) summaryColumns) '', '' @
             '' FROM '' @ ts_table s\<rparr>)"

text \<open>
  \<^verbatim>\<open>NewTrino\<close>: \<open>dsn\<close> is the driver's \<^verbatim>\<open>FormatDSN\<close> and \<open>open\<close> is \<^verbatim>\<open>sql.Open\<close>, each an error or
  nothing.
\<close>

definition NewTrino :: "(TrinoCfg \<Rightarrow> err option) \<Rightarrow> (TrinoCfg \<Rightarrow> err option) \<Rightarrow> TrinoCfg \<Rightarrow> err + TrinoStore"
where
  "NewTrino dsn open cfg =
     (case dsn cfg of Some e \<Rightarrow> Inl (Wrap ''build trino dsn'' e)
      | None \<Rightarrow>
          (case open cfg of Some e \<Rightarrow> Inl (Wrap ''open trino'' e)
           | None \<Rightarrow>
               Inr (buildStatements
                 \<lparr>ts_cfg = cfg,
                  ts_table = qualifiedName (tr_Catalog cfg) (tr_Schema cfg) (tr_Table cfg),
                  insertColumns = '''', insertPrefix = '''', rowPlaceholder = '''',
                  rowSelectList = '''', ts_summarySelect = '''', stmtOverhead = 0,
                  maxStmtBytes = (if tr_MaxStatementBytes cfg \<le> 0 then defaultMaxStatementBytes
                                  else tr_MaxStatementBytes cfg)\<rparr>)))"

section \<open>Clamping and splitting\<close>

definition estimateRowBytes :: "TrinoStore \<Rightarrow> Row \<Rightarrow> int" where
  "estimateRowBytes s r =
     int (length (rowPlaceholder s)) + 2 + sum_list (map estimateArgBytes (args r))"

text \<open>\<^verbatim>\<open>largest\<close> after the loop over the string fields: the first of the longest ones.\<close>

fun pickLargest :: "Row \<Rightarrow> sfield option \<Rightarrow> sfield list \<Rightarrow> sfield option" where
  "pickLargest r largest [] = largest"
| "pickLargest r largest (f # fs) =
     pickLargest r (case largest of None \<Rightarrow> Some f
                    | Some g \<Rightarrow> if length (getF f r) > length (getF g r) then Some f else Some g) fs"

text \<open>The loop of \<^verbatim>\<open>clampRow\<close>; the first argument counts the iterations left.\<close>

fun clampLoop :: "nat \<Rightarrow> TrinoStore \<Rightarrow> int \<Rightarrow> int \<Rightarrow> Row \<Rightarrow> Row" where
  "clampLoop 0 s budget est r = r"
| "clampLoop (Suc i) s budget est r =
     (if est \<le> budget then r
      else
        (case pickLargest r None stringFields of None \<Rightarrow> r
         | Some largest \<Rightarrow>
             if getF largest r = '''' then r
             else
               (let len = int (length (getF largest r));
                    target = max (len - (est - budget)) (goDiv len 2);
                    r = setF largest (truncateS (getF largest r) target) r;
                    nxt = estimateRowBytes s r
                in if est \<le> nxt then r else clampLoop i s budget nxt r)))"

definition clampRow :: "TrinoStore \<Rightarrow> Row \<Rightarrow> int \<Rightarrow> Row" where
  "clampRow s r budget = clampLoop clampMaxIterations s budget (estimateRowBytes s r) r"

definition stmtBudget :: "TrinoStore \<Rightarrow> int" where
  "stmtBudget s = max (maxStmtBytes s - stmtOverhead s) minStatementBudget"

definition SplitBatch :: "TrinoStore \<Rightarrow> Row list \<Rightarrow> Row list list" where
  "SplitBatch s rows =
     (if length rows = 0 then []
      else let budget = stmtBudget s;
               clamped = map (\<lambda>r. clampRow s r budget) rows
           in chunkRows clamped budget (estimateRowBytes s))"

section \<open>Inserting\<close>

definition classifyInsertErr :: "err \<Rightarrow> err" where
  "classifyInsertErr e =
     (if asTrino e = Some ''QUERY_TEXT_TOO_LARGE'' \<or> containsS (errText e) ''exceeds the maximum length''
      then Wrap2 ErrNonRetryable e else e)"

definition insertText :: "TrinoStore \<Rightarrow> Row list \<Rightarrow> string" where
  "insertText s rows = insertPrefix s @ joinS (map (\<lambda>r. rowPlaceholder s) rows) '', ''"

type_synonym 'w handle = "'w \<times> Row list"

definition acked :: "'w handle \<Rightarrow> Row list" where
  "acked w = snd w"

type_synonym 'w execFn = "'w \<Rightarrow> string \<Rightarrow> arg list \<Rightarrow> 'w \<times> driver_err option"

definition insertChunk :: "'w execFn \<Rightarrow> TrinoStore \<Rightarrow>
    'w handle \<Rightarrow> Row list \<Rightarrow> 'w handle \<times> err option" where
  "insertChunk exec s w rows =
     (case exec (fst w) (insertText s rows) (concat (map args rows)) of
        (d, Some e) \<Rightarrow>
          ((d, snd w), Some (Wrap (''insert '' @ itoa (int (length rows)) @ '' rows'') (classifyInsertErr (ofDriver e))))
      | (d, None) \<Rightarrow> ((d, snd w @ rows), None))"

definition InsertBatch :: "'w execFn \<Rightarrow> TrinoStore \<Rightarrow>
    'w handle \<Rightarrow> Row list \<Rightarrow> 'w handle \<times> err option" where
  "InsertBatch exec s w rows = insertLoop (insertChunk exec s) w (SplitBatch s rows) 0"

section \<open>Estimates\<close>

abbreviation strBytes :: "string \<Rightarrow> int" where
  "strBytes v \<equiv> estimateArgBytes (AStr v)"

lemma strBytes_nonneg: "0 \<le> strBytes v"
  by (simp add: stringArgOverhead_def)

lemma estimateArgBytes_nonneg: "0 \<le> estimateArgBytes a"
  by (cases a) (simp_all add: stringArgOverhead_def nullArgBytes_def numericArgBytes_def
      timestampArgBytes_def)

lemma estimateRowBytes_nonneg: "0 \<le> estimateRowBytes s r"
  unfolding estimateRowBytes_def
  using sum_list_map_nonneg [of "args r" estimateArgBytes] estimateArgBytes_nonneg by force

lemma estimate_setF [est_simps]:
  "estimateRowBytes s (setF f v r) = estimateRowBytes s r - strBytes (getF f r) + strBytes v"
  by (cases f) (simp_all add: estimateRowBytes_def args_def)

text \<open>What a row costs with every string field empty.\<close>

lemma estimate_empty:
  assumes "\<And>f. getF f r = ''''"
  shows "estimateRowBytes s r \<le> int (length (rowPlaceholder s)) + 686"
proof -
  have e: "getF f r = ''''" for f by (rule assms)
  have t: "estimateArgBytes (timeArg t) \<le> 64" for t
    by (simp add: timeArg_def timestampArgBytes_def nullArgBytes_def split: option.split)
  show ?thesis
    using t [of "ExecutionStartTime r"] t [of "EndTime r"]
      e [of FQueryID] e [of FQueryState] e [of FQueryType] e [of FUserName] e [of FSource]
      e [of FPrincipal] e [of FClientTags] e [of FCatalog] e [of FSchemaName] e [of FQueryText]
      e [of FQueryPreview] e [of FUpdateType] e [of FErrorCode] e [of FErrorType]
      e [of FErrorMessage] e [of FPlan] e [of FJSONPlan] e [of FInputsJSON] e [of FResourceGroup]
      e [of FServerVersion] e [of FEnvironment]
    by (simp add: estimateRowBytes_def args_def stringArgOverhead_def numericArgBytes_def
        timestampArgBytes_def)
qed

section \<open>The largest field\<close>

lemma pickLargest_Some:
  "pickLargest r (Some g) fs = Some h \<Longrightarrow>
   h \<in> insert g (set fs) \<and> (\<forall>f \<in> insert g (set fs). length (getF f r) \<le> length (getF h r))"
proof (induction fs arbitrary: g)
  case (Cons f fs)
  let ?g = "if length (getF f r) > length (getF g r) then f else g"
  have "pickLargest r (Some ?g) fs = Some h" using Cons.prems by (simp split: if_splits)
  from Cons.IH [OF this] show ?case by (auto split: if_splits intro: order_trans)
qed simp

lemma pickLargest_total: "\<exists>h. pickLargest r (Some g) fs = Some h"
  by (induction fs arbitrary: g) auto

lemma pickLargest_fields:
  obtains h where "pickLargest r None stringFields = Some h"
    and "\<And>f. length (getF f r) \<le> length (getF h r)"
proof -
  obtain f fs where sf: "stringFields = f # fs" by (cases stringFields) auto
  obtain h where h: "pickLargest r (Some f) fs = Some h" using pickLargest_total by blast
  have "length (getF g r) \<le> length (getF h r)" for g
  proof -
    have "g \<in> set (f # fs)" using stringFields_all [of g] unfolding sf .
    with pickLargest_Some [OF h] show ?thesis by auto
  qed
  moreover have "pickLargest r None stringFields = Some h" unfolding sf using h by simp
  ultimately show ?thesis using that by blast
qed

section \<open>Clamping reaches the budget\<close>

text \<open>One pass over the largest field: the estimate drops by at least the bytes cut.\<close>

lemma clamp_step:
  assumes "b < estimateRowBytes s r" and "getF f r \<noteq> ''''"
  defines "L \<equiv> int (length (getF f r))"
  defines "target \<equiv> max (L - (estimateRowBytes s r - b)) (goDiv L 2)"
  defines "r' \<equiv> setF f (truncateS (getF f r) target) r"
  shows "estimateRowBytes s r' < estimateRowBytes s r"
    and "estimateRowBytes s r' \<le> b \<or> length (getF f r') \<le> length (getF f r) div 2"
proof -
  have L: "0 < L" using assms(2) by (cases "getF f r") (simp_all add: L_def)
  then have half: "goDiv L 2 = L div 2" by (simp add: go_simps)
  have len: "int (length (getF f r')) \<le> target"
    using truncate_length [of "getF f r" target] L half by (simp add: r'_def target_def)
  moreover have "estimateRowBytes s r' \<le> estimateRowBytes s r - (L - int (length (getF f r')))"
    using truncate_quotes [of "getF f r" target] by (simp add: r'_def est_simps L_def)
  moreover have "target < L" using L assms(1) by (auto simp: target_def half)
  ultimately show "estimateRowBytes s r' < estimateRowBytes s r"
    and "estimateRowBytes s r' \<le> b \<or> length (getF f r') \<le> length (getF f r) div 2"
    by (auto simp: target_def half L_def max_def zdiv_int split: if_splits)
qed

text \<open>The measure of the halving passes: the binary digits of all field lengths.\<close>

definition fieldBits :: "Row \<Rightarrow> nat" where
  "fieldBits r = sum_list (map (\<lambda>f. bitLen (length (getF f r))) stringFields)"

lemma fieldBits_bound:
  assumes "\<And>f. length (getF f r) < 2 ^ k"
  shows "fieldBits r \<le> 21 * k"
  using sum_list_le_const [of stringFields "\<lambda>f. bitLen (length (getF f r))" k] assms bitLen_le
  by (simp add: fieldBits_def length_stringFields)

lemma fieldBits_setF:
  assumes "length v \<le> length (getF f r) div 2" and "getF f r \<noteq> ''''"
  shows "fieldBits (setF f v r) < fieldBits r"
  unfolding fieldBits_def
proof (rule sum_list_strict_at [of f])
  have "bitLen (length v) \<le> bitLen (length (getF f r) div 2)" by (rule bitLen_mono [OF assms(1)])
  also have "\<dots> < bitLen (length (getF f r))" using assms(2) by (intro bitLen_half) simp
  finally show "bitLen (length (getF f (setF f v r))) < bitLen (length (getF f r))" by simp
qed simp_all

lemma clampLoop_done: "estimateRowBytes s r \<le> b \<Longrightarrow> clampLoop i s b (estimateRowBytes s r) r = r"
  by (cases i) simp_all

lemma clampLoop_fits:
  assumes "int (length (rowPlaceholder s)) + 686 \<le> b" and "fieldBits r < i"
  shows "estimateRowBytes s (clampLoop i s b (estimateRowBytes s r) r) \<le> b"
  using assms(2)
proof (induction i arbitrary: r)
  case (Suc i)
  obtain h where h: "pickLargest r None stringFields = Some h"
    "\<And>f. length (getF f r) \<le> length (getF h r)"
    using pickLargest_fields [of r] by blast
  show ?case
  proof (cases "estimateRowBytes s r \<le> b")
    case False
    have ne: "getF h r \<noteq> ''''"
    proof
      assume "getF h r = ''''"
      then have "getF f r = ''''" for f using h(2) [of f] by simp
      then show False using estimate_empty [of r s] assms(1) False by simp
    qed
    let ?L = "int (length (getF h r))"
    let ?r = "setF h (truncateS (getF h r) (max (?L - (estimateRowBytes s r - b)) (goDiv ?L 2))) r"
    have less: "estimateRowBytes s ?r < estimateRowBytes s r"
      and or: "estimateRowBytes s ?r \<le> b \<or> length (getF h ?r) \<le> length (getF h r) div 2"
      using clamp_step [of b s r h] False ne by simp_all
    have unf: "clampLoop (Suc i) s b (estimateRowBytes s r) r = clampLoop i s b (estimateRowBytes s ?r) ?r"
      using False h(1) ne less by (simp add: Let_def)
    show ?thesis
    proof (cases "estimateRowBytes s ?r \<le> b")
      case True
      then show ?thesis unfolding unf by (simp add: clampLoop_done)
    next
      case False
      with or ne have "fieldBits ?r < fieldBits r" by (intro fieldBits_setF) simp_all
      then show ?thesis unfolding unf using Suc by (intro Suc.IH) simp
    qed
  qed (simp add: clampLoop_done)
qed simp

lemma clampLoop_invariant:
  assumes "P r" and "\<And>f v x. P x \<Longrightarrow> length v \<le> length (getF f x) \<Longrightarrow> P (setF f v x)"
  shows "P (clampLoop i s b est r)"
  using assms(1)
proof (induction i arbitrary: est r)
  case (Suc i)
  have "P (setF h (truncateS (getF h r) (max (int (length (getF h r)) - (est - b))
        (goDiv (int (length (getF h r))) 2))) r)"
    if "b < est" for h
  proof (rule assms(2) [OF Suc.prems])
    let ?L = "int (length (getF h r))"
    have "max (?L - (est - b)) (goDiv ?L 2) \<le> ?L" using that by (simp add: go_simps)
    then show "length (truncateS (getF h r) (max (?L - (est - b)) (goDiv ?L 2))) \<le> length (getF h r)"
      using truncate_length [of "getF h r" "max (?L - (est - b)) (goDiv ?L 2)"] by linarith
  qed
  with Suc show ?case by (auto simp: Let_def split: option.splits)
qed simp

lemma setF_CreateTime [simp]: "CreateTime (setF f v r) = CreateTime r"
  by (cases f) simp_all

lemma clampRow_CreateTime [simp]: "CreateTime (clampRow s r b) = CreateTime r"
  unfolding clampRow_def by (rule clampLoop_invariant [where P = "\<lambda>x. CreateTime x = CreateTime r"]) simp_all

lemma clampRow_shrinks: "length (getF f (clampRow s r b)) \<le> length (getF f r)"
  unfolding clampRow_def
proof (rule clampLoop_invariant [where P = "\<lambda>x. length (getF f x) \<le> length (getF f r)"])
  show "length (getF f (setF g v x)) \<le> length (getF f r)"
    if "length (getF f x) \<le> length (getF f r)" "length v \<le> length (getF g x)" for g v x
    using that by (cases "g = f") simp_all
qed simp

lemma clampRow_id: "estimateRowBytes s r \<le> b \<Longrightarrow> clampRow s r b = r"
  by (simp add: clampRow_def clampLoop_done)

lemma length_placeholder: "length (placeholder 41) = 83"
  by (simp add: placeholder_def eval_nat_numeral)

lemma stmtBudget_min: "4096 \<le> stmtBudget s"
  by (simp add: stmtBudget_def minStatementBudget_def)

text \<open>The facts of a store that \<^verbatim>\<open>NewTrino\<close> built.\<close>

lemma NewTrino_Inr:
  assumes "NewTrino dsn open cfg = Inr s"
  shows "rowPlaceholder s = placeholder 41"
    and "stmtOverhead s = 27 + int (length (insertPrefix s)) + int (countC CHR 0x27 (insertPrefix s))"
    and "maxStmtBytes s = (if tr_MaxStatementBytes cfg \<le> 0 then 700000 else tr_MaxStatementBytes cfg)"
    and "ts_table s = qualifiedName (tr_Catalog cfg) (tr_Schema cfg) (tr_Table cfg)"
    and "ts_cfg s = cfg"
  using assms by (auto simp: NewTrino_def buildStatements_def Let_def executeImmediateOverhead_def
      defaultMaxStatementBytes_def split: option.splits)

text \<open>Fields below \<open>2 ^ 47\<close> bytes: 21 fields of at most 47 halvings stay below the cap of 1000.\<close>

lemma clampRow_fits:
  assumes "length (rowPlaceholder s) = 83" and "\<And>f. length (getF f r) < 2 ^ 47"
  shows "estimateRowBytes s (clampRow s r (stmtBudget s)) \<le> stmtBudget s"
  unfolding clampRow_def
proof (rule clampLoop_fits)
  show "fieldBits r < clampMaxIterations"
    using fieldBits_bound [of r 47] assms(2) by (simp add: clampMaxIterations_def)
qed (use assms(1) stmtBudget_min [of s] in simp)

section \<open>Splitting and inserting\<close>

lemma concat_SplitBatch: "concat (SplitBatch s rows) = map (\<lambda>r. clampRow s r (stmtBudget s)) rows"
  by (simp add: SplitBatch_def Let_def concat_chunkRows)

lemma SplitBatch_nonempty: "c \<in> set (SplitBatch s rows) \<Longrightarrow> c \<noteq> []"
  using chunkRows_nonempty by (fastforce simp: SplitBatch_def Let_def split: if_splits)

lemma classifyInsertErr_asPartial [simp]: "asPartial (classifyInsertErr (ofDriver e)) = None"
  by (simp add: classifyInsertErr_def)

interpretation trino: chunk_store "SplitBatch s" "\<lambda>r. clampRow s r (stmtBudget s)"
    "insertChunk exec s" acked for s and exec :: "'w execFn"
  by unfold_locales (auto simp: concat_SplitBatch insertChunk_def acked_def
      dest: SplitBatch_nonempty split: prod.splits option.splits)

lemma InsertBatch_writer:
  "batch_writer (InsertBatch exec s) acked (\<lambda>r. clampRow s r (stmtBudget s))"
  unfolding InsertBatch_def by (rule trino.writer.batch_writer_axioms)

interpretation trinoWriter: batch_writer "InsertBatch exec s" acked "\<lambda>r. clampRow s r (stmtBudget s)"
    for exec :: "'w execFn" and s
  by (rule InsertBatch_writer)


lemma SplitBatch_chunk_fits:
  assumes "length (rowPlaceholder s) = 83" and "c \<in> set (SplitBatch s rows)"
    and "\<And>r f. r \<in> set rows \<Longrightarrow> length (getF f r) < 2 ^ 47"
  shows "sizeOf (estimateRowBytes s) c \<le> stmtBudget s"
    and "r \<in> set c \<Longrightarrow> estimateRowBytes s r \<le> stmtBudget s"
proof -
  let ?b = "stmtBudget s"
  have c: "c \<in> set (chunkRows (map (\<lambda>r. clampRow s r ?b) rows) ?b (estimateRowBytes s))"
    using assms(2) by (auto simp: SplitBatch_def Let_def split: if_splits)
  have fits: "estimateRowBytes s r \<le> ?b" if "r \<in> set c" for r
  proof -
    have "r \<in> set (concat (SplitBatch s rows))" using that assms(2) by auto
    then obtain x where "x \<in> set rows" "r = clampRow s x ?b" by (auto simp: concat_SplitBatch)
    then show ?thesis using clampRow_fits [OF assms(1)] assms(3) by blast
  qed
  then show "r \<in> set c \<Longrightarrow> estimateRowBytes s r \<le> ?b" .
  show "sizeOf (estimateRowBytes s) c \<le> ?b"
    using chunkRows_within [OF c] fits by fastforce
qed

lemma SplitBatch_single:
  assumes "rows \<noteq> []" and "sizeOf (estimateRowBytes s) rows \<le> stmtBudget s"
    and "\<And>r. r \<in> set rows \<Longrightarrow> estimateRowBytes s r \<le> stmtBudget s"
  shows "SplitBatch s rows = [rows]"
proof -
  have "map (\<lambda>r. clampRow s r (stmtBudget s)) rows = rows"
    using assms(3) by (simp add: map_idI clampRow_id)
  then show ?thesis
    using assms(1,2) estimateRowBytes_nonneg
    by (simp add: SplitBatch_def Let_def chunkRows_single)
qed

section \<open>The statement on the wire\<close>

text \<open>
  The driver ships \<^verbatim>\<open>EXECUTE IMMEDIATE '<text>' USING <arguments>\<close> with the text's quotes
  doubled and every argument serialized; \<open>serial\<close> is the driver's serializer.
\<close>

definition wireText :: "(arg \<Rightarrow> string) \<Rightarrow> string \<Rightarrow> arg list \<Rightarrow> string" where
  "wireText serial stmt as =
     ''EXECUTE IMMEDIATE '' @ quoteLit stmt @ '' USING '' @ joinS (map serial as) '', ''"

lemma countC_joinS_placeholder: "countC CHR 0x27 (joinS (map (\<lambda>r. placeholder 41) rows) '', '') = 0"
proof -
  have "countC CHR 0x27 (placeholder 41) = 0" by (simp add: placeholder_def eval_nat_numeral)
  then show ?thesis
    by (induction rows rule: induct_list012) simp_all
qed

lemma sum_args_bound:
  assumes "\<And>a. int (length (serial a)) + 2 \<le> estimateArgBytes a"
  shows "int (length (joinS (map serial as) '', '')) \<le> sum_list (map estimateArgBytes as)"
proof (induction as rule: induct_list012)
  case (2 a)
  then show ?case using assms [of a] by simp
next
  case (3 a b as)
  then show ?case using assms [of a] by simp
qed simp

lemma sizeOf_rows:
  "length (rowPlaceholder s) = 83 \<Longrightarrow> sizeOf (estimateRowBytes s) rows =
     85 * int (length rows) + sum_list (map estimateArgBytes (concat (map args rows)))"
  by (induction rows) (simp_all add: estimateRowBytes_def)

lemma wireText_bound:
  assumes "NewTrino dsn open cfg = Inr s"
    and "\<And>a. int (length (serial a)) + 2 \<le> estimateArgBytes a"
  shows "int (length (wireText serial (insertText s rows) (concat (map args rows)))) \<le>
     stmtOverhead s + sizeOf (estimateRowBytes s) rows"
proof -
  have "length (joinS (map (\<lambda>r. placeholder 41) rows) '', '') \<le> 85 * length rows"
    by (induction rows rule: induct_list012) (simp_all add: length_placeholder)
  then have "int (length (joinS (map (\<lambda>r. placeholder 41) rows) '', '')) \<le> 85 * int (length rows)"
    by linarith
  then show ?thesis
    using sum_args_bound [of serial "concat (map args rows)", OF assms(2)]
    by (simp add: wireText_def insertText_def quoteLit_def length_double_quote NewTrino_Inr [OF assms(1)]
        countC_joinS_placeholder sizeOf_rows length_placeholder)
qed


lemma containsS_self: "containsS s s"
  by (cases s) (simp_all add: hasPrefix_def)

text \<open>A configuration for the examples below, by its statement size.\<close>

definition exampleTrino :: "int \<Rightarrow> TrinoCfg" where
  "exampleTrino n =
     \<lparr>tr_Host = ''h'', tr_Port = 8080, tr_User = ''u'', tr_Source = '''', tr_Catalog = ''c'',
      tr_Schema = ''s'', tr_Table = ''t'', tr_Password = '''', tr_AccessToken = '''', tr_SSL = False,
      tr_QueryTimeout = 0, tr_MaxStatementBytes = n, tr_IcebergLocation = ''''\<rparr>"

section \<open>Properties\<close>

text \<open>
  C15. \<^verbatim>\<open>clampRow\<close> keeps its promise on a store made by \<^verbatim>\<open>NewTrino\<close>: within its 1000
  iterations every row (fields below 128 TiB) fits the statement budget; a row that
  already fits is returned as it is; no string field grows; the partitioning column
  is kept.
\<close>

theorem clampRow_guarantee:
  assumes "NewTrino dsn open cfg = Inr s" and "\<And>f. length (getF f r) < 2 ^ 47"
  shows "estimateRowBytes s (clampRow s r (stmtBudget s)) \<le> stmtBudget s \<and>
    (estimateRowBytes s r \<le> stmtBudget s \<longrightarrow> clampRow s r (stmtBudget s) = r) \<and>
    (\<forall>f. length (getF f (clampRow s r (stmtBudget s))) \<le> length (getF f r)) \<and>
    CreateTime (clampRow s r (stmtBudget s)) = CreateTime r"
  using clampRow_fits [of s r] NewTrino_Inr(1) [OF assms(1)] assms(2) clampRow_id clampRow_shrinks
  by (simp add: length_placeholder)

lemma getF_zeroRow: "getF f zeroRow = ''''"
  by (cases f) (simp_all add: zeroRow_def)

lemma NewTrino_exists: "\<exists>s. NewTrino (\<lambda>_. None) (\<lambda>_. None) cfg = Inr s"
  by (simp add: NewTrino_def)

theorem clampRow_guarantee_witness:
  "\<exists>s. NewTrino (\<lambda>_. None) (\<lambda>_. None)
      (exampleTrino 5000) = Inr s \<and>
    estimateRowBytes s (clampRow s (zeroRow\<lparr>QueryText := replicate 5000 CHR 0x27\<rparr>) (stmtBudget s))
      \<le> stmtBudget s"
proof -
  let ?cfg = "exampleTrino 5000"
  let ?r = "setF FQueryText (replicate 5000 CHR 0x27) zeroRow"
  obtain s where s: "NewTrino (\<lambda>_. None) (\<lambda>_. None) ?cfg = Inr s" using NewTrino_exists by blast
  have "length (getF f ?r) < 2 ^ 47" for f
    by (cases f) (simp_all add: zeroRow_def)
  from clampRow_guarantee [OF s this] s show ?thesis by auto
qed

text \<open>
  C14. Every insert statement that reaches the cluster is within the configured size.
  Let \<open>serial\<close> be the driver's argument serializer, within the bounds \<^verbatim>\<open>chunk.go\<close>
  documents. When the configured size leaves the minimum budget of 4096 bytes next to the
  framing, the \<^verbatim>\<open>EXECUTE IMMEDIATE\<close> text of every chunk of \<^verbatim>\<open>SplitBatch\<close> has at most
  \<^verbatim>\<open>maxStmtBytes\<close> bytes.
\<close>

theorem statement_within_max_size:
  assumes "NewTrino dsn open cfg = Inr s"
    and "\<And>a. int (length (serial a)) + 2 \<le> estimateArgBytes a"
    and "stmtOverhead s + 4096 \<le> maxStmtBytes s"
    and "\<And>r f. r \<in> set rows \<Longrightarrow> length (getF f r) < 2 ^ 47"
    and "c \<in> set (SplitBatch s rows)"
  shows "int (length (wireText serial (insertText s c) (concat (map args c)))) \<le> maxStmtBytes s"
proof -
  have "sizeOf (estimateRowBytes s) c \<le> stmtBudget s"
    using SplitBatch_chunk_fits(1) [OF _ assms(5)] NewTrino_Inr(1) [OF assms(1)] assms(4)
    by (simp add: length_placeholder)
  moreover have "stmtBudget s = maxStmtBytes s - stmtOverhead s"
    using assms(3) by (simp add: stmtBudget_def minStatementBudget_def)
  ultimately show ?thesis using wireText_bound [OF assms(1,2), of c] by simp
qed

text \<open>A serializer within the documented bounds, for the witness.\<close>

fun demoSerial :: "arg \<Rightarrow> string" where
  "demoSerial (AStr v) = quoteLit v"
| "demoSerial (AInt n) = (if length (itoa n) \<le> 20 then itoa n else ''0'')"
| "demoSerial (ATime t) = ''TIMESTAMP '' @ quoteLit ''1970-01-01 00:00:00.000 UTC''"
| "demoSerial ANil = ''NULL''"

lemma demoSerial_bound: "int (length (demoSerial a)) + 2 \<le> estimateArgBytes a"
  by (cases a) (auto simp: quoteLit_def length_double_quote stringArgOverhead_def
      numericArgBytes_def timestampArgBytes_def nullArgBytes_def)

theorem statement_within_max_size_witness:
  "\<exists>s. NewTrino (\<lambda>_. None) (\<lambda>_. None)
      (exampleTrino 0) = Inr s \<and>
    SplitBatch s [zeroRow] = [[zeroRow]] \<and>
    int (length (wireText demoSerial (insertText s [zeroRow]) (concat (map args [zeroRow])))) \<le> 700000"
proof -
  let ?cfg = "exampleTrino 0"
  obtain s where s: "NewTrino (\<lambda>_. None) (\<lambda>_. None) ?cfg = Inr s" using NewTrino_exists by blast
  note facts = NewTrino_Inr [OF s]
  have "stmtOverhead s \<le> 2000"
    using s by (auto simp: NewTrino_def buildStatements_def Let_def executeImmediateOverhead_def
        schemaColumns_def col_def exampleTrino_def quoteIdent_def qualifiedName_def)
  moreover have "estimateRowBytes s zeroRow \<le> stmtBudget s"
    using estimate_empty [of zeroRow s] stmtBudget_min [of s] getF_zeroRow
    by (simp add: facts(1) length_placeholder)
  then have "SplitBatch s [zeroRow] = [[zeroRow]]" by (intro SplitBatch_single) simp_all
  moreover have "int (length (wireText demoSerial (insertText s [zeroRow]) (concat (map args [zeroRow]))))
      \<le> maxStmtBytes s"
    by (rule statement_within_max_size [OF s demoSerial_bound, of "[zeroRow]"])
      (use calculation facts(3) getF_zeroRow in \<open>auto simp: exampleTrino_def\<close>)
  ultimately show ?thesis using s facts(3) by (auto simp: exampleTrino_def)
qed

text \<open>
  Splitting is stable: the chunks \<^verbatim>\<open>SplitBatch\<close> makes are not split or clamped again
  when \<^verbatim>\<open>InsertBatch\<close> splits them, so a chunk of the ingest buffer is one statement.
\<close>

theorem SplitBatch_stable:
  assumes "NewTrino dsn open cfg = Inr s"
    and "\<And>r f. r \<in> set rows \<Longrightarrow> length (getF f r) < 2 ^ 47"
    and "c \<in> set (SplitBatch s rows)"
  shows "SplitBatch s c = [c]"
  using SplitBatch_chunk_fits [OF _ assms(3)] NewTrino_Inr(1) [OF assms(1)] assms(2)
    SplitBatch_nonempty [OF assms(3)]
  by (intro SplitBatch_single) (simp_all add: length_placeholder)

theorem SplitBatch_stable_witness:
  "\<exists>s c. NewTrino (\<lambda>_. None) (\<lambda>_. None)
      (exampleTrino 0) = Inr s \<and>
    c \<in> set (SplitBatch s [zeroRow, zeroRow]) \<and> SplitBatch s c = [c]"
proof -
  let ?cfg = "exampleTrino 0"
  obtain s where s: "NewTrino (\<lambda>_. None) (\<lambda>_. None) ?cfg = Inr s" using NewTrino_exists by blast
  have "SplitBatch s [zeroRow, zeroRow] \<noteq> []" by (simp add: SplitBatch_def Let_def)
  then obtain c where c: "c \<in> set (SplitBatch s [zeroRow, zeroRow])" by (meson list.set_sel(1))
  have "SplitBatch s c = [c]"
    by (rule SplitBatch_stable [OF s _ c]) (auto simp: getF_zeroRow)
  then show ?thesis using s c by blast
qed

text \<open>
  C19. The write contract of the Trino backend: \<^verbatim>\<open>InsertBatch\<close> stores all the rows (each
  clamped) in order or, on an error, a proper prefix of them, and \<^verbatim>\<open>CommittedRows\<close> of the
  error is the length of exactly that prefix.
\<close>

theorem InsertBatch_contract:
  "case InsertBatch exec s w rows of
     (w', None) \<Rightarrow> acked w' = acked w @ map (\<lambda>r. clampRow s r (stmtBudget s)) rows
   | (w', Some e) \<Rightarrow>
       0 \<le> CommittedRows e \<and> nat (CommittedRows e) < length rows \<and>
       acked w' = acked w @ map (\<lambda>r. clampRow s r (stmtBudget s)) (take (nat (CommittedRows e)) rows)"
  using trinoWriter.insert_ok [of exec s w rows] trinoWriter.insert_err [of exec s w rows]
  by (auto split: prod.split option.split)

lemma isNonRetryable_classify:
  "isNonRetryable (classifyInsertErr (ofDriver e)) \<longleftrightarrow>
     asTrino (ofDriver e) = Some ''QUERY_TEXT_TOO_LARGE'' \<or>
     containsS (errText (ofDriver e)) ''exceeds the maximum length''"
  by (simp add: classifyInsertErr_def)

text \<open>
  A failed insert is final exactly for a size rejection: the error of a one-chunk insert
  is non-retryable if the driver's error is \<^verbatim>\<open>QUERY_TEXT_TOO_LARGE\<close> or says that the text
  exceeds the maximum length, and for no other error; the row count and the driver's text
  are kept in its message.
\<close>

theorem insertChunk_error:
  assumes "exec (fst w) (insertText s rows) (concat (map args rows)) = (d, Some e)"
  shows "\<exists>x. insertChunk exec s w rows = ((d, acked w), Some x) \<and>
    (isNonRetryable x \<longleftrightarrow> asTrino (ofDriver e) = Some ''QUERY_TEXT_TOO_LARGE'' \<or>
       containsS (errText (ofDriver e)) ''exceeds the maximum length'') \<and>
    CommittedRows x = 0 \<and>
    hasPrefix (errText x) (''insert '' @ itoa (int (length rows)) @ '' rows: '') \<and>
    containsS (errText x) (errText (ofDriver e))"
proof -
  have "containsS (errText (classifyInsertErr (ofDriver e))) (errText (ofDriver e))"
    using containsS_append [OF containsS_self, of "errText (ofDriver e)" "''non-retryable: ''"]
    by (simp add: classifyInsertErr_def containsS_self)
  then have "containsS (''insert '' @ itoa (int (length rows)) @ '' rows: '' @
      errText (classifyInsertErr (ofDriver e))) (errText (ofDriver e))"
    by (intro containsS_append)
  then show ?thesis
    using assms isNonRetryable_classify [of e]
    by (simp add: insertChunk_def acked_def CommittedRows_none hasPrefix_def)
qed

theorem insertChunk_error_witness:
  "\<exists>x. insertChunk (\<lambda>d t a. (d, Some (DTrino ''QUERY_TEXT_TOO_LARGE'' ''too big'')))
      (undefined\<lparr>insertPrefix := ''I'', rowPlaceholder := ''?''\<rparr>) ((), []) [] = (((), []), Some x) \<and>
    isNonRetryable x"
  using insertChunk_error [of "\<lambda>d t a. (d, Some (DTrino ''QUERY_TEXT_TOO_LARGE'' ''too big''))" "((), [])"
      "undefined\<lparr>insertPrefix := ''I'', rowPlaceholder := ''?''\<rparr>" "[]" "()"
      "DTrino ''QUERY_TEXT_TOO_LARGE'' ''too big''"]
  by (auto simp: acked_def)


end
