(* ===== verification/Sha256.thy ===== *)
theory Sha256
  imports GoStrings
begin

text \<open>
  \<^verbatim>\<open>crypto/sha256\<close> (FIPS 180-4) and \<^verbatim>\<open>encoding/hex\<close>, which the ClickHouse backend uses for its
  deduplication tokens. Words are 32 bits wide and addition wraps.
\<close>

unbundle bit_operations_syntax

type_synonym word32 = "32 word"

definition roundConstants :: "word32 list" where
  "roundConstants =
    [0x428a2f98, 0x71374491, 0xb5c0fbcf, 0xe9b5dba5, 0x3956c25b, 0x59f111f1, 0x923f82a4, 0xab1c5ed5,
     0xd807aa98, 0x12835b01, 0x243185be, 0x550c7dc3, 0x72be5d74, 0x80deb1fe, 0x9bdc06a7, 0xc19bf174,
     0xe49b69c1, 0xefbe4786, 0x0fc19dc6, 0x240ca1cc, 0x2de92c6f, 0x4a7484aa, 0x5cb0a9dc, 0x76f988da,
     0x983e5152, 0xa831c66d, 0xb00327c8, 0xbf597fc7, 0xc6e00bf3, 0xd5a79147, 0x06ca6351, 0x14292967,
     0x27b70a85, 0x2e1b2138, 0x4d2c6dfc, 0x53380d13, 0x650a7354, 0x766a0abb, 0x81c2c92e, 0x92722c85,
     0xa2bfe8a1, 0xa81a664b, 0xc24b8b70, 0xc76c51a3, 0xd192e819, 0xd6990624, 0xf40e3585, 0x106aa070,
     0x19a4c116, 0x1e376c08, 0x2748774c, 0x34b0bcb5, 0x391c0cb3, 0x4ed8aa4a, 0x5b9cca4f, 0x682e6ff3,
     0x748f82ee, 0x78a5636f, 0x84c87814, 0x8cc70208, 0x90befffa, 0xa4506ceb, 0xbef9a3f7, 0xc67178f2]"

definition initialHash :: "word32 list" where
  "initialHash = [0x6a09e667, 0xbb67ae85, 0x3c6ef372, 0xa54ff53a, 0x510e527f, 0x9b05688c, 0x1f83d9ab, 0x5be0cd19]"

definition rotr :: "nat \<Rightarrow> word32 \<Rightarrow> word32" where
  "rotr n x = drop_bit n x OR push_bit (32 - n) x"

definition smallSigma0 :: "word32 \<Rightarrow> word32" where
  "smallSigma0 x = rotr 7 x XOR rotr 18 x XOR drop_bit 3 x"

definition smallSigma1 :: "word32 \<Rightarrow> word32" where
  "smallSigma1 x = rotr 17 x XOR rotr 19 x XOR drop_bit 10 x"

text \<open>The message schedule, kept newest word first.\<close>

fun schedule :: "nat \<Rightarrow> word32 list \<Rightarrow> word32 list" where
  "schedule 0 ws = ws"
| "schedule (Suc n) ws =
     schedule n ((smallSigma1 (ws ! 1) + ws ! 6 + smallSigma0 (ws ! 14) + ws ! 15) # ws)"

definition compressStep :: "word32 list \<Rightarrow> word32 \<times> word32 \<Rightarrow> word32 list" where
  "compressStep h kw =
     (case h of
        [a, b, c, d, e, f, g, i] \<Rightarrow>
          (let s1 = rotr 6 e XOR rotr 11 e XOR rotr 25 e;
               ch = (e AND f) XOR (NOT e AND g);
               t1 = i + s1 + ch + fst kw + snd kw;
               s0 = rotr 2 a XOR rotr 13 a XOR rotr 22 a;
               maj = (a AND b) XOR (a AND c) XOR (b AND c)
           in [t1 + (s0 + maj), a, b, c, d + t1, e, f, g])
      | _ \<Rightarrow> h)"

definition compress :: "word32 list \<Rightarrow> word32 list \<Rightarrow> word32 list" where
  "compress h block =
     (let ws = rev (schedule 48 (rev block))
      in map2 (+) h (foldl compressStep h (zip roundConstants ws)))"

text \<open>Four bytes make a word, most significant first.\<close>

fun toWords :: "nat list \<Rightarrow> word32 list" where
  "toWords (a # b # c # d # bs) = of_nat (((a * 256 + b) * 256 + c) * 256 + d) # toWords bs"
| "toWords _ = []"

definition bigEndian :: "nat \<Rightarrow> nat \<Rightarrow> nat list" where
  "bigEndian k n = map (\<lambda>i. n div 256 ^ (k - 1 - i) mod 256) [0..<k]"

definition padMessage :: "nat list \<Rightarrow> nat list" where
  "padMessage m =
     (let l = length m in m @ [128] @ replicate ((119 - l mod 64) mod 64) 0 @ bigEndian 8 (8 * l))"

fun blocks :: "nat \<Rightarrow> word32 list \<Rightarrow> word32 list list" where
  "blocks 0 ws = []"
| "blocks (Suc n) ws = take 16 ws # blocks n (drop 16 ws)"

definition sha256 :: "string \<Rightarrow> nat list" where
  "sha256 s =
     (let p = padMessage (map byteVal s)
      in concat (map (\<lambda>w. bigEndian 4 (unat w))
           (foldl compress initialHash (blocks (length p div 64) (toWords p)))))"

definition hexEncode :: "nat list \<Rightarrow> string" where
  "hexEncode bs = concat (map (\<lambda>b. [hexLower (b div 16), hexLower (b mod 16)]) bs)"

lemma length_compressStep: "length (compressStep h kw) = length h"
  by (auto simp: compressStep_def Let_def split: list.split)

lemma length_foldl_compressStep: "length (foldl compressStep h kws) = length h"
  by (induction kws arbitrary: h) (simp_all add: length_compressStep)

lemma length_compress: "length (compress h b) = length h"
  by (simp add: compress_def Let_def length_foldl_compressStep)

lemma length_foldl_compress: "length (foldl compress h bs) = length h"
  by (induction bs arbitrary: h) (simp_all add: length_compress)

lemma length_sha256: "length (sha256 s) = 32"
proof -
  have "length (concat (map (\<lambda>w. bigEndian 4 (unat w)) ws)) = 4 * length ws" for ws :: "word32 list"
    by (induction ws) (simp_all add: bigEndian_def)
  then show ?thesis by (simp add: sha256_def Let_def length_foldl_compress initialHash_def)
qed

lemma length_hexEncode: "length (hexEncode bs) = 2 * length bs"
  by (induction bs) (simp_all add: hexEncode_def)

lemma sha256_bytes: "list_all (\<lambda>b. b < 256) (sha256 s)"
  by (auto simp: sha256_def Let_def bigEndian_def list_all_iff)

lemma hexEncode_inject:
  "list_all (\<lambda>b. b < 256) xs \<Longrightarrow> list_all (\<lambda>b. b < 256) ys \<Longrightarrow> hexEncode xs = hexEncode ys \<longleftrightarrow> xs = ys"
proof (induction xs arbitrary: ys)
  case Nil
  then show ?case by (cases ys) (simp_all add: hexEncode_def)
next
  case (Cons x xs)
  show ?case
  proof (cases ys)
    case (Cons y ys')
    have "x = y \<longleftrightarrow> x div 16 = y div 16 \<and> x mod 16 = y mod 16" by (metis div_mult_mod_eq)
    then show ?thesis
      using Cons Cons.prems Cons.IH [of ys'] by (auto simp: hexEncode_def hexLower_inject)
  qed (simp add: hexEncode_def)
qed

end
