(* ===== verification/ClickHouse.thy ===== *)
theory ClickHouse
  imports TrinoStore GoFloat Sha256 "HOL-Library.List_Lexorder" "HOL-Library.Char_ord" "HOL-Library.Multiset"
begin

text \<open>
  The ClickHouse backend, construction and write path (\<^verbatim>\<open>store/clickhouse.go\<close>): the statements,
  connection options, the table's DDL, the chunked insert with its deduplication token,
  and error classification. The connection is the record \<open>chConn\<close> of parameters.
\<close>

section \<open>Store and connection\<close>

record ClickHouseStore =
  cs_cfg :: ClickHouseCfg
  cs_table :: string
  cs_insertStmt :: string
  cs_summarySelect :: string
  cs_rowSelect :: string
  cs_maxBatchBytes :: int

text \<open>
  The interface \<^verbatim>\<open>chConn\<close> over a state of the connection. \<^verbatim>\<open>PrepareBatch\<close> is given the statement and
  the insert's deduplication token; \<^verbatim>\<open>Query\<close> the statement and the query parameters.
\<close>

record 'w chConn =
  chExec :: "'w \<Rightarrow> string \<Rightarrow> 'w \<times> driver_err option"
  chQuery :: "'w \<Rightarrow> string \<Rightarrow> (string \<times> string) list \<Rightarrow>
    'w \<times> (driver_err + arg list list \<times> driver_err option)"
  prepareBatch :: "'w \<Rightarrow> string \<Rightarrow> string \<Rightarrow> 'w \<times> driver_err option"
  batchAppend :: "'w \<Rightarrow> arg list \<Rightarrow> 'w \<times> driver_err option"
  batchAbort :: "'w \<Rightarrow> 'w"
  batchSend :: "'w \<Rightarrow> 'w \<times> driver_err option"

definition clickhouseDefaultBatch :: int where "clickhouseDefaultBatch = 8 * 1048576"

definition clickhouseVersionColumn :: string where "clickhouseVersionColumn = ''ingested_at''"

definition clickhouseTimestampType :: string where
  "clickhouseTimestampType = ''DateTime64(6, '' @ [CHR 0x27] @ ''UTC'' @ [CHR 0x27] @ '')''"

definition newClickHouseStore :: "ClickHouseCfg \<Rightarrow> ClickHouseStore" where
  "newClickHouseStore cfg =
     (let table = quoteIdent (ch_Database cfg) @ ''.'' @ quoteIdent (ch_Table cfg);
          cols = joinS (map (\<lambda>c. quoteIdent (name c)) schemaColumns) '', '';
          summary = joinS (map quoteIdent summaryColumns) '', ''
      in \<lparr>cs_cfg = cfg, cs_table = table,
          cs_insertStmt = ''INSERT INTO '' @ table @ '' ('' @ cols @ '')'',
          cs_summarySelect = ''SELECT '' @ summary @ '' FROM '' @ table @ '' FINAL'',
          cs_rowSelect = ''SELECT '' @ cols @ '' FROM '' @ table @ '' FINAL'',
          cs_maxBatchBytes = (if ch_MaxBatchBytes cfg \<le> 0 then clickhouseDefaultBatch else ch_MaxBatchBytes cfg)\<rparr>)"

section \<open>Connection options\<close>

text \<open>\<^verbatim>\<open>int(d.Seconds())\<close>: whole seconds and the fraction are added as doubles, then truncated.\<close>

definition secondsInt :: "duration \<Rightarrow> int" where
  "secondsInt d =
     (let n = nat \<bar>d\<bar>;
          s = int (ftrunc (fadd (fl (n div 1000000000) 1) (fdiv (fl (n mod 1000000000) 1) (1000000000, 1))))
      in if d < 0 then - s else s)"

record tlsConfig =
  tls_MinVersion :: string
  tls_ServerName :: string
  tls_InsecureSkipVerify :: bool
  tls_RootCAs :: "string option"

record chOptions =
  o_Addr :: "string list"
  o_Username :: string
  o_Password :: string
  o_DialTimeout :: duration
  o_ReadTimeout :: duration
  o_MaxOpenConns :: int
  o_MaxIdleConns :: int
  o_MaxCompressionBuffer :: int
  o_maxExecutionTime :: int
  o_maxResultRows :: int
  o_TLS :: "tlsConfig option"

text \<open>
  \<open>readFile\<close> is \<^verbatim>\<open>os.ReadFile\<close>, \<open>hasCerts\<close> whether \<^verbatim>\<open>AppendCertsFromPEM\<close> finds a certificate,
  \<open>addrErr\<close> the error \<^verbatim>\<open>net.SplitHostPort\<close> gives for an address it cannot split.
\<close>

definition clickhouseTLS :: "(string \<Rightarrow> err) \<Rightarrow> (string \<Rightarrow> err + string) \<Rightarrow> (string \<Rightarrow> bool) \<Rightarrow> ClickHouseCfg \<Rightarrow> err + tlsConfig" where
  "clickhouseTLS addrErr readFile hasCerts cfg =
     (case SplitHostPort (ch_Addr cfg) of
        None \<Rightarrow> Inl (Wrap ''clickhouse addr'' (addrErr (ch_Addr cfg)))
      | Some (host, port) \<Rightarrow>
          (let base = \<lparr>tls_MinVersion = ''TLS12'', tls_ServerName = host,
                 tls_InsecureSkipVerify = ch_TLSInsecure cfg, tls_RootCAs = None\<rparr>
           in if ch_TLSCA cfg \<noteq> '''' then
                (case readFile (ch_TLSCA cfg) of
                   Inl e \<Rightarrow> Inl (Wrap ''read CLICKHOUSE_TLS_CA'' e)
                 | Inr pem \<Rightarrow>
                     if hasCerts pem then Inr (base\<lparr>tls_RootCAs := Some pem\<rparr>)
                     else Inl (EOther ''CLICKHOUSE_TLS_CA: no certificates found''))
              else Inr base))"

definition clickhouseOptions :: "(string \<Rightarrow> err) \<Rightarrow> (string \<Rightarrow> err + string) \<Rightarrow> (string \<Rightarrow> bool) \<Rightarrow> ClickHouseCfg \<Rightarrow> err + chOptions" where
  "clickhouseOptions addrErr readFile hasCerts cfg =
     (let opts = \<lparr>o_Addr = [ch_Addr cfg], o_Username = ch_User cfg, o_Password = ch_Password cfg,
            o_DialTimeout = ch_DialTimeout cfg, o_ReadTimeout = ch_QueryTimeout cfg, o_MaxOpenConns = 4,
            o_MaxIdleConns = 2, o_MaxCompressionBuffer = 4 * 1048576,
            o_maxExecutionTime = max (secondsInt (ch_QueryTimeout cfg)) 1, o_maxResultRows = 10000, o_TLS = None\<rparr>
      in if ch_TLS cfg then
           (case clickhouseTLS addrErr readFile hasCerts cfg of
              Inl e \<Rightarrow> Inl e | Inr tc \<Rightarrow> Inr (opts\<lparr>o_TLS := Some tc\<rparr>))
         else Inr opts)"

definition NewClickHouse :: "(string \<Rightarrow> err) \<Rightarrow> (string \<Rightarrow> err + string) \<Rightarrow> (string \<Rightarrow> bool) \<Rightarrow> (chOptions \<Rightarrow> err option) \<Rightarrow>
    ClickHouseCfg \<Rightarrow> err + ClickHouseStore" where
  "NewClickHouse addrErr readFile hasCerts open cfg =
     (case clickhouseOptions addrErr readFile hasCerts cfg of
        Inl e \<Rightarrow> Inl e
      | Inr opts \<Rightarrow>
          (case open opts of Some e \<Rightarrow> Inl (Wrap ''open clickhouse'' e) | None \<Rightarrow> Inr (newClickHouseStore cfg)))"

section \<open>DDL\<close>

definition clickhouseNullable :: "string set" where
  "clickhouseNullable = {''execution_start_time'', ''end_time''}"

definition clickhouseLowCardinality :: "string set" where
  "clickhouseLowCardinality =
     {''query_state'', ''query_type'', ''update_type'', ''error_code'', ''error_type'', ''catalog'',
      ''schema_name'', ''resource_group'', ''server_version'', ''environment'', ''user_name''}"

definition clickhouseCodecs :: "string \<rightharpoonup> string" where
  "clickhouseCodecs = map_of
     [(''query_text'', ''ZSTD(3)''), (''error_message'', ''ZSTD(3)''), (''inputs_json'', ''ZSTD(3)''),
      (''plan'', ''ZSTD(6)''), (''json_plan'', ''ZSTD(6)'')]"

definition clickhouseType :: "column \<Rightarrow> string" where
  "clickhouseType c =
     (let t = (if hasPrefix (sqlType c) ''timestamp'' then clickhouseTimestampType
               else if sqlType c = ''bigint'' then ''Int64'' else ''String'')
      in if name c \<in> clickhouseNullable then ''Nullable('' @ t @ '')''
         else if name c \<in> clickhouseLowCardinality then ''LowCardinality('' @ t @ '')'' else t)"

definition clickhouseColumnDDL :: "column \<Rightarrow> string" where
  "clickhouseColumnDDL c =
     quoteIdent (name c) @ '' '' @ clickhouseType c @
     (case clickhouseCodecs (name c) of Some codec \<Rightarrow> '' CODEC('' @ codec @ '')'' | None \<Rightarrow> '''')"

definition DatabaseDDL :: "ClickHouseStore \<Rightarrow> string" where
  "DatabaseDDL s = ''CREATE DATABASE IF NOT EXISTS '' @ quoteIdent (ch_Database (cs_cfg s))"

definition chTableDDL :: "ClickHouseStore \<Rightarrow> string" where
  "chTableDDL s =
     (let lf = [CHR 0x0A];
          lines = map (\<lambda>c. ''  '' @ clickhouseColumnDDL c) schemaColumns @
            [''  '' @ quoteIdent clickhouseVersionColumn @ '' '' @ clickhouseTimestampType @ '' DEFAULT now64(6)'',
             ''  INDEX qid_bf '' @ quoteIdent ''query_id'' @ '' TYPE bloom_filter(0.01) GRANULARITY 1'']
      in ''CREATE TABLE IF NOT EXISTS '' @ cs_table s @ '' ('' @ lf @ joinS lines ('','' @ lf) @ lf @ '')'' @
         lf @ ''ENGINE = ReplacingMergeTree('' @ quoteIdent clickhouseVersionColumn @ '')'' @
         lf @ ''PARTITION BY toDate('' @ quoteIdent ''create_time'' @ '')'' @
         lf @ ''ORDER BY ('' @ quoteIdent ''create_time'' @ '', '' @ quoteIdent ''query_id'' @ '')'' @
         lf @ ''SETTINGS non_replicated_deduplication_window = '' @ itoa 1000)"

definition chDDLScript :: "ClickHouseStore \<Rightarrow> string" where
  "chDDLScript s = DatabaseDDL s @ '';'' @ [CHR 0x0A, CHR 0x0A] @ chTableDDL s @ '';'' @ [CHR 0x0A]"

definition chStep :: "'w chConn \<Rightarrow> 'w \<Rightarrow> string \<Rightarrow> string \<Rightarrow> 'w \<times> err option" where
  "chStep conn w stmt what =
     (case chExec conn w stmt of (w, Some e) \<Rightarrow> (w, Some (Wrap what (ofDriver e))) | (w, None) \<Rightarrow> (w, None))"

definition chInit :: "'w chConn \<Rightarrow> ClickHouseStore \<Rightarrow> 'w \<Rightarrow> 'w \<times> err option" where
  "chInit conn s w =
     (case chStep conn w (DatabaseDDL s) ''create database'' of
        (w, Some e) \<Rightarrow> (w, Some e)
      | (w, None) \<Rightarrow> chStep conn w (chTableDDL s) ''create table'')"

section \<open>Deduplication token\<close>

text \<open>
  \<^verbatim>\<open>hashArg\<close>: what each argument adds to the hashed text. \<^verbatim>\<open>UnixNano\<close> is a 64-bit number.
\<close>

fun hashArg :: "arg \<Rightarrow> string" where
  "hashArg (AStr v) = ''s'' @ natDec (length v) @ '':'' @ v @ '';''"
| "hashArg (AInt n) = ''i'' @ itoa n @ '';''"
| "hashArg (ATime t) = ''t'' @ itoa (i64 t) @ '';''"
| "hashArg ANil = ''n;''"

definition tokenInput :: "Row list \<Rightarrow> string" where
  "tokenInput rows = concat (map (\<lambda>r. concat (map hashArg (args r))) (sort_key QueryID rows))"

definition batchToken :: "Row list \<Rightarrow> string" where
  "batchToken rows = hexEncode (sha256 (tokenInput rows))"

section \<open>Inserting\<close>

definition clickhouseNonRetryableCodes :: "int set" where
  "clickhouseNonRetryableCodes = {16, 53, 60, 62, 81, 497, 516}"

definition classifyClickHouseErr :: "err \<Rightarrow> err" where
  "classifyClickHouseErr e =
     (case asClickHouse e of
        Some code \<Rightarrow> if code \<in> clickhouseNonRetryableCodes then Wrap2 ErrNonRetryable e else e
      | None \<Rightarrow> e)"

definition clickhouseRowBytes :: "Row \<Rightarrow> int" where
  "clickhouseRowBytes r = sum_list (map estimateArgBytes (args r))"

definition chSplitBatch :: "ClickHouseStore \<Rightarrow> Row list \<Rightarrow> Row list list" where
  "chSplitBatch s rows = chunkRows rows (cs_maxBatchBytes s) clickhouseRowBytes"

fun appendAll :: "'w chConn \<Rightarrow> 'w \<Rightarrow> Row list \<Rightarrow> 'w \<times> (Row \<times> driver_err) option" where
  "appendAll conn w [] = (w, None)"
| "appendAll conn w (r # rows) =
     (case batchAppend conn w (args r) of
        (w, Some e) \<Rightarrow> (batchAbort conn w, Some (r, e))
      | (w, None) \<Rightarrow> appendAll conn w rows)"

definition chInsertChunk :: "'w chConn \<Rightarrow> ClickHouseStore \<Rightarrow> 'w handle \<Rightarrow> Row list \<Rightarrow> 'w handle \<times> err option" where
  "chInsertChunk conn s w rows =
     (case prepareBatch conn (fst w) (cs_insertStmt s) (batchToken rows) of
        (d, Some e) \<Rightarrow> ((d, snd w), Some (Wrap ''prepare insert'' (classifyClickHouseErr (ofDriver e))))
      | (d, None) \<Rightarrow>
          (case appendAll conn d rows of
             (d, Some (r, e)) \<Rightarrow>
               ((d, snd w), Some (Wrap (''append row '' @ QueryID r) (classifyClickHouseErr (ofDriver e))))
           | (d, None) \<Rightarrow>
               (case batchSend conn d of
                  (d, Some e) \<Rightarrow>
                    ((d, snd w), Some (Wrap (''insert '' @ itoa (int (length rows)) @ '' rows'')
                       (classifyClickHouseErr (ofDriver e))))
                | (d, None) \<Rightarrow> ((d, snd w @ rows), None))))"

definition chInsertBatch :: "'w chConn \<Rightarrow> ClickHouseStore \<Rightarrow> 'w handle \<Rightarrow> Row list \<Rightarrow> 'w handle \<times> err option" where
  "chInsertBatch conn s w rows = insertLoop (chInsertChunk conn s) w (chSplitBatch s rows) 0"

section \<open>The write contract\<close>

lemma classifyClickHouseErr_asPartial [simp]: "asPartial (classifyClickHouseErr (ofDriver e)) = None"
  by (simp add: classifyClickHouseErr_def split: option.split)

interpretation clickhouse: chunk_store "chSplitBatch s" "\<lambda>r. r" "chInsertChunk conn s" acked
    for s and conn :: "'w chConn"
proof
  show "concat (chSplitBatch s rows) = map (\<lambda>r. r) rows" for rows
    by (simp add: chSplitBatch_def concat_chunkRows)
  show "c \<in> set (chSplitBatch s rows) \<Longrightarrow> c \<noteq> []" for c rows
    unfolding chSplitBatch_def by (rule chunkRows_nonempty)
qed (auto simp: chInsertChunk_def acked_def split: prod.splits option.splits)

lemma chInsertBatch_writer: "batch_writer (chInsertBatch conn s) acked (\<lambda>r. r)"
  unfolding chInsertBatch_def by (rule clickhouse.writer.batch_writer_axioms)

interpretation clickhouseWriter: batch_writer "chInsertBatch conn s" acked "\<lambda>r. r"
    for conn :: "'w chConn" and s
  by (rule chInsertBatch_writer)

section \<open>The token's input is a uniquely readable code\<close>

text \<open>Arguments whose instants fit \<^verbatim>\<open>UnixNano\<close>: the years 1678 to 2262.\<close>

fun argInRange :: "arg \<Rightarrow> bool" where
  "argInRange (ATime t) = (- (2 ^ 63) \<le> t \<and> t < 2 ^ 63)"
| "argInRange _ = True"

lemma hashArg_prefix_free:
  assumes "argInRange a" and "argInRange b" and "hashArg a @ x = hashArg b @ y"
  shows "a = b \<and> x = y"
proof (cases a; cases b)
  fix s t assume ab: "a = AStr s" "b = AStr t"
  then have "natDec (length s) @ CHR '':'' # (s @ '';'' @ x) = natDec (length t) @ CHR '':'' # (t @ '';'' @ y)"
    using assms(3) by simp
  from split_at_stop [OF natDec_free natDec_free this] have "length s = length t" "s @ '';'' @ x = t @ '';'' @ y"
    by simp_all
  then show ?thesis using ab by simp
next
  fix m n assume ab: "a = AInt m" "b = AInt n"
  then have "itoa m @ CHR '';'' # x = itoa n @ CHR '';'' # y" using assms(3) by simp
  from split_at_stop [OF itoa_free itoa_free this] show ?thesis using ab by (simp add: itoa_inject)
next
  fix s t assume ab: "a = ATime s" "b = ATime t"
  then have "itoa (i64 s) @ CHR '';'' # x = itoa (i64 t) @ CHR '';'' # y" using assms(3) by simp
  from split_at_stop [OF itoa_free itoa_free this] have "i64 s = i64 t" "x = y" by (simp_all add: itoa_inject)
  moreover have "i64 s = s" "i64 t = t" using ab assms(1,2) by (auto intro: i64_id)
  ultimately show ?thesis using ab by metis
qed (use assms(3) in simp_all)

lemma hashArg_nonempty: "hashArg a \<noteq> []"
  by (cases a) simp_all

lemma concat_hashArg_inject:
  "list_all argInRange as \<Longrightarrow> list_all argInRange bs \<Longrightarrow>
   concat (map hashArg as) = concat (map hashArg bs) \<Longrightarrow> as = bs"
proof (induction as arbitrary: bs)
  case Nil
  show ?case
  proof (cases bs)
    case (Cons b bs')
    then show ?thesis using Nil.prems(3) hashArg_nonempty [of b] by simp
  qed simp
next
  case (Cons a as)
  show ?case
  proof (cases bs)
    case Nil
    then show ?thesis using Cons.prems(3) hashArg_nonempty [of a] by simp
  next
    case bs: (Cons b bs')
    then have "hashArg a @ concat (map hashArg as) = hashArg b @ concat (map hashArg bs')"
      and r: "argInRange a" "argInRange b" "list_all argInRange as" "list_all argInRange bs'"
      using Cons.prems by simp_all
    from hashArg_prefix_free [OF r(1,2) this(1)] Cons.IH [OF r(3,4)] bs show ?thesis by simp
  qed
qed

lemma args_inject: "args r = args r' \<longleftrightarrow> r = r'"
  using scanRow_roundtrip by (metis option.inject)

lemma concat_args_inject: "concat (map args rs) = concat (map args rs') \<Longrightarrow> rs = rs'"
proof (induction rs arbitrary: rs')
  case Nil
  then show ?case by (cases rs') (auto simp: args_def)
next
  case (Cons r rs)
  then obtain r' rs'' where "rs' = r' # rs''" by (cases rs') (auto simp: args_def)
  moreover from this Cons.prems have "args r = args r'" "concat (map args rs) = concat (map args rs'')"
    by (simp_all add: append_eq_append_conv)
  ultimately show ?case using Cons.IH args_inject by auto
qed

lemma concat_map_concat: "concat (map (\<lambda>x. concat (map h (g x))) xs) = concat (map h (concat (map g xs)))"
  by (induction xs) simp_all

lemma tokenInput_code: "tokenInput rows = concat (map hashArg (concat (map args (sort_key QueryID rows))))"
  unfolding tokenInput_def by (rule concat_map_concat)

lemma sort_key_distinct_perm:
  assumes "mset rows = mset rows'" and "distinct (map QueryID rows)"
  shows "sort_key QueryID rows = sort_key QueryID rows'"
proof (rule sort_key_inj_key_eq)
  show "mset rows = mset (sort_key QueryID rows')" using assms(1) by simp
  show "inj_on QueryID (set rows)" using assms(2) by (simp add: distinct_map)
qed simp

text \<open>Cutting a batch at a chunk boundary leaves the remaining chunks as they were.\<close>

lemma chunkRows_drop:
  "chunkRows (concat (drop k (chunkRows rows b est))) b est = drop k (chunkRows rows b est)"
proof (induction k arbitrary: rows)
  case 0
  then show ?case by (simp add: concat_chunkRows)
next
  case (Suc k)
  show ?case
  proof (cases rows)
    case (Cons r rs)
    then show ?thesis using Suc [of "drop (fitLen b est (est r) rs) rs"] by (simp add: chunkRows_Cons Let_def)
  qed simp
qed

section \<open>Properties\<close>

text \<open>
  C16. The deduplication token identifies the batch: it has 64 hexadecimal digits and does
  not depend on the order of rows with distinct ids; and the hashed text is an
  unambiguous code, so two batches with the same text hold the same rows. Two
  different batches can share a token only by a collision of SHA-256.
\<close>

theorem batchToken_identifies_batch:
  assumes "list_all (\<lambda>r. list_all argInRange (args r)) (rows @ rows')"
  shows "length (batchToken rows) = 64 \<and>
    (distinct (map QueryID rows) \<longrightarrow> mset rows = mset rows' \<longrightarrow> batchToken rows = batchToken rows') \<and>
    (tokenInput rows = tokenInput rows' \<longrightarrow> mset rows = mset rows')"
proof -
  have "mset rows = mset rows'" if eq: "tokenInput rows = tokenInput rows'"
  proof -
    have "concat (map args (sort_key QueryID rows)) = concat (map args (sort_key QueryID rows'))"
      using eq assms unfolding tokenInput_code
      by (intro concat_hashArg_inject) (auto simp: list_all_iff)
    then have "sort_key QueryID rows = sort_key QueryID rows'" by (rule concat_args_inject)
    then show ?thesis by (metis mset_sort)
  qed
  moreover have "batchToken rows = batchToken rows'" if "distinct (map QueryID rows)" "mset rows = mset rows'"
    using sort_key_distinct_perm [OF that(2,1)] by (simp add: batchToken_def tokenInput_def)
  ultimately show ?thesis by (auto simp: batchToken_def length_hexEncode length_sha256)
qed

theorem batchToken_identifies_batch_witness:
  "batchToken [zeroRow\<lparr>QueryID := ''b'', CreateTime := 0\<rparr>, zeroRow\<lparr>QueryID := ''a'', CreateTime := 0\<rparr>] =
   batchToken [zeroRow\<lparr>QueryID := ''a'', CreateTime := 0\<rparr>, zeroRow\<lparr>QueryID := ''b'', CreateTime := 0\<rparr>]"
  using batchToken_identifies_batch
    [of "[zeroRow\<lparr>QueryID := ''b'', CreateTime := 0\<rparr>, zeroRow\<lparr>QueryID := ''a'', CreateTime := 0\<rparr>]"
        "[zeroRow\<lparr>QueryID := ''a'', CreateTime := 0\<rparr>, zeroRow\<lparr>QueryID := ''b'', CreateTime := 0\<rparr>]"]
  by (simp add: args_def timeArg_def zeroRow_def)

text \<open>
  C17. A retry is recognised: after the first \<open>k\<close> chunks of a batch are committed, the
  retried remainder is split into exactly the remaining chunks, with the tokens they had
  in the first attempt; so a chunk the server stored without the client learning of it
  is sent again under its old token.
\<close>

theorem retry_keeps_tokens:
  "chSplitBatch s (drop (length (concat (take k (chSplitBatch s rows)))) rows) = drop k (chSplitBatch s rows) \<and>
   map batchToken (chSplitBatch s (drop (length (concat (take k (chSplitBatch s rows)))) rows)) =
     drop k (map batchToken (chSplitBatch s rows))"
proof -
  let ?cs = "chSplitBatch s rows"
  have "rows = concat (take k ?cs) @ concat (drop k ?cs)"
    by (metis append_take_drop_id chSplitBatch_def concat_append concat_chunkRows)
  then have "drop (length (concat (take k ?cs))) rows = concat (drop k ?cs)"
    by (metis append_eq_conv_conj)
  then have "chSplitBatch s (drop (length (concat (take k ?cs))) rows) = drop k ?cs"
    by (simp add: chSplitBatch_def chunkRows_drop)
  then show ?thesis by (simp add: drop_map)
qed

text \<open>
  C18. The write contract of the ClickHouse backend: \<^verbatim>\<open>InsertBatch\<close> stores all rows in order
  or, on an error, a proper prefix of them whose length is \<^verbatim>\<open>CommittedRows\<close> of the error; and
  chunks are within the configured size or single rows.
\<close>

theorem chInsertBatch_contract:
  "(case chInsertBatch conn s w rows of
      (w', None) \<Rightarrow> acked w' = acked w @ rows
    | (w', Some e) \<Rightarrow>
        0 \<le> CommittedRows e \<and> nat (CommittedRows e) < length rows \<and>
        acked w' = acked w @ take (nat (CommittedRows e)) rows) \<and>
   list_all (\<lambda>c. sizeOf clickhouseRowBytes c \<le> cs_maxBatchBytes s \<or> length c = 1) (chSplitBatch s rows)"
proof -
  have "list_all (\<lambda>c. sizeOf clickhouseRowBytes c \<le> cs_maxBatchBytes s \<or> length c = 1) (chSplitBatch s rows)"
    using chunkRows_within [of _ rows "cs_maxBatchBytes s" clickhouseRowBytes]
    by (fastforce simp: list_all_iff chSplitBatch_def)
  then show ?thesis
    using clickhouseWriter.insert_ok [of conn s w rows] clickhouseWriter.insert_err [of conn s w rows]
    by (auto split: prod.split option.split)
qed

text \<open>
  An insert error of ClickHouse is final exactly for the server's codes of a missing
  column, type mismatch, unknown table, syntax error, unknown database, denied access and
  failed login: a failing \<^verbatim>\<open>Send\<close> with any other error is retried.
\<close>

theorem clickhouse_send_error:
  assumes "prepareBatch conn (fst w) (cs_insertStmt s) (batchToken rows) = (d, None)"
    and "appendAll conn d rows = (d', None)" and "batchSend conn d' = (d'', Some e)"
  shows "\<exists>x. chInsertChunk conn s w rows = ((d'', acked w), Some x) \<and> CommittedRows x = 0 \<and>
    (isNonRetryable x \<longleftrightarrow> (\<exists>code t. e = DClickHouse code t \<and> code \<in> {16, 53, 60, 62, 81, 497, 516}))"
  using assms
  by (cases e) (auto simp: chInsertChunk_def acked_def CommittedRows_def classifyClickHouseErr_def
      clickhouseNonRetryableCodes_def)

definition exampleConn :: "unit chConn" where
  "exampleConn = \<lparr>chExec = \<lambda>w q. (w, None), chQuery = \<lambda>w q p. (w, Inr ([], None)),
     prepareBatch = \<lambda>w q t. (w, None), batchAppend = \<lambda>w as. (w, None), batchAbort = \<lambda>w. w,
     batchSend = \<lambda>w. (w, Some (DClickHouse 60 ''no table''))\<rparr>"

theorem clickhouse_send_error_witness:
  "\<exists>s x. chInsertChunk exampleConn s ((), []) [zeroRow] = (((), []), Some x) \<and> isNonRetryable x"
proof -
  have "\<exists>x. chInsertChunk exampleConn s ((), []) [zeroRow] = (((), acked ((), [])), Some x) \<and> CommittedRows x = 0 \<and>
      (isNonRetryable x \<longleftrightarrow> (\<exists>code t. DClickHouse 60 ''no table'' = DClickHouse code t \<and> code \<in> {16, 53, 60, 62, 81, 497, 516}))"
    for s
    by (rule clickhouse_send_error) (simp_all add: exampleConn_def)
  then show ?thesis by (simp add: acked_def) blast
qed


end
