(* ===== verification/GoTime.thy ===== *)
theory GoTime
  imports Event
begin

text \<open>
  What the program uses of Go's \<^verbatim>\<open>time\<close> package in UTC: the proleptic Gregorian
  calendar, \<^verbatim>\<open>time.Date\<close>, \<^verbatim>\<open>AddDate(0, 0, n)\<close>, the layouts it formats with and the layout
  \<^verbatim>\<open>20060102\<close> it also parses. Years are counted from March inside the calendar, so
  that the leap day is the last day of its year.
\<close>

section \<open>The calendar\<close>

definition dayNs :: int where "dayNs = 86400 * 1000000000"

text \<open>The day number (from 1970-01-01) of an instant.\<close>

definition dayOf :: "time \<Rightarrow> int" where "dayOf t = t div dayNs"

text \<open>Days before the March year \<open>y\<close>, counted from March 1 of year 0.\<close>

definition yearDays :: "int \<Rightarrow> int" where
  "yearDays y = 365 * y + y div 4 - y div 100 + y div 400"

definition marchYear :: "int \<Rightarrow> int" where
  "marchYear z =
     (let y = (400 * z) div 146097
      in if yearDays (y + 1) \<le> z then y + 1 else if z < yearDays y then y - 1 else y)"

text \<open>First day of the months March, April, and so on to February within a March year.\<close>

definition monthStart :: "int \<Rightarrow> int" where "monthStart m = (153 * m + 2) div 5"

definition monthOf :: "int \<Rightarrow> int" where "monthOf d = (5 * d + 2) div 153"

text \<open>Year, month and day of a day number, and back. 719468 is the day number of 0000-03-01.\<close>

definition civil :: "int \<Rightarrow> int \<times> int \<times> int" where
  "civil n =
     (let z = n + 719468; y = marchYear z; d = z - yearDays y; m = monthOf d
      in (if m < 10 then y else y + 1, if m < 10 then m + 3 else m - 9, d - monthStart m + 1))"

definition daysFromCivil :: "int \<Rightarrow> int \<Rightarrow> int \<Rightarrow> int" where
  "daysFromCivil y m d =
     (let y' = (if m \<le> 2 then y - 1 else y); m' = (if m \<le> 2 then m + 9 else m - 3)
      in yearDays y' + monthStart m' + d - 1 - 719468)"

definition isLeap :: "int \<Rightarrow> bool" where
  "isLeap y = (y mod 4 = 0 \<and> (y mod 100 \<noteq> 0 \<or> y mod 400 = 0))"

definition daysIn :: "int \<Rightarrow> int \<Rightarrow> int" where
  "daysIn m y = (if m = 2 then if isLeap y then 29 else 28 else if m \<in> {4, 6, 9, 11} then 30 else 31)"

section \<open>Year lengths\<close>

lemma div_bounds: "0 < k \<Longrightarrow> k * (x div k) \<le> x \<and> x < k * (x div k) + (k::int)"
proof -
  assume "0 < k"
  then have "k * (x div k) + x mod k = x" "0 \<le> x mod k" "x mod k < k" by simp_all
  then show ?thesis by linarith
qed

lemma div_unique_bounds: "0 < k \<Longrightarrow> k * q \<le> x \<Longrightarrow> x < k * q + (k::int) \<Longrightarrow> x div k = q"
  by (rule int_div_pos_eq [of x k q "x - k * q"]) simp_all

lemma quotients_approx:
  "y = 4 * a + r \<Longrightarrow> y = 100 * b + s \<Longrightarrow> y = 400 * c + u \<Longrightarrow>
   400 * (365 * y + a - b + c) = 146097 * y - 100 * r + 4 * s - (u::int)"
  by simp

lemma yearDays_approx:
  "400 * yearDays y = 146097 * y - 100 * (y mod 4) + 4 * (y mod 100) - y mod 400"
  unfolding yearDays_def by (rule quotients_approx) simp_all

lemma yearDays_bounds:
  "146097 * y - 699 \<le> 400 * yearDays y" "400 * yearDays y \<le> 146097 * y + 396"
proof -
  have "0 \<le> y mod 4" "y mod 4 < 4" "0 \<le> y mod 100" "y mod 100 < 100" "0 \<le> y mod 400" "y mod 400 < 400"
    by simp_all
  then show "146097 * y - 699 \<le> 400 * yearDays y" "400 * yearDays y \<le> 146097 * y + 396"
    unfolding yearDays_approx by linarith+
qed

lemma div_Suc_int:
  assumes "1 < k"
  shows "(y + 1) div k = y div k + (if (y + 1) mod k = 0 then 1 else (0::int))"
proof -
  have b: "0 \<le> y mod k" "y mod k < k" using assms by simp_all
  have "(y + 1) div k = y div k + (y mod k + 1) div k"
    using assms div_add1_eq [of y 1 k] by simp
  moreover have "(y + 1) mod k = (y mod k + 1) mod k" by (simp add: mod_simps)
  moreover have "(y mod k + 1) div k = (if (y mod k + 1) mod k = 0 then 1 else 0)"
  proof (cases "y mod k + 1 = k")
    case True
    then show ?thesis using assms by simp
  next
    case False
    then have "0 \<le> y mod k + 1" "y mod k + 1 < k" using b by linarith+
    then show ?thesis using b(1) by (simp add: div_pos_pos_trivial mod_pos_pos_trivial)
  qed
  ultimately show ?thesis by simp
qed

lemma leap_step:
  "a' = a + (if P then 1 else 0) \<Longrightarrow> b' = b + (if Q then 1 else 0) \<Longrightarrow> c' = c + (if R then 1 else 0) \<Longrightarrow>
   (R \<Longrightarrow> Q) \<Longrightarrow> (Q \<Longrightarrow> P) \<Longrightarrow>
   365 * (y + 1) + a' - b' + c' = 365 * y + a - b + c + (if P \<and> (\<not> Q \<or> R) then 366 else (365::int))"
  by auto

text \<open>The March year \<open>y\<close> ends with the February of \<open>y + 1\<close>.\<close>

lemma yearDays_Suc: "yearDays (y + 1) = yearDays y + (if isLeap (y + 1) then 366 else 365)"
  unfolding yearDays_def isLeap_def
proof (rule leap_step)
  show "(y + 1) mod 400 = 0 \<Longrightarrow> (y + 1) mod 100 = 0" "(y + 1) mod 100 = 0 \<Longrightarrow> (y + 1) mod 4 = 0"
    using dvd_trans [of 100 400 "y + 1"] dvd_trans [of 4 100 "y + 1"]
    by (simp_all add: mod_eq_0_iff_dvd)
qed (rule div_Suc_int; simp)+

lemma yearDays_mono: "y < y' \<Longrightarrow> yearDays y + 365 \<le> yearDays y'"
proof (induction y' rule: int_gr_induct [of y])
  case base
  then show ?case by (simp add: yearDays_Suc)
next
  case (step i)
  then show ?case by (simp add: yearDays_Suc)
qed

lemma marchYear_bounds: "yearDays (marchYear z) \<le> z \<and> z < yearDays (marchYear z + 1)"
proof -
  define y where "y = (400 * z) div 146097"
  have y: "146097 * y \<le> 400 * z" "400 * z < 146097 * y + 146097"
    using div_bounds [of 146097 "400 * z"] by (simp_all add: y_def)
  have "yearDays (y - 1) \<le> z" using y yearDays_bounds(2) [of "y - 1"] by simp
  moreover have "z < yearDays (y + 2)" using y yearDays_bounds(1) [of "y + 2"] by simp
  ultimately show ?thesis by (auto simp: marchYear_def Let_def y_def [symmetric] add.commute)
qed

lemma marchYear_unique:
  assumes "yearDays y \<le> z" and "z < yearDays (y + 1)"
  shows "marchYear z = y"
proof (rule antisym; rule ccontr)
  assume "\<not> marchYear z \<le> y"
  then have "yearDays (y + 1) \<le> yearDays (marchYear z)"
    using yearDays_mono [of "y + 1" "marchYear z"] by (cases "marchYear z = y + 1") auto
  then show False using marchYear_bounds [of z] assms(2) by linarith
next
  assume "\<not> y \<le> marchYear z"
  then have "yearDays (marchYear z + 1) \<le> yearDays y"
    using yearDays_mono [of "marchYear z + 1" y] by (cases "marchYear z + 1 = y") auto
  then show False using marchYear_bounds [of z] assms(1) by linarith
qed

section \<open>Months\<close>

lemma monthStart_bounds: "5 * monthStart m \<le> 153 * m + 2 \<and> 153 * m + 2 < 5 * monthStart m + 5"
  unfolding monthStart_def by (rule div_bounds) simp

lemma monthOf_bounds:
  assumes "0 \<le> d" and "d \<le> 365"
  shows "0 \<le> monthOf d" "monthOf d \<le> 11" "monthStart (monthOf d) \<le> d" "d < monthStart (monthOf d + 1)"
proof -
  have "153 * monthOf d \<le> 5 * d + 2" "5 * d + 2 < 153 * monthOf d + 153"
    using div_bounds [of 153 "5 * d + 2"] by (simp_all add: monthOf_def)
  with assms monthStart_bounds [of "monthOf d"] monthStart_bounds [of "monthOf d + 1"]
  show "0 \<le> monthOf d" "monthOf d \<le> 11" "monthStart (monthOf d) \<le> d" "d < monthStart (monthOf d + 1)"
    by simp_all
qed

lemma monthOf_unique: "monthStart m \<le> d \<Longrightarrow> d < monthStart (m + 1) \<Longrightarrow> monthOf d = m"
  unfolding monthOf_def using monthStart_bounds [of m] monthStart_bounds [of "m + 1"]
  by (intro div_unique_bounds) simp_all

section \<open>Dates\<close>

definition validDate :: "int \<Rightarrow> int \<Rightarrow> int \<Rightarrow> bool" where
  "validDate y m d \<longleftrightarrow> 1 \<le> m \<and> m \<le> 12 \<and> 1 \<le> d \<and> d \<le> daysIn m y"

text \<open>The parts of a day number: March year, month index and day within the year.\<close>

lemma civil_cases:
  obtains y d where "n + 719468 = yearDays y + d" "0 \<le> d" "d < (if isLeap (y + 1) then 366 else 365)"
    "civil n = (if monthOf d < 10 then y else y + 1,
       if monthOf d < 10 then monthOf d + 3 else monthOf d - 9, d - monthStart (monthOf d) + 1)"
proof -
  let ?y = "marchYear (n + 719468)"
  have "0 \<le> n + 719468 - yearDays ?y" "n + 719468 - yearDays ?y < (if isLeap (?y + 1) then 366 else 365)"
    using marchYear_bounds [of "n + 719468"] by (simp_all add: yearDays_Suc)
  then show ?thesis using that [of ?y "n + 719468 - yearDays ?y"] by (simp add: civil_def Let_def)
qed

lemma daysFromCivil_civil: "civil n = (y, m, d) \<Longrightarrow> daysFromCivil y m d = n"
proof -
  assume c: "civil n = (y, m, d)"
  obtain y' e where e: "n + 719468 = yearDays y' + e" "0 \<le> e" "e < (if isLeap (y' + 1) then 366 else 365)"
    "civil n = (if monthOf e < 10 then y' else y' + 1,
       if monthOf e < 10 then monthOf e + 3 else monthOf e - 9, e - monthStart (monthOf e) + 1)"
    by (rule civil_cases)
  have "e \<le> 365" using e(3) by (simp split: if_splits)
  from monthOf_bounds [OF e(2) this] e(1,4) c show ?thesis
    by (auto simp: daysFromCivil_def Let_def split: if_splits)
qed

lemma month_cases:
  fixes m :: int
  assumes "0 \<le> m" and "m \<le> 11"
  shows "m = 0 \<or> m = 1 \<or> m = 2 \<or> m = 3 \<or> m = 4 \<or> m = 5 \<or> m = 6 \<or> m = 7 \<or> m = 8 \<or> m = 9 \<or> m = 10 \<or> m = 11"
  using assms by presburger

lemma civil_valid: "civil n = (y, m, d) \<Longrightarrow> validDate y m d"
proof -
  assume c: "civil n = (y, m, d)"
  obtain y' e where e: "n + 719468 = yearDays y' + e" "0 \<le> e" "e < (if isLeap (y' + 1) then 366 else 365)"
    "civil n = (if monthOf e < 10 then y' else y' + 1,
       if monthOf e < 10 then monthOf e + 3 else monthOf e - 9, e - monthStart (monthOf e) + 1)"
    by (rule civil_cases)
  have "e \<le> 365" using e(3) by (simp split: if_splits)
  note b = monthOf_bounds [OF e(2) this]
  from month_cases [OF b(1,2)] show ?thesis
    using b(3,4) e(3,4) c
    by (elim disjE) (auto simp: validDate_def daysIn_def monthStart_def split: if_splits)
qed

lemma civil_daysFromCivil:
  assumes "validDate y m d"
  shows "civil (daysFromCivil y m d) = (y, m, d)"
proof -
  define y' m' where "y' = (if m \<le> 2 then y - 1 else y)" and "m' = (if m \<le> 2 then m + 9 else m - 3)"
  define e where "e = monthStart m' + d - 1"
  have m': "0 \<le> m'" "m' \<le> 11" "m = (if m' < 10 then m' + 3 else m' - 9)" "y = (if m' < 10 then y' else y' + 1)"
    using assms by (auto simp: validDate_def m'_def y'_def)
  have e: "monthStart m' \<le> e" "e < monthStart (m' + 1)" "0 \<le> e" "e < (if isLeap (y' + 1) then 366 else 365)"
    using month_cases [OF m'(1,2)] assms m'(3,4)
    by (elim disjE; simp add: validDate_def daysIn_def monthStart_def e_def split: if_splits)+
  define n where "n = daysFromCivil y m d"
  have n: "n + 719468 = yearDays y' + e"
    by (simp add: n_def daysFromCivil_def Let_def y'_def m'_def e_def)
  then have "marchYear (n + 719468) = y'"
    using e(3,4) by (intro marchYear_unique) (simp_all add: yearDays_Suc)
  with n monthOf_unique [OF e(1,2)]
  have "civil n = (if m' < 10 then y' else y' + 1, if m' < 10 then m' + 3 else m' - 9, e - monthStart m' + 1)"
    by (simp add: civil_def Let_def)
  then show ?thesis unfolding m'(3,4) [symmetric] n_def by (simp add: e_def)
qed

text \<open>The number a date reads as, \<open>yyyymmdd\<close>, orders days as they follow one another.\<close>

definition dateKey :: "int \<Rightarrow> int" where
  "dateKey n = (case civil n of (y, m, d) \<Rightarrow> y * 10000 + m * 100 + d)"

lemma monthStart_mono: "m \<le> m' \<Longrightarrow> monthStart m \<le> monthStart m'"
  by (simp add: monthStart_def zdiv_mono1)

lemma dateKey_mono:
  assumes "n < n'"
  shows "dateKey n < dateKey n'"
proof -
  obtain y e where e: "n + 719468 = yearDays y + e" "0 \<le> e" "e < (if isLeap (y + 1) then 366 else 365)"
    "civil n = (if monthOf e < 10 then y else y + 1,
       if monthOf e < 10 then monthOf e + 3 else monthOf e - 9, e - monthStart (monthOf e) + 1)"
    by (rule civil_cases)
  obtain y' e' where e': "n' + 719468 = yearDays y' + e'" "0 \<le> e'" "e' < (if isLeap (y' + 1) then 366 else 365)"
    "civil n' = (if monthOf e' < 10 then y' else y' + 1,
       if monthOf e' < 10 then monthOf e' + 3 else monthOf e' - 9, e' - monthStart (monthOf e') + 1)"
    by (rule civil_cases)
  have "e \<le> 365" "e' \<le> 365" using e(3) e'(3) by (simp_all split: if_splits)
  note b = monthOf_bounds [OF e(2) this(1)] and b' = monthOf_bounds [OF e'(2) this(2)]
  have ms: "monthStart (m + 1) \<le> monthStart m + 31" for m
    using monthStart_bounds [of m] monthStart_bounds [of "m + 1"] by simp
  have k: "dateKey n = 10000 * y + 100 * monthOf e + (if monthOf e < 10 then 300 else 9100) +
      (e - monthStart (monthOf e) + 1)" using e(4) by (simp add: dateKey_def)
  have k': "dateKey n' = 10000 * y' + 100 * monthOf e' + (if monthOf e' < 10 then 300 else 9100) +
      (e' - monthStart (monthOf e') + 1)" using e'(4) by (simp add: dateKey_def)
  have "y \<le> y'"
  proof (rule ccontr)
    assume "\<not> y \<le> y'"
    then have "yearDays (y' + 1) \<le> yearDays y"
      using yearDays_mono [of "y' + 1" y] by (cases "y = y' + 1") auto
    then show False using e e' assms by (simp add: yearDays_Suc split: if_splits)
  qed
  then consider "y < y'" | "y = y'" "monthOf e < monthOf e'" | "y = y'" "monthOf e = monthOf e'"
    | "y = y'" "monthOf e' < monthOf e" by linarith
  then show ?thesis
  proof cases
    case 1
    then show ?thesis using b b' k k' ms [of "monthOf e"] by (simp split: if_splits)
  next
    case 2
    then show ?thesis using b b' k k' ms [of "monthOf e"] by (simp split: if_splits)
  next
    case 3
    then show ?thesis using e(1) e'(1) k k' assms by simp
  next
    case 4
    then have "monthStart (monthOf e' + 1) \<le> monthStart (monthOf e)" by (intro monthStart_mono) simp
    then show ?thesis using 4 b b' e(1) e'(1) assms by simp
  qed
qed


section \<open>Fixed-width decimals and byte order\<close>

fun digitsW :: "nat \<Rightarrow> nat \<Rightarrow> string" where
  "digitsW 0 n = []"
| "digitsW (Suc w) n = digitsW w (n div 10) @ [digitChar (n mod 10)]"

text \<open>\<^verbatim>\<open>appendInt(b, x, width)\<close> of package \<^verbatim>\<open>time\<close>: zero-padded to the width, longer if needed.\<close>

definition pad :: "nat \<Rightarrow> int \<Rightarrow> string" where
  "pad w x =
     (let u = nat \<bar>x\<bar> in (if x < 0 then ''-'' else '''') @ (if u < 10 ^ w then digitsW w u else natDec u))"

text \<open>\<^verbatim>\<open>s < t\<close> on strings: byte by byte.\<close>

fun strLt :: "string \<Rightarrow> string \<Rightarrow> bool" where
  "strLt s [] = False"
| "strLt [] (y # t) = True"
| "strLt (x # s) (y # t) = (byteVal x < byteVal y \<or> x = y \<and> strLt s t)"

lemma length_digitsW [simp]: "length (digitsW w n) = w"
  by (induction w arbitrary: n) simp_all

lemma digitsW_numeral:
  "digitsW (numeral w) n = digitsW (pred_numeral w) (n div 10) @ [digitChar (n mod 10)]"
  by (simp only: numeral_eq_Suc [of w] digitsW.simps)

lemma digitsW_digits: "list_all isDigit (digitsW w n)"
  by (induction w arbitrary: n) simp_all

lemma decVal_Nil [simp]: "decVal [] = 0"
  by (simp add: decVal_def)

lemma decVal_digitsW: "decVal (digitsW w n) = n mod 10 ^ w"
proof (induction w arbitrary: n)
  case (Suc w)
  have "n mod 10 ^ Suc w = 10 * (n div 10 mod 10 ^ w) + n mod 10"
    by (simp add: mod_mult2_eq)
  then show ?case by (simp add: decVal_append Suc)
qed simp

lemma decVal_append_all: "decVal (s @ t) = decVal s * 10 ^ length t + decVal t"
proof (induction t rule: rev_induct)
  case (snoc c t)
  then show ?case using decVal_append [of "s @ t" c] by (simp add: decVal_append algebra_simps)
qed simp

lemma decVal_Cons: "decVal (c # s) = digitVal c * 10 ^ length s + decVal s"
  using decVal_append_all [of "[c]" s] decVal_append [of "[]" c] by simp

lemma digitVal_less: "isDigit c \<Longrightarrow> digitVal c < 10"
  unfolding isDigit_def digitVal_def by linarith

lemma decVal_less: "list_all isDigit s \<Longrightarrow> decVal s < 10 ^ length s"
proof (induction s)
  case (Cons c s)
  then have "decVal s < 10 ^ length s" "digitVal c + 1 \<le> 10" using digitVal_less by force+
  then have "decVal (c # s) < (digitVal c + 1) * 10 ^ length s" by (simp add: decVal_Cons)
  also have "\<dots> \<le> 10 * 10 ^ length s" using \<open>digitVal c + 1 \<le> 10\<close> by (intro mult_le_mono1)
  finally show ?case by simp
qed simp

lemma digit_order:
  "isDigit c \<Longrightarrow> isDigit d \<Longrightarrow> byteVal c < byteVal d \<longleftrightarrow> digitVal c < digitVal d"
  "isDigit c \<Longrightarrow> isDigit d \<Longrightarrow> c = d \<longleftrightarrow> digitVal c = digitVal d"
proof -
  assume c: "isDigit c" and d: "isDigit d"
  then show "byteVal c < byteVal d \<longleftrightarrow> digitVal c < digitVal d" by (auto simp: isDigit_def digitVal_def)
  have "c = d" if "digitVal c = digitVal d"
  proof -
    have "(of_char c :: nat) = of_char d" using that c d unfolding isDigit_def digitVal_def by linarith
    then show ?thesis by simp
  qed
  then show "c = d \<longleftrightarrow> digitVal c = digitVal d" by blast
qed

text \<open>Digit strings of one length compare like the numbers they show.\<close>

lemma strLt_digits:
  "length s = length t \<Longrightarrow> list_all isDigit s \<Longrightarrow> list_all isDigit t \<Longrightarrow> strLt s t \<longleftrightarrow> decVal s < decVal t"
proof (induction s t rule: list_induct2)
  case (Cons c s d t)
  then have b: "decVal s < 10 ^ length t" "decVal t < 10 ^ length t"
    using decVal_less [of s] decVal_less [of t] by simp_all
  show ?case
  proof (cases "digitVal c = digitVal d")
    case True
    then show ?thesis using Cons digit_order [of c d] by (simp add: decVal_Cons)
  next
    case False
    have "decVal (x # u) < decVal (y # v)"
      if "digitVal x < digitVal y" "decVal u < 10 ^ length v" "length u = length v" for x u y v
    proof -
      have "decVal (x # u) < (digitVal x + 1) * 10 ^ length v" using that by (simp add: decVal_Cons)
      also have "\<dots> \<le> digitVal y * 10 ^ length v" using that by (intro mult_le_mono1) simp
      finally show ?thesis by (simp add: decVal_Cons)
    qed
    then have lt: "digitVal c < digitVal d \<Longrightarrow> decVal (c # s) < decVal (d # t)"
      "digitVal d < digitVal c \<Longrightarrow> decVal (d # t) < decVal (c # s)"
      using b Cons.hyps by simp_all
    have "strLt (c # s) (d # t) \<longleftrightarrow> digitVal c < digitVal d"
      using False Cons.prems digit_order [of c d] by simp
    then show ?thesis using lt False by (metis less_asym less_linear)
  qed
qed simp

section \<open>Layouts\<close>

text \<open>\<^verbatim>\<open>20060102\<close>\<close>

definition fmtDay :: "time \<Rightarrow> string" where
  "fmtDay t = (case civil (dayOf t) of (y, m, d) \<Rightarrow> pad 4 y @ pad 2 m @ pad 2 d)"

definition secOfDay :: "time \<Rightarrow> int" where "secOfDay t = (t mod dayNs) div second"

text \<open>\<^verbatim>\<open>2006-01-02 15:04:05\<close> with the given separator between date and time.\<close>

definition fmtDateTime :: "string \<Rightarrow> time \<Rightarrow> string" where
  "fmtDateTime sep t =
     (case civil (dayOf t) of (y, m, d) \<Rightarrow>
        pad 4 y @ ''-'' @ pad 2 m @ ''-'' @ pad 2 d @ sep @
        pad 2 (secOfDay t div 3600) @ '':'' @ pad 2 (secOfDay t div 60 mod 60) @ '':'' @ pad 2 (secOfDay t mod 60))"

text \<open>The fractions \<^verbatim>\<open>.000\<close> and \<^verbatim>\<open>.000000\<close> cut off the rest; RFC 3339 in UTC.\<close>

definition fmtMilli :: "time \<Rightarrow> string" where
  "fmtMilli t = fmtDateTime '' '' t @ ''.'' @ pad 3 ((t mod second) div 1000000)"

definition fmtMicro :: "time \<Rightarrow> string" where
  "fmtMicro t = fmtDateTime '' '' t @ ''.'' @ pad 6 ((t mod second) div 1000)"

definition fmtRFC3339 :: "time \<Rightarrow> string" where
  "fmtRFC3339 t = fmtDateTime ''T'' t @ ''Z''"

text \<open>\<^verbatim>\<open>time.Parse("20060102", s)\<close>: four, two and two digits, the date in range.\<close>

definition parseDay :: "string \<Rightarrow> time option" where
  "parseDay s =
     (if length s = 8 \<and> list_all isDigit s then
        let y = int (decVal (take 4 s)); m = int (decVal (take 2 (drop 4 s))); d = int (decVal (drop 6 s))
        in if 1 \<le> m \<and> m \<le> 12 \<and> 1 \<le> d \<and> d \<le> daysIn m y then Some (daysFromCivil y m d * dayNs) else None
      else None)"

text \<open>\<^verbatim>\<open>time.Date(y, m, d, 0, 0, 0, 0, time.UTC)\<close> and \<^verbatim>\<open>t.AddDate(0, 0, n)\<close> of a UTC time.\<close>

definition dateUTC :: "int \<Rightarrow> int \<Rightarrow> int \<Rightarrow> time" where
  "dateUTC y m d = daysFromCivil y m d * dayNs"

definition addDays :: "time \<Rightarrow> int \<Rightarrow> time" where
  "addDays t n = (case civil (dayOf t) of (y, m, d) \<Rightarrow> dateUTC y m (d + n) + t mod dayNs)"

section \<open>Facts about layouts and days\<close>

lemma addDays_eq: "addDays t n = t + n * dayNs"
proof -
  obtain y m d where c: "civil (dayOf t) = (y, m, d)" by (metis prod_cases3)
  have "daysFromCivil y m (d + n) = dayOf t + n"
    using daysFromCivil_civil [OF c] by (simp add: daysFromCivil_def Let_def)
  then have "addDays t n = (dayOf t + n) * dayNs + t mod dayNs"
    by (simp add: addDays_def c dateUTC_def)
  also have "\<dots> = dayOf t * dayNs + t mod dayNs + n * dayNs" by (simp add: algebra_simps)
  also have "\<dots> = t + n * dayNs" by (simp add: dayOf_def)
  finally show ?thesis .
qed

lemma dateUTC_civil: "civil (dayOf t) = (y, m, d) \<Longrightarrow> dateUTC y m d = dayOf t * dayNs"
  using daysFromCivil_civil by (simp add: dateUTC_def)

definition year4 :: "time \<Rightarrow> bool" where
  "year4 t = (case civil (dayOf t) of (y, m, d) \<Rightarrow> 0 \<le> y \<and> y \<le> 9999)"

lemma daysIn_le: "daysIn m y \<le> 31"
  by (simp add: daysIn_def)

lemma fmtDay_parts:
  assumes "year4 t" and "civil (dayOf t) = (y, m, d)"
  shows "fmtDay t = digitsW 4 (nat y) @ digitsW 2 (nat m) @ digitsW 2 (nat d)"
    and "0 \<le> y" "y < 10000" "0 < m" "m < 100" "0 < d" "d < 100"
  using assms civil_valid [OF assms(2)] daysIn_le [of m y]
  by (auto simp: fmtDay_def pad_def year4_def validDate_def Let_def nat_less_iff)

lemma fmtDay_digits: "year4 t \<Longrightarrow> length (fmtDay t) = 8 \<and> list_all isDigit (fmtDay t)"
proof -
  assume "year4 t"
  moreover obtain y m d where "civil (dayOf t) = (y, m, d)" by (metis prod_cases3)
  ultimately show ?thesis using fmtDay_parts(1) digitsW_digits by simp
qed

lemma decVal_fmtDay: "year4 t \<Longrightarrow> int (decVal (fmtDay t)) = dateKey (dayOf t)"
proof -
  assume y4: "year4 t"
  obtain y m d where c: "civil (dayOf t) = (y, m, d)" by (metis prod_cases3)
  note f = fmtDay_parts [OF y4 c]
  have "decVal (fmtDay t) = nat y * 10000 + nat m * 100 + nat d"
    using f by (simp add: decVal_append_all decVal_digitsW nat_less_iff)
  then show ?thesis using f by (simp add: dateKey_def c)
qed

text \<open>Day names order as their days, so a string comparison of partition names is one of dates.\<close>

lemma strLt_fmtDay:
  assumes "year4 t" and "year4 u"
  shows "strLt (fmtDay t) (fmtDay u) \<longleftrightarrow> dayOf t < dayOf u"
proof -
  have "strLt (fmtDay t) (fmtDay u) \<longleftrightarrow> dateKey (dayOf t) < dateKey (dayOf u)"
    using strLt_digits [of "fmtDay t" "fmtDay u"] fmtDay_digits assms decVal_fmtDay by (metis of_nat_less_iff)
  also have "\<dots> \<longleftrightarrow> dayOf t < dayOf u"
    using dateKey_mono [of "dayOf t" "dayOf u"] dateKey_mono [of "dayOf u" "dayOf t"]
    by (metis less_asym less_linear)
  finally show ?thesis .
qed

lemma parseDay_fmtDay: "year4 t \<Longrightarrow> parseDay (fmtDay t) = Some (dayOf t * dayNs)"
proof -
  assume y4: "year4 t"
  obtain y m d where c: "civil (dayOf t) = (y, m, d)" by (metis prod_cases3)
  note f = fmtDay_parts [OF y4 c] and v = civil_valid [OF c]
  have "decVal (digitsW 4 (nat y)) = nat y" "decVal (digitsW 2 (nat m)) = nat m" "decVal (digitsW 2 (nat d)) = nat d"
    using f by (simp_all add: decVal_digitsW nat_less_iff)
  then show ?thesis
    using f v fmtDay_digits [OF y4] daysFromCivil_civil [OF c]
    by (simp add: parseDay_def Let_def validDate_def)
qed


end
