(* ===== verification/StoreQuery.thy ===== *)
theory StoreQuery
  imports GoTime StoreRow SqlText
begin

text \<open>
  \<^verbatim>\<open>store/query.go\<close>, the query types of \<^verbatim>\<open>store/store.go\<close> and \<^verbatim>\<open>queryIDDay\<close> of
  \<^verbatim>\<open>store/identifier.go\<close>: the filter of a listing and the predicates, order and limit
  both backends build their statements from. A predicate is given its meaning on a
  stored row, so the filters can be shown to select the rows they name.
\<close>

section \<open>Data\<close>

record predicate =
  p_column :: string
  p_op :: string
  p_value :: arg

record QueryFilter =
  qf_Since :: time
  qf_Until :: time
  qf_User :: string
  qf_Catalog :: string
  qf_State :: string
  qf_Sort :: string
  qf_Desc :: bool
  qf_Limit :: int
  qf_Offset :: int

record QuerySummary =
  qs_QueryID :: string
  qs_CreateTime :: time
  qs_ExecutionStartTime :: "time option"
  qs_UserName :: string
  qs_Source :: string
  qs_Catalog :: string
  qs_QueryState :: string
  qs_QueryType :: string
  qs_QueryPreview :: string
  qs_WallMS :: int
  qs_CPUMS :: int
  qs_PhysicalInputBytes :: int
  qs_PeakUserMemoryBytes :: int
  qs_OutputRows :: int
  qs_ProcessedInputRows :: int
  qs_ErrorCode :: string

definition defaultListLimit :: int where "defaultListLimit = 100"
definition maxListLimit :: int where "maxListLimit = 5000"

definition sortColumns :: "string \<rightharpoonup> string" where
  "sortColumns = map_of
     [(''start'', ''create_time''), (''wall'', ''wall_ms''), (''cpu'', ''cpu_ms''),
      (''bytes'', ''physical_input_bytes''), (''mem'', ''peak_user_memory_bytes''),
      (''rows'', ''output_rows'')]"

section \<open>Operations\<close>

definition pred :: "string \<Rightarrow> string \<Rightarrow> arg \<Rightarrow> predicate" where
  "pred c op v = \<lparr>p_column = c, p_op = op, p_value = v\<rparr>"

definition listPredicates :: "QueryFilter \<Rightarrow> predicate list" where
  "listPredicates f =
     (if \<not> isZeroTime (qf_Since f) then [pred ''create_time'' ''>='' (ATime (qf_Since f))] else []) @
     (if \<not> isZeroTime (qf_Until f) then [pred ''create_time'' ''<'' (ATime (qf_Until f))] else []) @
     (if qf_User f \<noteq> '''' then [pred ''user_name'' ''='' (AStr (qf_User f))] else []) @
     (if qf_Catalog f \<noteq> '''' then [pred ''catalog'' ''='' (AStr (qf_Catalog f))] else []) @
     (if qf_State f \<noteq> '''' then [pred ''query_state'' ''='' (AStr (qf_State f))] else [])"

definition queryIDDay :: "string \<Rightarrow> time option" where
  "queryIDDay q = (if length q < 8 then None else parseDay (take 8 q))"

definition queryIDWindow :: "string \<Rightarrow> (time \<times> time) option" where
  "queryIDWindow q =
     (case queryIDDay q of None \<Rightarrow> None | Some day \<Rightarrow> Some (addDays day (- 1), addDays day 2))"

definition queryIDPredicates :: "string \<Rightarrow> predicate list option" where
  "queryIDPredicates q =
     (case queryIDWindow q of None \<Rightarrow> None
      | Some (from, to) \<Rightarrow>
          Some [pred ''query_id'' ''='' (AStr q), pred ''create_time'' ''>='' (ATime from),
                pred ''create_time'' ''<'' (ATime to)])"

definition sortColumn :: "QueryFilter \<Rightarrow> string" where
  "sortColumn f = (case sortColumns (qf_Sort f) of Some c \<Rightarrow> c | None \<Rightarrow> ''create_time'')"

definition orderBy :: "QueryFilter \<Rightarrow> string" where
  "orderBy f =
     (let dir = (if qf_Desc f then ''DESC'' else ''ASC'');
          c = sortColumn f;
          clause = quoteIdent c @ '' '' @ dir
      in if c \<noteq> ''query_id'' then clause @ '', '' @ quoteIdent ''query_id'' @ '' '' @ dir else clause)"

definition pageLimit :: "QueryFilter \<Rightarrow> int" where
  "pageLimit f = (if qf_Limit f \<le> 0 \<or> maxListLimit < qf_Limit f then defaultListLimit else qf_Limit f)"

text \<open>\<^verbatim>\<open>rows.Scan(q.scanDests()...)\<close> of a summary, in the order of its destinations.\<close>

definition scanSummary :: "arg list \<Rightarrow> QuerySummary option" where
  "scanSummary vals =
     (case vals of
        [AStr qid, ATime ct, est, AStr user, AStr src, AStr cat, AStr st, AStr ty, AStr prev,
         AInt wall, AInt cpu, AInt pin, AInt mem, AInt outr, AInt inr, AStr ec] \<Rightarrow>
          (case asTimeOpt est of None \<Rightarrow> None
           | Some est' \<Rightarrow>
               Some \<lparr>qs_QueryID = qid, qs_CreateTime = ct, qs_ExecutionStartTime = est',
                 qs_UserName = user, qs_Source = src, qs_Catalog = cat, qs_QueryState = st,
                 qs_QueryType = ty, qs_QueryPreview = prev, qs_WallMS = wall, qs_CPUMS = cpu,
                 qs_PhysicalInputBytes = pin, qs_PeakUserMemoryBytes = mem, qs_OutputRows = outr,
                 qs_ProcessedInputRows = inr, qs_ErrorCode = ec\<rparr>)
      | _ \<Rightarrow> None)"

section \<open>What a predicate means on a row\<close>

text \<open>The value a stored row has in a column.\<close>

definition colVal :: "Row \<Rightarrow> string \<Rightarrow> arg option" where
  "colVal r c = map_of (zip (map name schemaColumns) (args r)) c"

text \<open>SQL comparison of two values of one type; a NULL compares as false.\<close>

fun compareArgs :: "string \<Rightarrow> arg \<Rightarrow> arg \<Rightarrow> bool" where
  "compareArgs op (ATime a) (ATime b) =
     (if op = ''>='' then a \<ge> b else if op = ''<'' then a < b else op = ''='' \<and> a = b)"
| "compareArgs op (AStr a) (AStr b) = (op = ''='' \<and> a = b \<or> op = ''<'' \<and> strLt a b)"
| "compareArgs op _ _ = False"

definition holds :: "Row \<Rightarrow> predicate \<Rightarrow> bool" where
  "holds r p = (case colVal r (p_column p) of None \<Rightarrow> False | Some v \<Rightarrow> compareArgs (p_op p) v (p_value p))"

lemma colVal_simps [simp]:
  "colVal r ''create_time'' = Some (ATime (CreateTime r))"
  "colVal r ''query_id'' = Some (AStr (QueryID r))"
  "colVal r ''user_name'' = Some (AStr (UserName r))"
  "colVal r ''catalog'' = Some (AStr (Catalog r))"
  "colVal r ''query_state'' = Some (AStr (QueryState r))"
  by (simp_all add: colVal_def schemaColumns_def args_def col_def)

lemma holds_pred [simp]: "holds r (pred c op v) = (case colVal r c of None \<Rightarrow> False | Some w \<Rightarrow> compareArgs op w v)"
  by (simp add: holds_def pred_def split: option.split)

lemma list_all_guard [simp]: "list_all P (if c then [x] else []) \<longleftrightarrow> (c \<longrightarrow> P x)"
  by simp

section \<open>Properties\<close>

text \<open>
  C22. A listing filter selects exactly the rows it describes: a row satisfies all the
  predicates of the statement if and only if its creation time is in the half-open
  range and its user, catalog and state are the requested ones, where an unset
  criterion accepts everything.
\<close>

theorem listPredicates_select:
  "list_all (holds r) (listPredicates f) \<longleftrightarrow>
     (qf_Since f = zeroTime \<or> qf_Since f \<le> CreateTime r) \<and>
     (qf_Until f = zeroTime \<or> CreateTime r < qf_Until f) \<and>
     (qf_User f = '''' \<or> UserName r = qf_User f) \<and>
     (qf_Catalog f = '''' \<or> Catalog r = qf_Catalog f) \<and>
     (qf_State f = '''' \<or> QueryState r = qf_State f)"
  unfolding listPredicates_def isZeroTime_def list_all_append list_all_guard
  by (simp add: disj_imp eq_commute)

text \<open>The window of an id contains the days around its date.\<close>

lemma queryID_in_window:
  assumes "QueryID r = fmtDay t @ rest" and "year4 t" and "\<bar>dayOf (CreateTime r) - dayOf t\<bar> \<le> 1"
  shows "\<exists>ps. queryIDPredicates (QueryID r) = Some ps \<and> list_all (holds r) ps"
proof -
  let ?c = "CreateTime r"
  have "queryIDDay (QueryID r) = Some (dayOf t * dayNs)"
    using assms(1) fmtDay_digits [OF assms(2)] parseDay_fmtDay [OF assms(2)] by (simp add: queryIDDay_def)
  then have w: "queryIDWindow (QueryID r) = Some ((dayOf t - 1) * dayNs, (dayOf t + 2) * dayNs)"
    by (simp add: queryIDWindow_def addDays_eq algebra_simps)
  have c: "dayOf ?c * dayNs \<le> ?c" "?c < (dayOf ?c + 1) * dayNs"
    using div_bounds [of dayNs ?c] by (simp_all add: dayOf_def dayNs_def)
  have d: "dayOf t - 1 \<le> dayOf ?c" "dayOf ?c + 1 \<le> dayOf t + 2" using assms(3) by linarith+
  have "(dayOf t - 1) * dayNs \<le> dayOf ?c * dayNs" "(dayOf ?c + 1) * dayNs \<le> (dayOf t + 2) * dayNs"
    using d by (intro mult_right_mono; simp add: dayNs_def)+
  then have "(dayOf t - 1) * dayNs \<le> ?c" "?c < (dayOf t + 2) * dayNs" using c by linarith+
  then show ?thesis by (simp add: queryIDPredicates_def w)
qed

text \<open>A leap day, for the examples.\<close>

lemma leapDay: "fmtDay (19782 * dayNs + 5) = ''20240229''" "year4 (19782 * dayNs + 5)"
proof -
  have d: "dayOf (19782 * dayNs + 5) = 19782" by (simp add: dayOf_def dayNs_def)
  have c: "civil 19782 = (2024, 2, 29)"
    using civil_daysFromCivil [of 2024 2 29]
    by (simp add: validDate_def daysIn_def isLeap_def daysFromCivil_def yearDays_def monthStart_def)
  then show "fmtDay (19782 * dayNs + 5) = ''20240229''"
    by (simp add: fmtDay_def d pad_def digitsW_numeral digitChar_def char_of_def bit_0)
  show "year4 (19782 * dayNs + 5)" using c by (simp add: year4_def d)
qed

text \<open>
  C21. Looking a query up by its id finds it: when a row's id starts with the UTC date of
  the query (as Trino's ids do) and the row was created on that date, the day before
  or the day after, the predicates of the lookup exist and the row satisfies them.
\<close>

theorem queryID_lookup_finds:
  assumes "QueryID r = fmtDay t @ rest" and "year4 t" and "\<bar>dayOf (CreateTime r) - dayOf t\<bar> \<le> 1"
  shows "\<exists>ps. queryIDPredicates (QueryID r) = Some ps \<and> list_all (holds r) ps"
  using assms by (rule queryID_in_window)

theorem queryID_lookup_finds_witness:
  "\<exists>ps. queryIDPredicates ''20240229_120000_00001_abcde'' = Some ps \<and>
     list_all (holds (zeroRow\<lparr>QueryID := ''20240229_120000_00001_abcde'', CreateTime := 19782 * dayNs + 5\<rparr>)) ps"
  using queryID_lookup_finds [of "zeroRow\<lparr>QueryID := ''20240229_120000_00001_abcde'', CreateTime := 19782 * dayNs + 5\<rparr>"
      "19782 * dayNs + 5" "''_120000_00001_abcde''"] leapDay by simp

lemma sortColumn_cases:
  "sortColumn f \<in> {''create_time'', ''wall_ms'', ''cpu_ms'', ''physical_input_bytes'',
     ''peak_user_memory_bytes'', ''output_rows''}"
  by (simp add: sortColumn_def sortColumns_def)

text \<open>
  Pages are well defined: the page size is between 1 and 5000 (a requested limit in that
  range is used as it is, any other gives 100), rows are sorted by an existing column,
  and the order always ends in the query id in the same direction, so rows with
  equal sort values keep one order across pages.
\<close>

theorem page_well_defined:
  "1 \<le> pageLimit f \<and> pageLimit f \<le> 5000 \<and>
   pageLimit f = (if 1 \<le> qf_Limit f \<and> qf_Limit f \<le> 5000 then qf_Limit f else 100) \<and>
   sortColumn f \<in> set (map name schemaColumns) \<and>
   orderBy f = (let dir = (if qf_Desc f then ''DESC'' else ''ASC'')
     in quoteIdent (sortColumn f) @ '' '' @ dir @ '', '' @ quoteIdent ''query_id'' @ '' '' @ dir)"
proof -
  have "sortColumn f \<noteq> ''query_id''" using sortColumn_cases [of f] by auto
  moreover have "sortColumn f \<in> set (map name schemaColumns)"
    using sortColumn_cases [of f] unfolding schemaColumns_def col_def by auto
  ultimately show ?thesis
    by (simp add: pageLimit_def maxListLimit_def defaultListLimit_def orderBy_def Let_def)
qed

end
