(* ===== verification/TrinoRead.thy ===== *)
theory TrinoRead
  imports TrinoStore StoreQuery
begin

text \<open>
  The Trino backend, reading and maintenance (\<^verbatim>\<open>store/trino.go\<close>): listing and lookup
  statements, readiness probes, pruning, compaction and the DDL. The driver's
  \<^verbatim>\<open>QueryContext\<close> is the parameter \<open>query\<close>; a result set is its rows and the error
  \<^verbatim>\<open>rows.Err()\<close> gives after them.
\<close>

section \<open>Result sets\<close>

type_synonym 'w queryFn = "'w \<Rightarrow> string \<Rightarrow> arg list \<Rightarrow> 'w \<times> (driver_err + arg list list \<times> driver_err option)"

text \<open>
  \<^verbatim>\<open>for rows.Next() { rows.Scan(...) }\<close>: the scanned values so far, or the error of the first
  row that does not scan. \<open>serr\<close> is the error \<^verbatim>\<open>database/sql\<close> gives for such a row.
\<close>

fun scanAll :: "(arg list \<Rightarrow> 'a option) \<Rightarrow> (arg list \<Rightarrow> err) \<Rightarrow> string \<Rightarrow> arg list list \<Rightarrow> 'a list \<Rightarrow> err + 'a list"
where
  "scanAll sc serr what [] out = Inr out"
| "scanAll sc serr what (v # vs) out =
     (case sc v of None \<Rightarrow> Inl (Wrap what (serr v)) | Some q \<Rightarrow> scanAll sc serr what vs (out @ [q]))"

text \<open>\<^verbatim>\<open>return out, rows.Err()\<close>: callers look at the value only when there is no error.\<close>

definition withRowsErr :: "err + 'a \<Rightarrow> driver_err option \<Rightarrow> err + 'a" where
  "withRowsErr res e = (case res of Inl x \<Rightarrow> Inl x | Inr out \<Rightarrow> (case e of None \<Rightarrow> Inr out | Some d \<Rightarrow> Inl (ofDriver d)))"

section \<open>Reading\<close>

definition trinoWhere :: "predicate list \<Rightarrow> string \<times> arg list" where
  "trinoWhere preds =
     (if length preds = 0 then ('''', [])
      else ('' WHERE '' @ joinS (map (\<lambda>p. quoteIdent (p_column p) @ '' '' @ p_op p @ '' ?'') preds) '' AND '',
            map p_value preds))"

definition listStmt :: "TrinoStore \<Rightarrow> QueryFilter \<Rightarrow> string" where
  "listStmt s f =
     ts_summarySelect s @ fst (trinoWhere (listPredicates f)) @ '' ORDER BY '' @ orderBy f @
     (if 0 < qf_Offset f then '' OFFSET '' @ itoa (qf_Offset f) else '''') @
     '' LIMIT '' @ itoa (pageLimit f)"

definition ListQueries :: "'w queryFn \<Rightarrow> (arg list \<Rightarrow> err) \<Rightarrow> TrinoStore \<Rightarrow> 'w \<Rightarrow> QueryFilter \<Rightarrow>
    'w \<times> (err + QuerySummary list)" where
  "ListQueries query serr s w f =
     (case query w (listStmt s f) (snd (trinoWhere (listPredicates f))) of
        (w, Inl e) \<Rightarrow> (w, Inl (Wrap ''list queries'' (ofDriver e)))
      | (w, Inr (rows, e)) \<Rightarrow> (w, withRowsErr (scanAll scanSummary serr ''scan summary'' rows []) e))"

definition getStmt :: "TrinoStore \<Rightarrow> predicate list \<Rightarrow> string" where
  "getStmt s preds =
     ''SELECT '' @ rowSelectList s @ '' FROM '' @ ts_table s @ fst (trinoWhere preds) @ '' LIMIT 1''"

definition GetQuery :: "'w queryFn \<Rightarrow> (arg list \<Rightarrow> err) \<Rightarrow> TrinoStore \<Rightarrow> 'w \<Rightarrow> string \<Rightarrow>
    'w \<times> (err + Row option)" where
  "GetQuery query serr s w queryID =
     (case queryIDPredicates queryID of
        None \<Rightarrow> (w, Inr None)
      | Some preds \<Rightarrow>
          (case query w (getStmt s preds) (snd (trinoWhere preds)) of
             (w, Inl e) \<Rightarrow> (w, Inl (Wrap (''get query '' @ queryID) (ofDriver e)))
           | (w, Inr ([], e)) \<Rightarrow> (w, withRowsErr (Inr None) e)
           | (w, Inr (v # vs, e)) \<Rightarrow>
               (w, case scanRow v of None \<Rightarrow> Inl (Wrap ''scan row'' (serr v)) | Some r \<Rightarrow> Inr (Some r))))"

text \<open>\<^verbatim>\<open>Validate\<close> and \<^verbatim>\<open>ValidateTable\<close> run a statement and close its result.\<close>

definition probe :: "'w queryFn \<Rightarrow> 'w \<Rightarrow> string \<Rightarrow> string \<Rightarrow> 'w \<times> err option" where
  "probe query w stmt what =
     (case query w stmt [] of (w, Inl e) \<Rightarrow> (w, Some (Wrap what (ofDriver e))) | (w, Inr _) \<Rightarrow> (w, None))"

definition Validate :: "'w queryFn \<Rightarrow> 'w \<Rightarrow> 'w \<times> err option" where
  "Validate query w = probe query w ''SELECT 1'' ''trino not reachable''"

definition ValidateTable :: "'w queryFn \<Rightarrow> TrinoStore \<Rightarrow> 'w \<Rightarrow> 'w \<times> err option" where
  "ValidateTable query s w =
     probe query w (''SELECT 1 FROM '' @ ts_table s @ '' WHERE false'')
       (''query log table '' @ ts_table s @
        '' not reachable; apply the DDL (init subcommand or ddl/trino_query_log.sql)'')"

section \<open>Maintenance\<close>

definition execStep :: "'w execFn \<Rightarrow> 'w \<Rightarrow> string \<Rightarrow> arg list \<Rightarrow> string \<Rightarrow> 'w \<times> err option" where
  "execStep exec w stmt as what =
     (case exec w stmt as of (w, Some e) \<Rightarrow> (w, Some (Wrap what (ofDriver e))) | (w, None) \<Rightarrow> (w, None))"

definition pruneStmt :: "TrinoStore \<Rightarrow> string" where
  "pruneStmt s = ''DELETE FROM '' @ ts_table s @ '' WHERE '' @ quoteIdent ''create_time'' @ '' < ?''"

definition Prune :: "'w execFn \<Rightarrow> TrinoStore \<Rightarrow> 'w \<Rightarrow> time \<Rightarrow> 'w \<times> err option" where
  "Prune exec s w olderThan =
     execStep exec w (pruneStmt s) [ATime olderThan] (''prune rows older than '' @ fmtRFC3339 olderThan)"

definition optimizeStmt :: "TrinoStore \<Rightarrow> string \<Rightarrow> string" where
  "optimizeStmt s lit =
     ''ALTER TABLE '' @ ts_table s @ '' EXECUTE optimize(file_size_threshold => '' @ [CHR 0x27] @ ''64MB'' @
     [CHR 0x27] @ '') WHERE '' @ quoteIdent ''create_time'' @ '' >= TIMESTAMP '' @ [CHR 0x27] @ lit @ '' UTC'' @ [CHR 0x27]"

definition Optimize :: "'w execFn \<Rightarrow> TrinoStore \<Rightarrow> 'w \<Rightarrow> time \<Rightarrow> 'w \<times> err option" where
  "Optimize exec s w since =
     (let lit = fmtMilli since in execStep exec w (optimizeStmt s lit) [] (''optimize since '' @ lit))"

definition maintainSteps :: "TrinoStore \<Rightarrow> string \<Rightarrow> (string \<times> string) list" where
  "maintainSteps s retentionThreshold =
     (let thr = quoteLit retentionThreshold
      in [(''expire_snapshots'',
           ''ALTER TABLE '' @ ts_table s @ '' EXECUTE expire_snapshots(retention_threshold => '' @ thr @ '')''),
          (''remove_orphan_files'',
           ''ALTER TABLE '' @ ts_table s @ '' EXECUTE remove_orphan_files(retention_threshold => '' @ thr @ '')'')])"

text \<open>Every step runs; their errors are collected.\<close>

fun runSteps :: "'w execFn \<Rightarrow> 'w \<Rightarrow> (string \<times> string) list \<Rightarrow> err list \<Rightarrow> 'w \<times> err list" where
  "runSteps exec w [] errs = (w, errs)"
| "runSteps exec w ((what, stmt) # rest) errs =
     (case execStep exec w stmt [] what of
        (w, Some e) \<Rightarrow> runSteps exec w rest (errs @ [e])
      | (w, None) \<Rightarrow> runSteps exec w rest errs)"

text \<open>\<^verbatim>\<open>errors.Join\<close> of no error is nil.\<close>

definition joinErrs :: "err list \<Rightarrow> err option" where
  "joinErrs errs = (if errs = [] then None else Some (Joined errs))"

definition Maintain :: "'w execFn \<Rightarrow> TrinoStore \<Rightarrow> 'w \<Rightarrow> string \<Rightarrow> 'w \<times> err option" where
  "Maintain exec s w retentionThreshold =
     (case runSteps exec w (maintainSteps s retentionThreshold) [] of (w, errs) \<Rightarrow> (w, joinErrs errs))"

section \<open>DDL\<close>

definition SchemaDDL :: "TrinoStore \<Rightarrow> string" where
  "SchemaDDL s =
     ''CREATE SCHEMA IF NOT EXISTS '' @ quoteIdent (tr_Catalog (ts_cfg s)) @ ''.'' @ quoteIdent (tr_Schema (ts_cfg s)) @
     (if tr_IcebergLocation (ts_cfg s) \<noteq> '''' then '' WITH (location = '' @ quoteLit (tr_IcebergLocation (ts_cfg s)) @ '')''
      else '''')"

abbreviation nl :: string where "nl \<equiv> [CHR 0x0A]"
abbreviation sq :: string where "sq \<equiv> [CHR 0x27]"

definition TableDDL :: "TrinoStore \<Rightarrow> string" where
  "TableDDL s =
     (let cols = map (\<lambda>c. ''  '' @ quoteIdent (name c) @ '' '' @ sqlType c) schemaColumns;
          props = [''partitioning = ARRAY['' @ sq @ ''day(create_time)'' @ sq @ '']'',
                   ''sorted_by = ARRAY['' @ sq @ ''create_time'' @ sq @ '']'',
                   ''extra_properties = MAP(ARRAY['' @ sq @ ''write.metadata.delete-after-commit.enabled'' @ sq @
                     ''], ARRAY['' @ sq @ ''true'' @ sq @ ''])'']
      in ''CREATE TABLE IF NOT EXISTS '' @ ts_table s @ '' ('' @ nl @ joinS cols ('','' @ nl) @
         nl @ '') WITH ('' @ nl @ ''  '' @ joinS props ('','' @ nl @ ''  '') @ nl @ '')'')"

definition DDLScript :: "TrinoStore \<Rightarrow> string" where
  "DDLScript s = SchemaDDL s @ '';'' @ nl @ nl @ TableDDL s @ '';'' @ nl"

definition Init :: "'w execFn \<Rightarrow> TrinoStore \<Rightarrow> 'w \<Rightarrow> 'w \<times> err option" where
  "Init exec s w =
     (case execStep exec w (SchemaDDL s) [] ''create schema'' of
        (w, Some e) \<Rightarrow> (w, Some e)
      | (w, None) \<Rightarrow> execStep exec w (TableDDL s) [] ''create table'')"

section \<open>Facts\<close>

lemma scanAll_map:
  "(\<And>x. x \<in> set xs \<Longrightarrow> sc (g x) = Some (h x)) \<Longrightarrow> scanAll sc serr what (map g xs) out = Inr (out @ map h xs)"
  by (induction xs arbitrary: out) auto

text \<open>The summary of a row, and its values in the order of the summary columns.\<close>

definition summaryOf :: "Row \<Rightarrow> QuerySummary" where
  "summaryOf r = \<lparr>qs_QueryID = QueryID r, qs_CreateTime = CreateTime r,
     qs_ExecutionStartTime = ExecutionStartTime r, qs_UserName = UserName r, qs_Source = Source r,
     qs_Catalog = Catalog r, qs_QueryState = QueryState r, qs_QueryType = QueryType r,
     qs_QueryPreview = QueryPreview r, qs_WallMS = WallMS r, qs_CPUMS = CPUMS r,
     qs_PhysicalInputBytes = PhysicalInputBytes r, qs_PeakUserMemoryBytes = PeakUserMemoryBytes r,
     qs_OutputRows = OutputRows r, qs_ProcessedInputRows = ProcessedInputRows r,
     qs_ErrorCode = RErrorCode r\<rparr>"

definition summaryArgs :: "Row \<Rightarrow> arg list" where
  "summaryArgs r = map (\<lambda>c. the (colVal r c)) summaryColumns"

lemma summaryArgs_eq:
  "summaryArgs r = [AStr (QueryID r), ATime (CreateTime r), timeArg (ExecutionStartTime r),
     AStr (UserName r), AStr (Source r), AStr (Catalog r), AStr (QueryState r), AStr (QueryType r),
     AStr (QueryPreview r), AInt (WallMS r), AInt (CPUMS r), AInt (PhysicalInputBytes r),
     AInt (PeakUserMemoryBytes r), AInt (OutputRows r), AInt (ProcessedInputRows r), AStr (RErrorCode r)]"
  by (simp add: summaryArgs_def summaryColumns_def colVal_def schemaColumns_def args_def col_def)

lemma scanSummary_args: "scanSummary (summaryArgs r) = Some (summaryOf r)"
  by (simp add: summaryArgs_eq scanSummary_def summaryOf_def timeArg_def split: option.split)

section \<open>Properties\<close>

text \<open>
  Reading gives back what is stored: when the database answers a listing with the
  summary columns of some rows, \<^verbatim>\<open>ListQueries\<close> returns exactly the summaries of those rows in
  their order; when it answers a lookup with the columns of a row, \<^verbatim>\<open>GetQuery\<close> returns that row.
\<close>

theorem trino_reads_stored_rows:
  assumes "query w (listStmt s f) (snd (trinoWhere (listPredicates f))) = (w1, Inr (map summaryArgs rows, None))"
    and "queryIDPredicates q = Some preds"
    and "query w (getStmt s preds) (snd (trinoWhere preds)) = (w2, Inr (args r # vs, e))"
  shows "ListQueries query serr s w f = (w1, Inr (map summaryOf rows)) \<and>
    GetQuery query serr s w q = (w2, Inr (Some r))"
  using assms scanAll_map [of rows scanSummary summaryArgs summaryOf] scanSummary_args scanRow_roundtrip
  by (simp add: ListQueries_def GetQuery_def withRowsErr_def)

definition exampleQuery :: "unit queryFn" where
  "exampleQuery w stmt as = (w, Inr (if as = [] then [summaryArgs zeroRow] else [args zeroRow], None))"

definition exampleFilter :: QueryFilter where
  "exampleFilter = \<lparr>qf_Since = zeroTime, qf_Until = zeroTime, qf_User = '''', qf_Catalog = '''',
     qf_State = '''', qf_Sort = '''', qf_Desc = True, qf_Limit = 0, qf_Offset = 0\<rparr>"

theorem trino_reads_stored_rows_witness:
  "\<exists>s. ListQueries exampleQuery (\<lambda>v. EOther ''scan'') s () exampleFilter = ((), Inr [summaryOf zeroRow]) \<and>
     GetQuery exampleQuery (\<lambda>v. EOther ''scan'') s () ''20240229_000000_00000_xxxxx'' = ((), Inr (Some zeroRow))"
proof -
  have "queryIDDay ''20240229_000000_00000_xxxxx'' \<noteq> None"
    by (simp add: queryIDDay_def parseDay_def isDigit_def decVal_def digitVal_def daysIn_def isLeap_def)
  then obtain preds where "queryIDPredicates ''20240229_000000_00000_xxxxx'' = Some preds" "preds \<noteq> []"
    by (auto simp: queryIDPredicates_def queryIDWindow_def)
  then show ?thesis
    using trino_reads_stored_rows [of exampleQuery "()" _ exampleFilter "()" "[zeroRow]" _ preds "()" zeroRow "[]" None]
    by (simp add: exampleQuery_def trinoWhere_def exampleFilter_def listPredicates_def isZeroTime_def)
qed

text \<open>
  C34. No value of a request reaches the statement text: two listings with the same set of
  criteria, order, limit and offset send the same text, whatever users, catalogs, states
  and times they ask for; the values travel only as arguments, one per placeholder.
\<close>

theorem list_text_independent_of_values:
  assumes "isZeroTime (qf_Since f) = isZeroTime (qf_Since g)" and "isZeroTime (qf_Until f) = isZeroTime (qf_Until g)"
    and "(qf_User f = '''') = (qf_User g = '''')" and "(qf_Catalog f = '''') = (qf_Catalog g = '''')"
    and "(qf_State f = '''') = (qf_State g = '''')"
    and "qf_Sort f = qf_Sort g" and "qf_Desc f = qf_Desc g" and "qf_Limit f = qf_Limit g" and "qf_Offset f = qf_Offset g"
  shows "listStmt s f = listStmt s g \<and>
    length (snd (trinoWhere (listPredicates f))) = countC CHR ''?'' (fst (trinoWhere (listPredicates f)))"
proof -
  let ?shape = "\<lambda>p. quoteIdent (p_column p) @ '' '' @ p_op p @ '' ?''"
  have "map ?shape (listPredicates f) = map ?shape (listPredicates g)"
    using assms(1-5) by (simp add: listPredicates_def pred_def)
  moreover from this have "length (listPredicates f) = length (listPredicates g)" by (rule map_eq_imp_length_eq)
  moreover have "orderBy f = orderBy g" "pageLimit f = pageLimit g"
    using assms(6-9) by (simp_all add: orderBy_def sortColumn_def pageLimit_def)
  moreover have "length (snd (trinoWhere (listPredicates f))) = countC CHR ''?'' (fst (trinoWhere (listPredicates f)))"
    by (simp add: trinoWhere_def listPredicates_def pred_def quoteIdent_def)
  ultimately show ?thesis using assms(9) by (simp add: listStmt_def trinoWhere_def)
qed

theorem list_text_independent_of_values_witness:
  "\<exists>s. listStmt s (exampleFilter\<lparr>qf_User := ''alice''\<rparr>) = listStmt s (exampleFilter\<lparr>qf_User := ''x OR 1=1 --''\<rparr>)"
  using list_text_independent_of_values [of "exampleFilter\<lparr>qf_User := ''alice''\<rparr>" "exampleFilter\<lparr>qf_User := ''x OR 1=1 --''\<rparr>"]
  by (simp add: exampleFilter_def)

text \<open>
  Maintenance is not cut short: \<^verbatim>\<open>Maintain\<close> runs the snapshot expiry and then the orphan
  removal, also when the first fails, and reports an error exactly when one of them failed.
  \<^verbatim>\<open>Init\<close> creates the table only after the schema.
\<close>

theorem maintain_runs_both_steps:
  "\<exists>s1 s2. map snd (maintainSteps s thr) = [s1, s2] \<and>
     (case exec w s1 [] of (w1, e1) \<Rightarrow> case exec w1 s2 [] of (w2, e2) \<Rightarrow>
        fst (Maintain exec s w thr) = w2 \<and> (snd (Maintain exec s w thr) = None \<longleftrightarrow> e1 = None \<and> e2 = None)) \<and>
     (case exec w (SchemaDDL s) [] of
        (w1, None) \<Rightarrow> fst (Init exec s w) = fst (exec w1 (TableDDL s) [])
      | (w1, Some e) \<Rightarrow> Init exec s w = (w1, Some (Wrap ''create schema'' (ofDriver e))))"
  by (auto simp: maintainSteps_def Maintain_def execStep_def joinErrs_def Init_def Let_def
      split: prod.split option.split)

end
