(* ===== verification/GoQuote.thy ===== *)
theory GoQuote
  imports GoStrings
begin

text \<open>
  \<^verbatim>\<open>strconv.Quote\<close>, which \<^verbatim>\<open>fmt\<close> uses for \<^verbatim>\<open>%q\<close>: a string as a double-quoted Go literal. The
  Unicode table of printable runes is the parameter \<open>isPrint\<close>, asked only for
  runes outside ASCII; the result is shown to determine the string whatever the
  table says, also when other text follows it.
\<close>

section \<open>Operations\<close>

fun hexW :: "nat \<Rightarrow> nat \<Rightarrow> string" where
  "hexW 0 n = []"
| "hexW (Suc w) n = hexW w (n div 16) @ [hexLower (n mod 16)]"

text \<open>The code point of a well-formed group of bytes.\<close>

definition runeVal :: "string \<Rightarrow> nat" where
  "runeVal g =
     (case map byteVal g of
        [a] \<Rightarrow> a
      | [a, b] \<Rightarrow> (a mod 32) * 64 + b mod 64
      | [a, b, c] \<Rightarrow> (a mod 16) * 4096 + (b mod 64) * 64 + c mod 64
      | [a, b, c, d] \<Rightarrow> (a mod 8) * 262144 + (b mod 64) * 4096 + (c mod 64) * 64 + d mod 64
      | _ \<Rightarrow> 0)"

definition simpleEscape :: "nat \<rightharpoonup> char" where
  "simpleEscape = map_of [(34, CHR 0x22), (92, CHR 0x5C), (7, CHR ''a''), (8, CHR ''b''), (12, CHR ''f''),
     (10, CHR ''n''), (13, CHR ''r''), (9, CHR ''t''), (11, CHR ''v'')]"

text \<open>\<^verbatim>\<open>appendEscapedRune\<close>, and the escape of an ill-formed byte before it.\<close>

definition quoteRune :: "(nat \<Rightarrow> bool) \<Rightarrow> string \<Rightarrow> string" where
  "quoteRune isPrint g =
     (if length g = 1 then
        (let v = byteVal (hd g) in
         case simpleEscape v of
           Some e \<Rightarrow> [CHR 0x5C, e]
         | None \<Rightarrow> if 32 \<le> v \<and> v < 127 then g else [CHR 0x5C, CHR ''x''] @ hexW 2 v)
      else if isPrint (runeVal g) then g
      else if runeVal g < 65536 then [CHR 0x5C, CHR ''u''] @ hexW 4 (runeVal g)
      else [CHR 0x5C, CHR ''U''] @ hexW 8 (runeVal g))"

definition goQuote :: "(nat \<Rightarrow> bool) \<Rightarrow> string \<Rightarrow> string" where
  "goQuote isPrint s = [CHR 0x22] @ concat (map (quoteRune isPrint) (runes s)) @ [CHR 0x22]"

section \<open>Groups of bytes\<close>

text \<open>A group \<open>runes\<close> makes: one byte, or a whole well-formed rune of several.\<close>

definition runeGroup :: "string \<Rightarrow> bool" where
  "runeGroup g = (length g = 1 \<or> 1 < length g \<and> runeLen g = length g)"

lemma runes_groups: "list_all runeGroup (runes s)"
proof (induction s rule: runes.induct)
  case (1 s)
  show ?case
  proof (cases "s = []")
    case False
    let ?n = "max 1 (runeLen s)"
    have "runeGroup (take ?n s)"
    proof (cases "1 < runeLen s")
      case True
      then show ?thesis using runeLen_take [of s "runeLen s"] runeLen_le [of s] by (simp add: runeGroup_def)
    next
      case one: False
      then have "max 1 (runeLen s) = 1" by simp
      then show ?thesis using False by (cases s) (simp_all add: runeGroup_def)
    qed
    with 1 False show ?thesis by (subst runes.simps) (simp add: Let_def)
  qed simp
qed

text \<open>A group of several bytes starts with a byte that gives its length, at least 194.\<close>

lemma group_lead:
  assumes "runeGroup g" and "length g \<noteq> 1"
  shows "length g = leadLen (hd g) \<and> 2 \<le> length g \<and> length g \<le> 4 \<and> 194 \<le> byteVal (hd g) \<and> byteVal (hd g) \<le> 244"
proof -
  from assms have g: "1 < length g" "runeLen g = length g" by (auto simp: runeGroup_def)
  then obtain a t where t: "g = a # t" by (cases g) auto
  with g have "leadLen a = length g" by (auto simp: runeLen_def split: if_splits)
  with g(1) t show ?thesis by (auto simp: leadLen_def Let_def split: if_splits)
qed

lemma group_conts:
  assumes "runeGroup g" and "length g \<noteq> 1"
  shows "list_all contByte (tl g) \<and> secondOk (hd g) (hd (tl g))"
proof -
  from assms have g: "1 < length g" "runeLen g = length g" by (auto simp: runeGroup_def)
  then obtain a b t where t: "g = a # b # t" by (cases g; cases "tl g") auto
  with g have l: "leadLen a = Suc (Suc (length t))" by (auto simp: runeLen_def split: if_splits)
  with g t show ?thesis by (auto simp: runeLen_def split: if_splits)
qed

lemma contByte_iff: "contByte b \<longleftrightarrow> 128 \<le> byteVal b \<and> byteVal b < 192"
proof -
  have "byteVal b < 256" by simp
  then show ?thesis by (auto simp: runeStart_def)
qed

lemma mod_shift: "m * k \<le> a \<Longrightarrow> a < m * Suc k \<Longrightarrow> a mod m = a - m * (k :: nat)"
proof -
  assume "m * k \<le> a" "a < m * Suc k"
  then obtain r where "a = m * k + r" "r < m" by (auto simp: le_iff_add)
  then show ?thesis by simp
qed

lemma group_cases [consumes 2, case_names two three four]:
  assumes "runeGroup g" and "length g \<noteq> 1"
    and "\<And>a b. g = [a, b] \<Longrightarrow> 194 \<le> byteVal a \<Longrightarrow> byteVal a \<le> 223 \<Longrightarrow> contByte b \<Longrightarrow> P"
    and "\<And>a b c. g = [a, b, c] \<Longrightarrow> 224 \<le> byteVal a \<Longrightarrow> byteVal a \<le> 239 \<Longrightarrow> contByte b \<Longrightarrow> contByte c \<Longrightarrow>
      byteVal a = 224 \<longrightarrow> 160 \<le> byteVal b \<Longrightarrow> P"
    and "\<And>a b c d. g = [a, b, c, d] \<Longrightarrow> 240 \<le> byteVal a \<Longrightarrow> byteVal a \<le> 244 \<Longrightarrow> contByte b \<Longrightarrow> contByte c \<Longrightarrow>
      contByte d \<Longrightarrow> byteVal a = 240 \<longrightarrow> 144 \<le> byteVal b \<Longrightarrow> P"
  shows P
proof -
  note l = group_lead [OF assms(1,2)] and c = group_conts [OF assms(1,2)]
  from l obtain a t where g: "g = a # t" by (cases g) auto
  have ll: "Suc (length t) = leadLen a" "194 \<le> byteVal a" "byteVal a \<le> 244" using l g by auto
  consider (t2) "length t = 1" "byteVal a \<le> 223" | (t3) "length t = 2" "224 \<le> byteVal a" "byteVal a \<le> 239"
    | (t4) "length t = 3" "240 \<le> byteVal a"
    using ll by (auto simp: leadLen_def Let_def split: if_splits)
  then show P
  proof cases
    case t2
    then obtain b where "t = [b]" by (cases t) auto
    then show P using assms(3) [of a b] t2 ll c g by auto
  next
    case t3
    then obtain b d where "t = [b, d]" by (metis length_0_conv length_Suc_conv numeral_2_eq_2)
    then show P using assms(4) [of a b d] t3 c g by (auto simp: secondOk_def Let_def)
  next
    case t4
    then obtain b d e where "t = [b, d, e]" by (metis length_0_conv length_Suc_conv numeral_3_eq_3)
    then show P using assms(5) [of a b d e] t4 ll c g by (auto simp: secondOk_def Let_def)
  qed
qed

text \<open>The code point of a group, with the range its length gives.\<close>

lemma runeVal_two:
  "194 \<le> byteVal a \<Longrightarrow> byteVal a \<le> 223 \<Longrightarrow> contByte b \<Longrightarrow>
   runeVal [a, b] + 192 * 64 + 128 = byteVal a * 64 + byteVal b"
  using mod_shift [of 32 6 "byteVal a"] mod_shift [of 64 2 "byteVal b"] by (simp add: runeVal_def contByte_iff)

lemma runeVal_three:
  "224 \<le> byteVal a \<Longrightarrow> byteVal a \<le> 239 \<Longrightarrow> contByte b \<Longrightarrow> contByte c \<Longrightarrow>
   runeVal [a, b, c] + 224 * 4096 + 128 * 64 + 128 = byteVal a * 4096 + byteVal b * 64 + byteVal c"
  using mod_shift [of 16 14 "byteVal a"] mod_shift [of 64 2 "byteVal b"] mod_shift [of 64 2 "byteVal c"]
  by (simp add: runeVal_def contByte_iff diff_mult_distrib)

lemma runeVal_four:
  "240 \<le> byteVal a \<Longrightarrow> byteVal a \<le> 244 \<Longrightarrow> contByte b \<Longrightarrow> contByte c \<Longrightarrow> contByte d \<Longrightarrow>
   runeVal [a, b, c, d] + 240 * 262144 + 128 * 4096 + 128 * 64 + 128 =
     byteVal a * 262144 + byteVal b * 4096 + byteVal c * 64 + byteVal d"
  using mod_shift [of 8 30 "byteVal a"] mod_shift [of 64 2 "byteVal b"] mod_shift [of 64 2 "byteVal c"]
    mod_shift [of 64 2 "byteVal d"]
  by (simp add: runeVal_def contByte_iff diff_mult_distrib)

lemma runeVal_range:
  assumes "runeGroup g" and "length g \<noteq> 1"
  shows "(length g = 2 \<longrightarrow> runeVal g < 2048) \<and> (length g = 3 \<longrightarrow> 2048 \<le> runeVal g \<and> runeVal g < 65536) \<and>
    (length g = 4 \<longrightarrow> 65536 \<le> runeVal g \<and> runeVal g < 2097152)"
  using assms
proof (cases rule: group_cases)
  case (two a b)
  then show ?thesis using runeVal_two [of a b] by (simp add: contByte_iff)
next
  case (three a b c)
  then show ?thesis using runeVal_three [of a b c] by (cases "byteVal a = 224") (simp_all add: contByte_iff)
next
  case (four a b c d)
  then show ?thesis using runeVal_four [of a b c d] by (cases "byteVal a = 240") (simp_all add: contByte_iff)
qed

lemma byte_pair_inject: "b < 192 \<Longrightarrow> b' < 192 \<Longrightarrow> 128 \<le> b \<Longrightarrow> 128 \<le> b' \<Longrightarrow>
    a * 64 + b = a' * 64 + b' \<longleftrightarrow> a = a' \<and> b = (b' :: nat)"
  by (cases a a' rule: linorder_cases) auto

lemma byte_triple_inject:
  assumes "b < 192" "b' < 192" "128 \<le> b" "128 \<le> b'" "c < 192" "c' < 192" "128 \<le> c" "128 \<le> c'"
    and "a * 4096 + b * 64 + c = a' * 4096 + b' * 64 + (c' :: nat)"
  shows "a = a' \<and> b = b' \<and> c = c'"
proof -
  have "(a * 64 + b) * 64 + c = (a' * 64 + b') * 64 + c'" using assms(9) by (simp add: add_mult_distrib)
  then have "a * 64 + b = a' * 64 + b' \<and> c = c'" using byte_pair_inject assms(5-8) by metis
  then show ?thesis using byte_pair_inject assms(1-4) by metis
qed

lemma byte_quad_inject:
  assumes "b < 192" "b' < 192" "128 \<le> b" "128 \<le> b'" "c < 192" "c' < 192" "128 \<le> c" "128 \<le> c'"
    and "d < 192" "d' < 192" "128 \<le> d" "128 \<le> d'"
    and "a * 262144 + b * 4096 + c * 64 + d = a' * 262144 + b' * 4096 + c' * 64 + (d' :: nat)"
  shows "a = a' \<and> b = b' \<and> c = c' \<and> d = d'"
proof -
  have "(a * 4096 + b * 64 + c) * 64 + d = (a' * 4096 + b' * 64 + c') * 64 + d'"
    using assms(13) by (simp add: add_mult_distrib)
  then have "a * 4096 + b * 64 + c = a' * 4096 + b' * 64 + c' \<and> d = d'" using byte_pair_inject assms(9-12) by metis
  then show ?thesis using byte_triple_inject assms(1-8) by blast
qed

lemma runeVal_inject:
  assumes "runeGroup g" "length g \<noteq> 1" "runeGroup g'" "length g' \<noteq> 1" and eq: "runeVal g = runeVal g'"
  shows "g = g'"
proof -
  have len: "length g = length g'"
  proof -
    have "length g \<in> {2, 3, 4}" "length g' \<in> {2, 3, 4}"
      using group_lead [OF assms(1,2)] group_lead [OF assms(3,4)] by auto
    then show ?thesis using runeVal_range [OF assms(1,2)] runeVal_range [OF assms(3,4)] eq by auto
  qed
  show ?thesis using assms(1,2)
  proof (cases rule: group_cases)
    case (two a b)
    note 1 = two
    from assms(3,4) show ?thesis
    proof (cases rule: group_cases)
      case (two a' b')
      then show ?thesis using runeVal_two [of a b] runeVal_two [of a' b'] 1 eq
        byte_pair_inject [of "byteVal b" "byteVal b'" "byteVal a" "byteVal a'"] by (simp add: contByte_iff)
    qed (use len two in auto)
  next
    case (three a b c)
    note 1 = three
    from assms(3,4) show ?thesis
    proof (cases rule: group_cases)
      case (three a' b' c')
      then show ?thesis using runeVal_three [of a b c] runeVal_three [of a' b' c'] 1 eq
        byte_triple_inject [of "byteVal b" "byteVal b'" "byteVal c" "byteVal c'" "byteVal a" "byteVal a'"]
        by (simp add: contByte_iff)
    qed (use len three in auto)
  next
    case (four a b c d)
    note 1 = four
    from assms(3,4) show ?thesis
    proof (cases rule: group_cases)
      case (four a' b' c' d')
      then show ?thesis using runeVal_four [of a b c d] runeVal_four [of a' b' c' d'] 1 eq
        byte_quad_inject [of "byteVal b" "byteVal b'" "byteVal c" "byteVal c'" "byteVal d" "byteVal d'"
          "byteVal a" "byteVal a'"] by (simp add: contByte_iff)
    qed (use len four in auto)
  qed
qed

section \<open>Quoting determines the string\<close>

lemma length_hexW [simp]: "length (hexW w n) = w"
  by (induction w arbitrary: n) auto

lemma hexW_inject: "n < 16 ^ w \<Longrightarrow> n' < 16 ^ w \<Longrightarrow> hexW w n = hexW w n' \<longleftrightarrow> n = n'"
proof (induction w arbitrary: n n')
  case (Suc w)
  have "hexW (Suc w) n = hexW (Suc w) n' \<longleftrightarrow> n div 16 = n' div 16 \<and> n mod 16 = n' mod 16"
    using Suc.IH [of "n div 16" "n' div 16"] Suc.prems by (simp add: hexLower_inject less_mult_imp_div_less mult.commute)
  then show ?case by (metis div_mult_mod_eq)
qed simp

lemma quoteRune_cases [consumes 1, case_names plain simple hexByte printed short long]:
  assumes "runeGroup g"
    and "\<And>c. g = [c] \<Longrightarrow> quoteRune P g = [c] \<Longrightarrow> byteVal c < 127 \<Longrightarrow> c \<noteq> CHR 0x22 \<Longrightarrow> c \<noteq> CHR 0x5C \<Longrightarrow> R"
    and "\<And>c e. g = [c] \<Longrightarrow> quoteRune P g = [CHR 0x5C, e] \<Longrightarrow> simpleEscape (byteVal c) = Some e \<Longrightarrow> R"
    and "\<And>c. g = [c] \<Longrightarrow> quoteRune P g = [CHR 0x5C, CHR ''x''] @ hexW 2 (byteVal c) \<Longrightarrow> R"
    and "length g \<noteq> 1 \<Longrightarrow> quoteRune P g = g \<Longrightarrow> R"
    and "length g \<noteq> 1 \<Longrightarrow> runeVal g < 65536 \<Longrightarrow> quoteRune P g = [CHR 0x5C, CHR ''u''] @ hexW 4 (runeVal g) \<Longrightarrow> R"
    and "length g \<noteq> 1 \<Longrightarrow> quoteRune P g = [CHR 0x5C, CHR ''U''] @ hexW 8 (runeVal g) \<Longrightarrow> R"
  shows R
proof (cases "length g = 1")
  case True
  then obtain c where g: "g = [c]" by (auto simp: length_Suc_conv)
  show R
  proof (cases "simpleEscape (byteVal c)")
    case None
    then have "c \<noteq> CHR 0x22" "c \<noteq> CHR 0x5C" by (auto simp: simpleEscape_def)
    then show R using None g assms(2) [of c] assms(4) [of c]
      by (cases "32 \<le> byteVal c \<and> byteVal c < 127") (auto simp: quoteRune_def Let_def)
  qed (use g assms(3) in \<open>auto simp: quoteRune_def\<close>)
next
  case False
  then have q: "quoteRune P g = (if P (runeVal g) then g
      else if runeVal g < 65536 then [CHR 0x5C, CHR ''u''] @ hexW 4 (runeVal g)
      else [CHR 0x5C, CHR ''U''] @ hexW 8 (runeVal g))" by (simp add: quoteRune_def)
  show R using assms(5-7) [OF False] unfolding q
    by (cases "P (runeVal g)"; cases "runeVal g < 65536") simp_all
qed

lemma simpleEscape_facts:
  "simpleEscape v = Some e \<Longrightarrow> e \<noteq> CHR ''x'' \<and> e \<noteq> CHR ''u'' \<and> e \<noteq> CHR ''U''"
  "simpleEscape v = Some e \<Longrightarrow> simpleEscape v' = Some e \<Longrightarrow> v = v'"
  by (auto simp: simpleEscape_def split: if_splits)

text \<open>The length of a code can be read off its first two bytes.\<close>

definition codeLen :: "string \<Rightarrow> nat" where
  "codeLen s =
     (case s of
        a # t \<Rightarrow>
          if a = CHR 0x5C then (case t of b # u \<Rightarrow> if b = CHR ''x'' then 4 else if b = CHR ''u'' then 6
                                   else if b = CHR ''U'' then 10 else 2 | [] \<Rightarrow> 2)
          else leadLen a
      | [] \<Rightarrow> 0)"

lemma multi_hd: "runeGroup g \<Longrightarrow> length g \<noteq> 1 \<Longrightarrow> \<exists>a t. g = a # t \<and> leadLen a = length g \<and> 194 \<le> byteVal a"
  using group_lead [of g] by (cases g) auto

lemma codeLen_quoteRune: "runeGroup g \<Longrightarrow> codeLen (quoteRune P g @ x) = length (quoteRune P g)"
proof -
  assume g: "runeGroup g"
  then show ?thesis
  proof (cases rule: quoteRune_cases [where P = P])
    case (plain c)
    then show ?thesis by (simp add: codeLen_def leadLen_def)
  next
    case (simple c e)
    then show ?thesis using simpleEscape_facts(1) by (simp add: codeLen_def)
  next
    case printed
    then obtain a t where "g = a # t" "leadLen a = length g" "194 \<le> byteVal a" using multi_hd [OF g] by blast
    then show ?thesis using printed by (auto simp: codeLen_def)
  qed (simp_all add: codeLen_def)
qed

lemma quoteRune_inject:
  assumes g: "runeGroup g" and g': "runeGroup g'" and eq: "quoteRune P g = quoteRune P g'"
  shows "g = g'"
  using g
proof (cases rule: quoteRune_cases [where P = P])
  case (plain c)
  note 1 = plain
  show ?thesis using g'
  proof (cases rule: quoteRune_cases [where P = P])
    case printed
    then show ?thesis using 1 eq by simp
  qed (use 1 eq in auto)
next
  case (simple c e)
  note 1 = simple
  show ?thesis using g'
  proof (cases rule: quoteRune_cases [where P = P])
    case (simple c' e')
    then have "byteVal c = byteVal c'" using 1 eq simpleEscape_facts(2) by (metis list.inject)
    then show ?thesis using 1 simple by simp
  next
    case printed
    then show ?thesis using 1 eq multi_hd [OF g'] by auto
  qed (use 1 eq simpleEscape_facts(1) in auto)
next
  case (hexByte c)
  note 1 = hexByte
  have b: "byteVal a < 16 ^ 2" for a by simp
  show ?thesis using g'
  proof (cases rule: quoteRune_cases [where P = P])
    case (hexByte c')
    then have "byteVal c = byteVal c'" using 1 eq hexW_inject [OF b b] by simp
    then show ?thesis using 1 hexByte by simp
  next
    case printed
    then show ?thesis using 1 eq multi_hd [OF g'] by auto
  qed (use 1 eq simpleEscape_facts(1) in auto)
next
  case printed
  note 1 = printed
  obtain a t where a: "g = a # t" "194 \<le> byteVal a" using multi_hd [OF g printed(1)] by blast
  show ?thesis using g'
    by (cases rule: quoteRune_cases [where P = P]) (use 1 eq a in auto)
next
  case short
  note 1 = short
  have b: "runeVal x < 65536 \<Longrightarrow> runeVal x < 16 ^ 4" for x by simp
  show ?thesis using g'
  proof (cases rule: quoteRune_cases [where P = P])
    case short
    then have "runeVal g = runeVal g'" using 1 eq hexW_inject [OF b b] by simp
    then show ?thesis using runeVal_inject [OF g 1(1) g' short(1)] by simp
  next
    case printed
    then show ?thesis using 1 eq multi_hd [OF g'] by auto
  qed (use 1 eq simpleEscape_facts(1) in auto)
next
  case long
  note 1 = long
  have b: "runeGroup x \<Longrightarrow> length x \<noteq> 1 \<Longrightarrow> runeVal x < 16 ^ 8" for x
  proof -
    assume x: "runeGroup x" "length x \<noteq> 1"
    have "length x = 2 \<or> length x = 3 \<or> length x = 4" using group_lead [OF x] by linarith
    then have "runeVal x < 2097152" using runeVal_range [OF x] by linarith
    then show ?thesis by simp
  qed
  show ?thesis using g'
  proof (cases rule: quoteRune_cases [where P = P])
    case long
    then have "hexW 8 (runeVal g) = hexW 8 (runeVal g')" using 1(2) eq by (metis same_append_eq)
    then have "runeVal g = runeVal g'" using hexW_inject [OF b [OF g 1(1)] b [OF g' long(1)]] by blast
    then show ?thesis by (rule runeVal_inject [OF g 1(1) g' long(1)])
  next
    case printed
    then show ?thesis using 1 eq multi_hd [OF g'] by auto
  qed (use 1 eq simpleEscape_facts(1) in auto)
qed

lemma quoteRune_prefix:
  assumes "runeGroup g" "runeGroup g'" and eq: "quoteRune P g @ x = quoteRune P g' @ y"
  shows "g = g' \<and> x = y"
proof -
  have "length (quoteRune P g) = length (quoteRune P g')"
    using codeLen_quoteRune [OF assms(1), of P x] codeLen_quoteRune [OF assms(2), of P y] eq by simp
  then show ?thesis using eq quoteRune_inject [OF assms(1,2), of P] by simp
qed

lemma quoteRune_hd:
  assumes "runeGroup g"
  shows "\<exists>c t. quoteRune P g = c # t \<and> c \<noteq> CHR 0x22"
  using assms
proof (cases rule: quoteRune_cases [where P = P])
  case printed
  then show ?thesis using multi_hd [OF assms] by auto
qed auto

lemma quoteRunes_prefix:
  assumes "list_all runeGroup gs" and "list_all runeGroup hs"
    and "concat (map (quoteRune P) gs) @ CHR 0x22 # x = concat (map (quoteRune P) hs) @ CHR 0x22 # y"
  shows "gs = hs \<and> x = y"
  using assms
proof (induction gs arbitrary: hs)
  case Nil
  then show ?case using quoteRune_hd [of "hd hs" P] by (cases hs) auto
next
  case (Cons g gs)
  show ?case
  proof (cases hs)
    case Nil
    then show ?thesis using quoteRune_hd [of g P] Cons.prems by auto
  next
    case (Cons h hs')
    then have "g = h \<and> concat (map (quoteRune P) gs) @ CHR 0x22 # x = concat (map (quoteRune P) hs') @ CHR 0x22 # y"
      using quoteRune_prefix [of g h P] Cons.prems by simp
    then show ?thesis using Cons.IH [of hs'] Cons.prems Cons by simp
  qed
qed

text \<open>Two literals that start the same text are literals of the same string.\<close>

lemma goQuote_prefix: "goQuote P s @ x = goQuote P t @ y \<longleftrightarrow> s = t \<and> x = y"
proof
  assume "goQuote P s @ x = goQuote P t @ y"
  then have "runes s = runes t \<and> x = y"
    using quoteRunes_prefix [OF runes_groups runes_groups, of P s x t y] by (simp add: goQuote_def)
  then show "s = t \<and> x = y" by (metis concat_runes)
qed simp

lemma goQuote_inject [simp]: "goQuote P s = goQuote P t \<longleftrightarrow> s = t"
  using goQuote_prefix [of P s "[]" t "[]"] by simp

lemma goQuote_example: "goQuote P [CHR ''a'', CHR 0x22, CHR 0x0A] =
    [CHR 0x22, CHR ''a'', CHR 0x5C, CHR 0x22, CHR 0x5C, CHR ''n'', CHR 0x22]"
proof -
  have "runes [CHR ''a'', CHR 0x22, CHR 0x0A] = [[CHR ''a''], [CHR 0x22], [CHR 0x0A]]"
    by (simp add: runes.simps runeLen_def leadLen_def Let_def)
  then show ?thesis by (simp add: goQuote_def quoteRune_def simpleEscape_def)
qed

end
