(* ===== verification/ClickHouseRead.thy ===== *)
theory ClickHouseRead
  imports ClickHouse TrinoRead GoQuote
begin

text \<open>
  The ClickHouse backend, reading and pruning (\<^verbatim>\<open>store/clickhouse.go\<close>): statements with typed
  query parameters, the escaping of string parameters, readiness probes and the
  partition drop. \<^verbatim>\<open>clickhouse.Parameters\<close> is the list of the pairs that were set.
\<close>

section \<open>Query parameters\<close>

text \<open>\<^verbatim>\<open>clickhouseTSVEscaper\<close>: every pattern is one byte, so it works byte by byte.\<close>

definition escapeByte :: "char \<Rightarrow> string" where
  "escapeByte c =
     (let bs = CHR 0x5C
      in if c = bs then [bs, bs] else if c = CHR 0x0A then [bs, CHR ''n''] else if c = CHR 0x09 then [bs, CHR ''t'']
         else if c = CHR 0x0D then [bs, CHR ''r''] else if c = CHR 0x00 then [bs, CHR ''0'']
         else if c = CHR 0x08 then [bs, CHR ''b''] else if c = CHR 0x0C then [bs, CHR ''f''] else [c])"

definition clickhouseParamValue :: "string \<Rightarrow> string" where
  "clickhouseParamValue s = concat (map escapeByte s)"

text \<open>The placeholder of a parameter and the value it sets.\<close>

fun clickhouseParam :: "string \<Rightarrow> arg \<Rightarrow> string \<times> string" where
  "clickhouseParam nm (ATime t) = (''{'' @ nm @ '':'' @ clickhouseTimestampType @ ''}'', fmtMicro t)"
| "clickhouseParam nm (AInt n) = (''{'' @ nm @ '':Int64}'', itoa n)"
| "clickhouseParam nm (AStr v) = (''{'' @ nm @ '':String}'', clickhouseParamValue v)"
| "clickhouseParam nm ANil = (''{'' @ nm @ '':String}'', clickhouseParamValue ''<nil>'')"

definition paramName :: "nat \<Rightarrow> string" where
  "paramName i = ''p'' @ itoa (int i)"

definition clickhouseWhere :: "predicate list \<Rightarrow> string \<times> (string \<times> string) list" where
  "clickhouseWhere preds =
     (if length preds = 0 then ('''', [])
      else
        ('' WHERE '' @ joinS (map (\<lambda>(i, p). quoteIdent (p_column p) @ '' '' @ p_op p @ '' '' @
             fst (clickhouseParam (paramName i) (p_value p))) (enumerate 0 preds)) '' AND '',
         map (\<lambda>(i, p). (paramName i, snd (clickhouseParam (paramName i) (p_value p)))) (enumerate 0 preds)))"

section \<open>Reading\<close>

definition chListStmt :: "ClickHouseStore \<Rightarrow> QueryFilter \<Rightarrow> string" where
  "chListStmt s f =
     cs_summarySelect s @ fst (clickhouseWhere (listPredicates f)) @ '' ORDER BY '' @ orderBy f @
     '' LIMIT '' @ itoa (pageLimit f) @ (if 0 < qf_Offset f then '' OFFSET '' @ itoa (qf_Offset f) else '''')"

definition chListQueries :: "'w chConn \<Rightarrow> (arg list \<Rightarrow> err) \<Rightarrow> ClickHouseStore \<Rightarrow> 'w \<Rightarrow> QueryFilter \<Rightarrow>
    'w \<times> (err + QuerySummary list)" where
  "chListQueries conn serr s w f =
     (case chQuery conn w (chListStmt s f) (snd (clickhouseWhere (listPredicates f))) of
        (w, Inl e) \<Rightarrow> (w, Inl (Wrap ''list queries'' (ofDriver e)))
      | (w, Inr (rows, e)) \<Rightarrow> (w, withRowsErr (scanAll scanSummary serr ''scan summary'' rows []) e))"

definition chGetStmt :: "ClickHouseStore \<Rightarrow> predicate list \<Rightarrow> string" where
  "chGetStmt s preds = cs_rowSelect s @ fst (clickhouseWhere preds) @ '' LIMIT 1''"

definition chGetQuery :: "'w chConn \<Rightarrow> (arg list \<Rightarrow> err) \<Rightarrow> ClickHouseStore \<Rightarrow> 'w \<Rightarrow> string \<Rightarrow>
    'w \<times> (err + Row option)" where
  "chGetQuery conn serr s w queryID =
     (case queryIDPredicates queryID of
        None \<Rightarrow> (w, Inr None)
      | Some preds \<Rightarrow>
          (case chQuery conn w (chGetStmt s preds) (snd (clickhouseWhere preds)) of
             (w, Inl e) \<Rightarrow> (w, Inl (Wrap (''get query '' @ queryID) (ofDriver e)))
           | (w, Inr ([], e)) \<Rightarrow> (w, withRowsErr (Inr None) e)
           | (w, Inr (v # vs, e)) \<Rightarrow>
               (w, case scanRow v of None \<Rightarrow> Inl (Wrap ''scan row'' (serr v)) | Some r \<Rightarrow> Inr (Some r))))"

text \<open>\<^verbatim>\<open>discard\<close> reads the result to its end and reports its error.\<close>

definition chDiscard :: "'w chConn \<Rightarrow> 'w \<Rightarrow> string \<Rightarrow> string \<Rightarrow> 'w \<times> err option" where
  "chDiscard conn w stmt what =
     (case chQuery conn w stmt [] of
        (w, Inl e) \<Rightarrow> (w, Some (Wrap what (ofDriver e)))
      | (w, Inr (rows, Some e)) \<Rightarrow> (w, Some (Wrap what (ofDriver e)))
      | (w, Inr (rows, None)) \<Rightarrow> (w, None))"

definition chValidate :: "'w chConn \<Rightarrow> 'w \<Rightarrow> 'w \<times> err option" where
  "chValidate conn w = chDiscard conn w ''SELECT 1'' ''clickhouse not reachable''"

definition chValidateTable :: "'w chConn \<Rightarrow> ClickHouseStore \<Rightarrow> 'w \<Rightarrow> 'w \<times> err option" where
  "chValidateTable conn s w =
     chDiscard conn w (''SELECT 1 FROM '' @ cs_table s @ '' WHERE 0'')
       (''query log table '' @ cs_table s @
        '' not reachable; apply the DDL (init subcommand or ddl/clickhouse_query_log.sql)'')"

section \<open>Pruning\<close>

definition partitionID :: "time \<Rightarrow> string" where
  "partitionID day = fmtDay day"

definition partitionIDPattern :: "string \<Rightarrow> bool" where
  "partitionIDPattern s = (length s = 8 \<and> list_all isDigit s)"

definition dropPartitionStmt :: "string \<Rightarrow> string \<Rightarrow> string" where
  "dropPartitionStmt table i =
     ''ALTER TABLE '' @ table @ '' DROP PARTITION ID '' @ [CHR 0x27] @ i @ [CHR 0x27]"

definition partsWhere :: "ClickHouseStore \<Rightarrow> time \<Rightarrow> string \<times> (string \<times> string) list" where
  "partsWhere s cutoff = clickhouseWhere
     [pred ''database'' ''='' (AStr (ch_Database (cs_cfg s))), pred ''table'' ''='' (AStr (ch_Table (cs_cfg s))),
      pred ''partition_id'' ''<'' (AStr (partitionID cutoff))]"

definition partsStmt :: "ClickHouseStore \<Rightarrow> time \<Rightarrow> string" where
  "partsStmt s cutoff =
     ''SELECT DISTINCT partition_id FROM system.parts'' @ fst (partsWhere s cutoff) @
     '' AND active ORDER BY partition_id''"

text \<open>\<^verbatim>\<open>rows.Scan(&id)\<close> and the check of the id; \<open>serr\<close> is the error of a row that does not scan,
  \<open>ip\<close> is \<^verbatim>\<open>strconv.IsPrint\<close>.\<close>

fun scanIds :: "(nat \<Rightarrow> bool) \<Rightarrow> (arg list \<Rightarrow> err) \<Rightarrow> arg list list \<Rightarrow> string list \<Rightarrow> err + string list" where
  "scanIds ip serr [] ids = Inr ids"
| "scanIds ip serr (v # vs) ids =
     (case v of
        [AStr i] \<Rightarrow>
          if \<not> partitionIDPattern i then Inl (EOther (''unexpected partition id '' @ goQuote ip i))
          else scanIds ip serr vs (ids @ [i])
      | _ \<Rightarrow> Inl (serr v))"

definition partitionsBefore :: "(nat \<Rightarrow> bool) \<Rightarrow> 'w chConn \<Rightarrow> (arg list \<Rightarrow> err) \<Rightarrow> ClickHouseStore \<Rightarrow> 'w \<Rightarrow> time \<Rightarrow>
    'w \<times> (err + string list)" where
  "partitionsBefore ip conn serr s w cutoff =
     (case chQuery conn w (partsStmt s cutoff) (snd (partsWhere s cutoff)) of
        (w, Inl e) \<Rightarrow> (w, Inl (ofDriver e))
      | (w, Inr (rows, e)) \<Rightarrow> (w, withRowsErr (scanIds ip serr rows []) e))"

fun dropAll :: "'w chConn \<Rightarrow> ClickHouseStore \<Rightarrow> 'w \<Rightarrow> string list \<Rightarrow> 'w \<times> err option" where
  "dropAll conn s w [] = (w, None)"
| "dropAll conn s w (i # ids) =
     (case chStep conn w (dropPartitionStmt (cs_table s) i) (''drop partition '' @ i) of
        (w, Some e) \<Rightarrow> (w, Some e)
      | (w, None) \<Rightarrow> dropAll conn s w ids)"

definition chPrune :: "(nat \<Rightarrow> bool) \<Rightarrow> 'w chConn \<Rightarrow> (arg list \<Rightarrow> err) \<Rightarrow> ClickHouseStore \<Rightarrow> 'w \<Rightarrow> time \<Rightarrow> 'w \<times> err option" where
  "chPrune ip conn serr s w olderThan =
     (case partitionsBefore ip conn serr s w olderThan of
        (w, Inl e) \<Rightarrow> (w, Some (Wrap (''prune rows older than '' @ fmtRFC3339 olderThan) e))
      | (w, Inr ids) \<Rightarrow> dropAll conn s w ids)"

definition chOptimize :: "'w \<Rightarrow> time \<Rightarrow> 'w \<times> err option" where "chOptimize w t = (w, None)"
definition chMaintain :: "'w \<Rightarrow> string \<Rightarrow> 'w \<times> err option" where "chMaintain w thr = (w, None)"

section \<open>Reading a parameter back\<close>

text \<open>How ClickHouse reads a tab-separated value: a backslash introduces an escape.\<close>

fun unescapeTSV :: "string \<Rightarrow> string option" where
  "unescapeTSV [] = Some []"
| "unescapeTSV (c # s) =
     (if c = CHR 0x09 \<or> c = CHR 0x0A then None
      else if c \<noteq> CHR 0x5C then map_option ((#) c) (unescapeTSV s)
      else case s of
        [] \<Rightarrow> None
      | d # t \<Rightarrow>
          map_option ((#) (if d = CHR ''n'' then CHR 0x0A else if d = CHR ''t'' then CHR 0x09
            else if d = CHR ''r'' then CHR 0x0D else if d = CHR ''0'' then CHR 0x00
            else if d = CHR ''b'' then CHR 0x08 else if d = CHR ''f'' then CHR 0x0C else d)) (unescapeTSV t))"

lemma unescape_escapeByte: "unescapeTSV (escapeByte c @ s) = map_option ((#) c) (unescapeTSV s)"
  by (simp add: escapeByte_def Let_def)

lemma unescape_paramValue: "unescapeTSV (clickhouseParamValue s) = Some s"
  by (induction s) (simp_all add: clickhouseParamValue_def unescape_escapeByte)

lemma paramName_inject: "paramName i = paramName j \<longleftrightarrow> i = j"
  by (simp add: paramName_def itoa_inject)

section \<open>Properties\<close>

text \<open>
  C35. A string parameter arrives unchanged: reading the escaped value back by the rules of
  the tab-separated format gives exactly the requested string, whatever bytes it has.
\<close>

theorem clickhouse_param_roundtrip:
  "snd (clickhouseParam nm (AStr s)) = clickhouseParamValue s \<and> unescapeTSV (clickhouseParamValue s) = Some s"
  by (simp add: unescape_paramValue)

text \<open>
  The values of a ClickHouse statement travel only as parameters: the text depends on
  the columns, operators and types of the predicates alone, every parameter has its own
  name, and there is one per predicate.
\<close>

theorem clickhouse_text_independent_of_values:
  assumes "map (\<lambda>p. (p_column p, p_op p)) ps = map (\<lambda>p. (p_column p, p_op p)) qs"
    and "list_all2 (\<lambda>p q. fst (clickhouseParam '''' (p_value p)) = fst (clickhouseParam '''' (p_value q))) ps qs"
  shows "fst (clickhouseWhere ps) = fst (clickhouseWhere qs) \<and>
    distinct (map fst (snd (clickhouseWhere ps))) \<and> length (snd (clickhouseWhere ps)) = length ps"
proof -
  have len: "length ps = length qs" using assms(1) by (rule map_eq_imp_length_eq)
  have ty: "fst (clickhouseParam nm v) = fst (clickhouseParam nm u)"
    if "fst (clickhouseParam '''' v) = fst (clickhouseParam '''' u)" for nm v u
    using that by (cases v; cases u; simp add: clickhouseTimestampType_def)
  have "map (\<lambda>(i, p). quoteIdent (p_column p) @ '' '' @ p_op p @ '' '' @ fst (clickhouseParam (paramName i) (p_value p)))
        (enumerate n ps) =
      map (\<lambda>(i, p). quoteIdent (p_column p) @ '' '' @ p_op p @ '' '' @ fst (clickhouseParam (paramName i) (p_value p)))
        (enumerate n qs)" for n
    using len assms by (induction ps qs arbitrary: n rule: list_induct2) (auto intro: ty)
  moreover have "distinct (map (\<lambda>(i, p). paramName i) (enumerate n ps))" for n
  proof -
    have "map (\<lambda>(i, p). paramName i) (enumerate n ps) = map paramName (map fst (enumerate n ps))"
      unfolding case_prod_unfold map_map comp_def ..
    then show ?thesis by (simp add: distinct_map inj_on_def paramName_inject)
  qed
  ultimately show ?thesis using len by (simp add: clickhouseWhere_def case_prod_unfold comp_def)
qed

theorem clickhouse_text_independent_of_values_witness:
  "fst (clickhouseWhere [pred ''user_name'' ''='' (AStr ''a'')]) = fst (clickhouseWhere [pred ''user_name'' ''='' (AStr ''b'')])"
  using clickhouse_text_independent_of_values [of "[pred ''user_name'' ''='' (AStr ''a'')]" "[pred ''user_name'' ''='' (AStr ''b'')]"]
  by (simp add: pred_def)

end
