(* ===== verification/Retention.thy ===== *)
theory Retention
  imports ClickHouseRead
begin

text \<open>
  Retention: package \<^verbatim>\<open>prune\<close> and the compaction window of \<^verbatim>\<open>main.go\<close>. The cutoff is always
  a UTC midnight, which makes the two backends' ways of pruning, a row-wise delete and the
  dropping of whole day partitions, remove the same rows.
\<close>

section \<open>Operations\<close>

definition startOfUTCDay :: "time \<Rightarrow> time" where
  "startOfUTCDay t = (case civil (dayOf t) of (y, m, d) \<Rightarrow> dateUTC y m d)"

definition partitionAlignedCutoff :: "time \<Rightarrow> int \<Rightarrow> time" where
  "partitionAlignedCutoff now retentionDays = addDays (startOfUTCDay now) (- retentionDays)"

text \<open>\<^verbatim>\<open>Run\<close>: \<open>prune\<close> is the store's \<^verbatim>\<open>Prune\<close>.\<close>

definition Run :: "('w \<Rightarrow> time \<Rightarrow> 'w \<times> err option) \<Rightarrow> 'w \<Rightarrow> int \<Rightarrow> time \<Rightarrow> 'w \<times> err option" where
  "Run prune w retentionDays now =
     (if retentionDays < 0 then (w, Some (EOther (''retentionDays must be >= 0, got '' @ itoa retentionDays)))
      else
        (case prune w (partitionAlignedCutoff now retentionDays) of
           (w, Some e) \<Rightarrow> (w, Some (Wrap ''prune'' e))
         | (w, None) \<Rightarrow> (w, None)))"

definition optimizeWindowStart :: "time \<Rightarrow> int \<Rightarrow> time" where
  "optimizeWindowStart now optimizeDaysIncludingToday =
     (let daysCovered = (if optimizeDaysIncludingToday < 1 then 1 else optimizeDaysIncludingToday);
          startOfToday = (case civil (dayOf now) of (y, m, d) \<Rightarrow> dateUTC y m d)
      in addDays startOfToday (- (daysCovered - 1)))"

section \<open>Midnights\<close>

lemma startOfUTCDay_eq: "startOfUTCDay t = dayOf t * dayNs"
  using dateUTC_civil by (auto simp: startOfUTCDay_def split: prod.split)

lemma cutoff_eq: "partitionAlignedCutoff now n = (dayOf now - n) * dayNs"
  by (simp add: partitionAlignedCutoff_def startOfUTCDay_eq addDays_eq algebra_simps)

lemma dayOf_midnight [simp]: "dayOf (d * dayNs) = d"
  by (simp add: dayOf_def dayNs_def)

lemma before_midnight: "t < d * dayNs \<longleftrightarrow> dayOf t < d"
proof -
  have pos: "0 < dayNs" by (simp add: dayNs_def)
  have b: "dayNs * dayOf t \<le> t" "t < dayNs * dayOf t + dayNs"
    using div_bounds [OF pos, of t] by (simp_all add: dayOf_def)
  show ?thesis
  proof
    assume "t < d * dayNs"
    then have "dayNs * dayOf t < dayNs * d" using b(1) by (simp add: mult.commute)
    then show "dayOf t < d" using pos by simp
  next
    assume "dayOf t < d"
    then have "dayNs * (dayOf t + 1) \<le> dayNs * d" using pos by (intro mult_left_mono) simp_all
    then show "t < d * dayNs" using b(2) by (simp add: algebra_simps)
  qed
qed

section \<open>The rows a prune removes\<close>

text \<open>
  What the two databases promise, on a state \<open>w\<close> with rows \<open>tbl w\<close>. Trino: the delete statement
  removes the rows created before its argument. ClickHouse: the listing gives the ids of the
  day partitions below the bound, and dropping a partition removes the rows of that day.
\<close>

definition trinoDeletes :: "'w execFn \<Rightarrow> TrinoStore \<Rightarrow> ('w \<Rightarrow> Row list) \<Rightarrow> bool" where
  "trinoDeletes exec s tbl \<longleftrightarrow> (\<forall>w t. \<exists>w'. exec w (pruneStmt s) [ATime t] = (w', None) \<and>
     tbl w' = filter (\<lambda>r. \<not> CreateTime r < t) (tbl w))"

definition clickhouseLists :: "'w chConn \<Rightarrow> ClickHouseStore \<Rightarrow> ('w \<Rightarrow> Row list) \<Rightarrow> bool" where
  "clickhouseLists conn s tbl \<longleftrightarrow> (\<forall>w t. \<exists>ids.
     chQuery conn w (partsStmt s t) (snd (partsWhere s t)) = (w, Inr (map (\<lambda>i. [AStr i]) ids, None)) \<and>
     set ids = {i. i \<in> (\<lambda>r. partitionID (CreateTime r)) ` set (tbl w) \<and> strLt i (partitionID t)})"

definition clickhouseDrops :: "'w chConn \<Rightarrow> ClickHouseStore \<Rightarrow> ('w \<Rightarrow> Row list) \<Rightarrow> bool" where
  "clickhouseDrops conn s tbl \<longleftrightarrow> (\<forall>w i. \<exists>w'.
     chExec conn w (dropPartitionStmt (cs_table s) i) = (w', None) \<and>
     tbl w' = filter (\<lambda>r. partitionID (CreateTime r) \<noteq> i) (tbl w))"

lemma dropAll_rows:
  assumes "clickhouseDrops conn s tbl"
  shows "\<exists>w'. dropAll conn s w ids = (w', None) \<and>
    tbl w' = filter (\<lambda>r. partitionID (CreateTime r) \<notin> set ids) (tbl w)"
proof (induction ids arbitrary: w)
  case (Cons i ids)
  obtain w1 where w1: "chExec conn w (dropPartitionStmt (cs_table s) i) = (w1, None)"
    "tbl w1 = filter (\<lambda>r. partitionID (CreateTime r) \<noteq> i) (tbl w)"
    using assms unfolding clickhouseDrops_def by blast
  obtain w' where "dropAll conn s w1 ids = (w', None)"
    "tbl w' = filter (\<lambda>r. partitionID (CreateTime r) \<notin> set ids) (tbl w1)" using Cons.IH by blast
  with w1 show ?case by (auto simp: chStep_def intro: filter_cong)
qed simp

lemma scanIds_ids:
  "list_all partitionIDPattern ids \<Longrightarrow> scanIds ip serr (map (\<lambda>i. [AStr i]) ids) acc = Inr (acc @ ids)"
  by (induction ids arbitrary: acc) auto

lemma chPrune_rows:
  assumes "clickhouseLists conn s tbl" and "clickhouseDrops conn s tbl"
    and "\<And>r. r \<in> set (tbl w) \<Longrightarrow> year4 (CreateTime r)" and "year4 (d * dayNs)"
  shows "\<exists>w'. chPrune ip conn serr s w (d * dayNs) = (w', None) \<and>
    tbl w' = filter (\<lambda>r. \<not> CreateTime r < d * dayNs) (tbl w)"
proof -
  obtain ids where q: "chQuery conn w (partsStmt s (d * dayNs)) (snd (partsWhere s (d * dayNs))) =
      (w, Inr (map (\<lambda>i. [AStr i]) ids, None))"
    and ids: "set ids = {i. i \<in> (\<lambda>r. partitionID (CreateTime r)) ` set (tbl w) \<and> strLt i (partitionID (d * dayNs))}"
    using assms(1) unfolding clickhouseLists_def by blast
  have "list_all partitionIDPattern ids"
    using ids assms(3) fmtDay_digits by (auto simp: list_all_iff partitionIDPattern_def partitionID_def)
  then have "partitionsBefore ip conn serr s w (d * dayNs) = (w, Inr ids)"
    by (simp add: partitionsBefore_def q scanIds_ids withRowsErr_def)
  moreover obtain w' where "dropAll conn s w ids = (w', None)"
    "tbl w' = filter (\<lambda>r. partitionID (CreateTime r) \<notin> set ids) (tbl w)"
    using dropAll_rows [OF assms(2)] by blast
  moreover have "partitionID (CreateTime r) \<in> set ids \<longleftrightarrow> CreateTime r < d * dayNs" if "r \<in> set (tbl w)" for r
  proof -
    have "partitionID (CreateTime r) \<in> set ids \<longleftrightarrow> strLt (partitionID (CreateTime r)) (partitionID (d * dayNs))"
      using that unfolding ids by blast
    also have "\<dots> \<longleftrightarrow> CreateTime r < d * dayNs"
      using that assms(3,4) strLt_fmtDay [of "CreateTime r" "d * dayNs"]
      by (simp add: partitionID_def before_midnight)
    finally show ?thesis .
  qed
  ultimately show ?thesis by (auto simp: chPrune_def intro!: filter_cong)
qed

section \<open>Properties\<close>

text \<open>
  Both backends prune the same rows: given what the databases promise of the statements,
  a retention run keeps exactly the rows created at or after the UTC midnight
  \<open>retentionDays\<close> days before today, with Trino's row-wise delete and with ClickHouse's
  partition drop alike (for the years the partition ids can name).
\<close>

theorem prune_backends_agree:
  assumes "0 \<le> n" and "trinoDeletes exec ts ttbl" and "clickhouseLists conn cs ctbl"
    and "clickhouseDrops conn cs ctbl" and "ttbl tw = ctbl cw"
    and "\<forall>r \<in> set (ctbl cw). year4 (CreateTime r)" and "year4 ((dayOf now - n) * dayNs)"
  shows "\<exists>tw' cw'. Run (Prune exec ts) tw n now = (tw', None) \<and> Run (chPrune ip conn serr cs) cw n now = (cw', None) \<and>
    ttbl tw' = ctbl cw' \<and> ctbl cw' = filter (\<lambda>r. (dayOf now - n) * dayNs \<le> CreateTime r) (ctbl cw)"
proof -
  let ?c = "(dayOf now - n) * dayNs"
  obtain tw' where "exec tw (pruneStmt ts) [ATime ?c] = (tw', None)"
    "ttbl tw' = filter (\<lambda>r. \<not> CreateTime r < ?c) (ttbl tw)" using assms(2) unfolding trinoDeletes_def by blast
  moreover obtain cw' where "chPrune ip conn serr cs cw ?c = (cw', None)"
    "ctbl cw' = filter (\<lambda>r. \<not> CreateTime r < ?c) (ctbl cw)"
    using chPrune_rows [OF assms(3,4) _ assms(7)] assms(6) by blast
  ultimately show ?thesis
    using assms(1,5) by (simp add: Run_def cutoff_eq Prune_def execStep_def not_less)
qed

text \<open>Databases that hold a list of rows and understand exactly these statements.\<close>

definition rowsExec :: "TrinoStore \<Rightarrow> Row list execFn" where
  "rowsExec s w stmt as =
     (case as of [ATime t] \<Rightarrow> (filter (\<lambda>r. \<not> CreateTime r < t) w, None) | _ \<Rightarrow> (w, None))"

definition rowsConn :: "ClickHouseStore \<Rightarrow> Row list chConn" where
  "rowsConn s =
     \<lparr>chExec = \<lambda>w stmt. (filter (\<lambda>r. dropPartitionStmt (cs_table s) (partitionID (CreateTime r)) \<noteq> stmt) w, None),
      chQuery = \<lambda>w stmt ps. (w, Inr (map (\<lambda>i. [AStr i]) (filter (\<lambda>i. strLt i (the (unescapeTSV (the (map_of ps (paramName 2))))))
         (map (\<lambda>r. partitionID (CreateTime r)) w)), None)),
      prepareBatch = \<lambda>w q t. (w, None), batchAppend = \<lambda>w as. (w, None), batchAbort = \<lambda>w. w,
      batchSend = \<lambda>w. (w, None)\<rparr>"

lemma rowsConn_lists: "clickhouseLists (rowsConn s) s (\<lambda>w. w)"
proof -
  have "map_of (snd (partsWhere s t)) (paramName 2) = Some (clickhouseParamValue (partitionID t))" for t
    by (simp add: partsWhere_def clickhouseWhere_def pred_def paramName_inject numeral_2_eq_2)
  then show ?thesis
    by (auto simp: clickhouseLists_def rowsConn_def unescape_paramValue intro!: exI)
qed

lemma rowsConn_drops: "clickhouseDrops (rowsConn s) s (\<lambda>w. w)"
  by (simp add: clickhouseDrops_def rowsConn_def dropPartitionStmt_def)

theorem prune_backends_agree_witness:
  "\<exists>ts cs tw' cw'. Run (Prune (rowsExec ts) ts) [zeroRow\<lparr>CreateTime := 5\<rparr>] 1 (3 * dayNs) = (tw', None) \<and>
     Run (chPrune (\<lambda>_. True) (rowsConn cs) (\<lambda>v. EOther ''scan'') cs) [zeroRow\<lparr>CreateTime := 5\<rparr>] 1 (3 * dayNs) = (cw', None) \<and> tw' = cw'"
proof -
  have c: "civil 0 = (1970, 1, 1)" "civil 2 = (1970, 1, 3)"
    using civil_daysFromCivil [of 1970 1 1] civil_daysFromCivil [of 1970 1 3]
    by (simp_all add: validDate_def daysIn_def daysFromCivil_def yearDays_def monthStart_def)
  have y: "year4 5" "year4 ((dayOf (3 * dayNs) - 1) * dayNs)"
    using c by (simp_all add: year4_def) (simp add: dayOf_def dayNs_def)
  have "trinoDeletes (rowsExec ts) ts (\<lambda>w. w)" for ts by (simp add: trinoDeletes_def rowsExec_def)
  from prune_backends_agree [OF _ this rowsConn_lists rowsConn_drops, of 1 "[zeroRow\<lparr>CreateTime := 5\<rparr>]"
      "[zeroRow\<lparr>CreateTime := 5\<rparr>]" "3 * dayNs", where ip = "\<lambda>_. True" and serr = "\<lambda>v. EOther ''scan''"] y
  show ?thesis by fastforce
qed

text \<open>
  The retention cutoff and the start of the compaction window are UTC midnights: the
  cutoff lies exactly \<open>retentionDays\<close> whole days before the start of today, so no row of the
  last \<open>retentionDays\<close> days is ever older than it; the window covers today and the
  \<open>optimizeDays - 1\<close> days before it, at least today.
\<close>

theorem retention_windows:
  "partitionAlignedCutoff now n = (dayOf now - n) * dayNs \<and>
   (CreateTime r < partitionAlignedCutoff now n \<longleftrightarrow> dayOf (CreateTime r) < dayOf now - n) \<and>
   optimizeWindowStart now k = (dayOf now - (max k 1 - 1)) * dayNs \<and> optimizeWindowStart now k \<le> now"
proof -
  have o: "optimizeWindowStart now k = (dayOf now - (max k 1 - 1)) * dayNs"
    using startOfUTCDay_eq [of now]
    by (simp add: optimizeWindowStart_def startOfUTCDay_def Let_def addDays_eq max_def algebra_simps)
  moreover have "\<not> now < (dayOf now - (max k 1 - 1)) * dayNs" by (simp add: before_midnight)
  then have "(dayOf now - (max k 1 - 1)) * dayNs \<le> now" by (simp only: not_less)
  ultimately show ?thesis by (simp add: cutoff_eq before_midnight)
qed

end
