(* ===== verification/StoreCache.thy ===== *)
theory StoreCache
  imports StoreQuery GoQuote Sha256 Config StoreErrors
begin

text \<open>
  \<^verbatim>\<open>store/cache.go\<close> and \<^verbatim>\<open>cache/redis.go\<close>: a read-through cache in front of \<^verbatim>\<open>ListQueries\<close> and
  \<^verbatim>\<open>GetQuery\<close>. The Redis client, the wrapped store and \<^verbatim>\<open>encoding/json\<close> are parameters.
  Every answer is shown to be one the store gave, to the same question or to one the key
  does not tell apart from it, and no failure of the cache reaches the caller.
\<close>

section \<open>The cache\<close>

datatype cacheErr = ErrMiss | CacheUnavailable string

record 'w Cache =
  c_Get :: "'w \<Rightarrow> string \<Rightarrow> 'w \<times> (cacheErr + string)"
  c_Set :: "'w \<Rightarrow> string \<Rightarrow> string \<Rightarrow> duration \<Rightarrow> 'w \<times> cacheErr option"

text \<open>The errors of the Redis client: the absent key, and any other.\<close>

datatype redisErr = RedisNil | RedisErr string

record 'w redisClient =
  r_Get :: "'w \<Rightarrow> string \<Rightarrow> 'w \<times> (redisErr + string)"
  r_Set :: "'w \<Rightarrow> string \<Rightarrow> string \<Rightarrow> duration \<Rightarrow> 'w \<times> redisErr option"

fun ofRedis :: "redisErr \<Rightarrow> cacheErr" where
  "ofRedis RedisNil = CacheUnavailable ''redis: nil''"
| "ofRedis (RedisErr e) = CacheUnavailable e"

definition redisGet :: "'w redisClient \<Rightarrow> 'w \<Rightarrow> string \<Rightarrow> 'w \<times> (cacheErr + string)" where
  "redisGet r w key =
     (case r_Get r w key of
        (w, Inl RedisNil) \<Rightarrow> (w, Inl ErrMiss)
      | (w, Inl e) \<Rightarrow> (w, Inl (ofRedis e))
      | (w, Inr b) \<Rightarrow> (w, Inr b))"

definition redisSet :: "'w redisClient \<Rightarrow> 'w \<Rightarrow> string \<Rightarrow> string \<Rightarrow> duration \<Rightarrow> 'w \<times> cacheErr option" where
  "redisSet r w key val ttl = (case r_Set r w key val ttl of (w, e) \<Rightarrow> (w, map_option ofRedis e))"

definition redisCache :: "'w redisClient \<Rightarrow> 'w Cache" where
  "redisCache r = \<lparr>c_Get = redisGet r, c_Set = redisSet r\<rparr>"

section \<open>The cached store\<close>

datatype cacheObs = CacheHit | CacheMiss | CacheError

text \<open>The two methods of the wrapped store that are cached.\<close>

record 'w readStore =
  s_ListQueries :: "'w \<Rightarrow> QueryFilter \<Rightarrow> 'w \<times> (err + QuerySummary list)"
  s_GetQuery :: "'w \<Rightarrow> string \<Rightarrow> 'w \<times> (err + Row option)"

text \<open>\<^verbatim>\<open>json.Marshal\<close> and \<^verbatim>\<open>json.Unmarshal\<close> at one type; \<^const>\<open>None\<close> is an error.\<close>

record 'a codec =
  encode :: "'a \<Rightarrow> string option"
  decode :: "string \<Rightarrow> 'a option"

record 'w cachedStore =
  Store :: "'w readStore"
  cache :: "'w Cache"
  listTTL :: duration
  queryTTL :: duration
  rowsCodec :: "QuerySummary list codec"
  rowCodec :: "Row codec"
  isPrint :: "nat \<Rightarrow> bool"

definition NewCached :: "'w readStore \<Rightarrow> 'w Cache \<Rightarrow> QuerySummary list codec \<Rightarrow> Row codec \<Rightarrow> (nat \<Rightarrow> bool) \<Rightarrow>
    CacheCfg \<Rightarrow> 'w cachedStore" where
  "NewCached inner c rc qc ip cfg =
     \<lparr>Store = inner, cache = c, listTTL = ca_ListTTL cfg, queryTTL = ca_QueryTTL cfg,
      rowsCodec = rc, rowCodec = qc, isPrint = ip\<rparr>"

text \<open>The world together with the observer's calls so far.\<close>

type_synonym 'w observed = "'w \<times> cacheObs list"

definition getCached :: "'w Cache \<Rightarrow> 'a codec \<Rightarrow> 'w observed \<Rightarrow> string \<Rightarrow> 'w observed \<times> 'a option" where
  "getCached c cd st key =
     (case c_Get c (fst st) key of
        (w, Inl e) \<Rightarrow> ((w, snd st @ [if e = ErrMiss then CacheMiss else CacheError]), None)
      | (w, Inr b) \<Rightarrow>
          (case decode cd b of
             None \<Rightarrow> ((w, snd st @ [CacheError]), None)
           | Some x \<Rightarrow> ((w, snd st @ [CacheHit]), Some x)))"

definition setCached :: "'w Cache \<Rightarrow> 'a codec \<Rightarrow> 'w observed \<Rightarrow> string \<Rightarrow> 'a \<Rightarrow> duration \<Rightarrow> 'w observed" where
  "setCached c cd st key v ttl =
     (case encode cd v of
        None \<Rightarrow> st
      | Some b \<Rightarrow>
          (case c_Set c (fst st) key b ttl of
             (w, Some e) \<Rightarrow> (w, snd st @ [CacheError])
           | (w, None) \<Rightarrow> (w, snd st)))"

text \<open>
  \<^verbatim>\<open>t.Sub(u)\<close> saturates at the ends of the 64-bit range; \<^verbatim>\<open>t.Truncate(d)\<close> rounds down to a
  multiple of \<^verbatim>\<open>d\<close> since the zero time; \<^verbatim>\<open>t.Unix()\<close> is whole seconds.
\<close>

definition timeSub :: "time \<Rightarrow> time \<Rightarrow> duration" where
  "timeSub t u = max (- (2 ^ 63)) (min (2 ^ 63 - 1) (t - u))"

definition timeTruncate :: "time \<Rightarrow> duration \<Rightarrow> time" where
  "timeTruncate t d = (if d \<le> 0 then t else t - (t - zeroTime) mod d)"

definition unixSec :: "time \<Rightarrow> int" where "unixSec t = t div second"

definition fmtBool :: "bool \<Rightarrow> string" where "fmtBool b = (if b then ''true'' else ''false'')"

definition cacheKeyPrefix :: string where "cacheKeyPrefix = ''qls''"
definition cacheSchemaVersion :: int where "cacheSchemaVersion = 2"

definition listCanonical :: "'w cachedStore \<Rightarrow> QueryFilter \<Rightarrow> string" where
  "listCanonical s f =
     (let width = timeSub (qf_Until f) (qf_Since f);
          bUntil = timeTruncate (qf_Until f) (listTTL s);
          bSince = bUntil + i64 (- width);
          q = goQuote (isPrint s)
      in joinS [itoa (unixSec bSince), itoa (unixSec bUntil), q (qf_User f), q (qf_Catalog f), q (qf_State f),
           qf_Sort f, fmtBool (qf_Desc f), itoa (qf_Limit f), itoa (qf_Offset f)] ''|'')"

definition listKey :: "'w cachedStore \<Rightarrow> QueryFilter \<Rightarrow> string" where
  "listKey s f =
     cacheKeyPrefix @ '':v'' @ itoa cacheSchemaVersion @ '':list:'' @ hexEncode (sha256 (listCanonical s f))"

definition queryKey :: "string \<Rightarrow> string" where
  "queryKey queryID = cacheKeyPrefix @ '':v'' @ itoa cacheSchemaVersion @ '':query:'' @ queryID"

definition cachedListQueries :: "'w cachedStore \<Rightarrow> 'w observed \<Rightarrow> QueryFilter \<Rightarrow> 'w observed \<times> (err + QuerySummary list)" where
  "cachedListQueries s st f =
     (let key = listKey s f in
      case getCached (cache s) (rowsCodec s) st key of
        (st, Some out) \<Rightarrow> (st, Inr out)
      | (st, None) \<Rightarrow>
          (case s_ListQueries (Store s) (fst st) f of
             (w, Inl e) \<Rightarrow> ((w, snd st), Inl e)
           | (w, Inr rows) \<Rightarrow> (setCached (cache s) (rowsCodec s) (w, snd st) key rows (listTTL s), Inr rows)))"

definition cachedGetQuery :: "'w cachedStore \<Rightarrow> 'w observed \<Rightarrow> string \<Rightarrow> 'w observed \<times> (err + Row option)" where
  "cachedGetQuery s st queryID =
     (let key = queryKey queryID in
      case getCached (cache s) (rowCodec s) st key of
        (st, Some row) \<Rightarrow> (st, Inr (Some row))
      | (st, None) \<Rightarrow>
          (case s_GetQuery (Store s) (fst st) queryID of
             (w, Inl e) \<Rightarrow> ((w, snd st), Inl e)
           | (w, Inr None) \<Rightarrow> ((w, snd st), Inr None)
           | (w, Inr (Some got)) \<Rightarrow>
               (setCached (cache s) (rowCodec s) (w, snd st) key got (queryTTL s), Inr (Some got))))"

section \<open>Keys\<close>

lemma queryKey_inject [simp]: "queryKey q = queryKey q' \<longleftrightarrow> q = q'"
  by (simp add: queryKey_def)

lemma listKey_not_queryKey [simp]: "listKey s f \<noteq> queryKey q" "queryKey q \<noteq> listKey s f"
  by (auto simp: queryKey_def listKey_def)

lemma listKey_eq: "listKey s f = listKey s f' \<longleftrightarrow> sha256 (listCanonical s f) = sha256 (listCanonical s f')"
  by (simp add: listKey_def hexEncode_inject [OF sha256_bytes sha256_bytes])

lemma fmtBool_free: "list_all (\<lambda>x. x \<noteq> CHR ''|'') (fmtBool b)" "fmtBool b = fmtBool c \<longleftrightarrow> b = c"
  by (simp_all add: fmtBool_def)

lemma bar_prefix: "itoa m @ CHR ''|'' # x = itoa n @ CHR ''|'' # y \<longleftrightarrow> m = n \<and> x = y"
  using split_at_stop [OF itoa_free itoa_free, of "CHR ''|''" m x n y] by (auto simp: itoa_inject)

lemma bar_suffix: "x @ CHR ''|'' # itoa m = y @ CHR ''|'' # itoa n \<longleftrightarrow> x = y \<and> m = n"
  using split_at_last [OF itoa_free itoa_free, of "CHR ''|''" x m y n] by (auto simp: itoa_inject)

lemma bar_suffix_bool: "x @ CHR ''|'' # fmtBool b = y @ CHR ''|'' # fmtBool c \<longleftrightarrow> x = y \<and> b = c"
  using split_at_last [OF fmtBool_free(1) fmtBool_free(1), of x b y c] by (auto simp: fmtBool_free(2))

text \<open>The canonical text reads back field by field: numbers and literals from the left, the rest from the right.\<close>

lemma canonical_shape_inject:
  "itoa a @ CHR ''|'' # itoa b @ CHR ''|'' # goQuote P u @ CHR ''|'' # goQuote P c @ CHR ''|'' # goQuote P e @
     CHR ''|'' # srt @ CHR ''|'' # fmtBool d @ CHR ''|'' # itoa l @ CHR ''|'' # itoa n =
   itoa a' @ CHR ''|'' # itoa b' @ CHR ''|'' # goQuote P u' @ CHR ''|'' # goQuote P c' @ CHR ''|'' # goQuote P e' @
     CHR ''|'' # srt' @ CHR ''|'' # fmtBool d' @ CHR ''|'' # itoa l' @ CHR ''|'' # itoa n' \<longleftrightarrow>
   a = a' \<and> b = b' \<and> u = u' \<and> c = c' \<and> e = e' \<and> srt = srt' \<and> d = d' \<and> l = l' \<and> n = n'"
proof -
  have r: "srt @ CHR ''|'' # fmtBool d @ CHR ''|'' # itoa l @ CHR ''|'' # itoa n =
      srt' @ CHR ''|'' # fmtBool d' @ CHR ''|'' # itoa l' @ CHR ''|'' # itoa n' \<longleftrightarrow>
      srt = srt' \<and> d = d' \<and> l = l' \<and> n = n'"
    using bar_suffix [of "srt @ CHR ''|'' # fmtBool d @ CHR ''|'' # itoa l" n "srt' @ CHR ''|'' # fmtBool d' @ CHR ''|'' # itoa l'" n']
      bar_suffix [of "srt @ CHR ''|'' # fmtBool d" l "srt' @ CHR ''|'' # fmtBool d'" l']
      bar_suffix_bool [of srt d srt' d'] by auto
  show ?thesis by (simp only: bar_prefix goQuote_prefix list.inject r simp_thms)
qed

definition bucketUntil :: "'w cachedStore \<Rightarrow> QueryFilter \<Rightarrow> time" where
  "bucketUntil s f = timeTruncate (qf_Until f) (listTTL s)"

definition width :: "QueryFilter \<Rightarrow> duration" where
  "width f = timeSub (qf_Until f) (qf_Since f)"

lemma listCanonical_inject:
  "listCanonical s f = listCanonical s f' \<longleftrightarrow>
     unixSec (bucketUntil s f + i64 (- width f)) = unixSec (bucketUntil s f' + i64 (- width f')) \<and>
     unixSec (bucketUntil s f) = unixSec (bucketUntil s f') \<and>
     qf_User f = qf_User f' \<and> qf_Catalog f = qf_Catalog f' \<and> qf_State f = qf_State f' \<and> qf_Sort f = qf_Sort f' \<and>
     qf_Desc f = qf_Desc f' \<and> qf_Limit f = qf_Limit f' \<and> qf_Offset f = qf_Offset f'"
  unfolding listCanonical_def Let_def joinS.simps append_assoc append_Cons append_Nil bucketUntil_def width_def
  by (rule canonical_shape_inject)

lemma width_range: "- (2 ^ 63) \<le> width f \<and> width f < 2 ^ 63"
  by (simp add: width_def timeSub_def)

lemma truncate_whole_second:
  assumes "0 < d" and "second dvd d"
  shows "second dvd timeTruncate t d"
proof -
  have "timeTruncate t d = zeroTime + d * ((t - zeroTime) div d)"
    using assms(1) by (simp add: timeTruncate_def minus_mod_eq_mult_div [symmetric])
  moreover have "second dvd zeroTime" by (simp add: zeroTime_def)
  ultimately show ?thesis using assms(2) by simp
qed

lemma truncate_bounds: "0 < d \<Longrightarrow> timeTruncate t d \<le> t \<and> t < timeTruncate t d + d"
  using pos_mod_bound [of d "t - zeroTime"] pos_mod_sign [of d "t - zeroTime"] by (simp add: timeTruncate_def)

lemma unixSec_close: "unixSec t = unixSec u \<Longrightarrow> \<bar>t - u\<bar> < second"
  using div_bounds [of second t] div_bounds [of second u] by (simp add: unixSec_def)

text \<open>A small instance for the examples: the cache is a map, a row is encoded by its id.\<close>

definition mapCache :: "(string \<rightharpoonup> string) Cache" where
  "mapCache =
     \<lparr>c_Get = \<lambda>w k. (w, case w k of None \<Rightarrow> Inl ErrMiss | Some b \<Rightarrow> Inr b), c_Set = \<lambda>w k v ttl. (w(k \<mapsto> v), None)\<rparr>"

definition exampleStore :: "'w readStore" where
  "exampleStore =
     \<lparr>s_ListQueries = \<lambda>w f. (w, Inr []), s_GetQuery = \<lambda>w q. (w, Inr (Some (zeroRow\<lparr>QueryID := q\<rparr>)))\<rparr>"

definition exampleCached :: "(string \<rightharpoonup> string) cachedStore" where
  "exampleCached =
     \<lparr>Store = exampleStore, cache = mapCache, listTTL = 10 * second, queryTTL = 60 * second,
      rowsCodec = \<lparr>encode = \<lambda>x. Some ''[]'', decode = \<lambda>b. Some []\<rparr>,
      rowCodec = \<lparr>encode = \<lambda>r. Some (QueryID r), decode = \<lambda>b. Some (zeroRow\<lparr>QueryID := b\<rparr>)\<rparr>,
      isPrint = (\<lambda>n. True)\<rparr>"

definition exampleFilter :: "time \<Rightarrow> QueryFilter" where
  "exampleFilter t =
     \<lparr>qf_Since = t - 60 * second, qf_Until = t, qf_User = ''ann'', qf_Catalog = '''', qf_State = '''',
      qf_Sort = ''wall'', qf_Desc = True, qf_Limit = 51, qf_Offset = 0\<rparr>"



section \<open>What a reader can be told\<close>

text \<open>The store's answers, kept in a log beside the world.\<close>

datatype storeAnswer = Listed QueryFilter "QuerySummary list" | Fetched string Row

fun listed :: "QueryFilter \<Rightarrow> err + QuerySummary list \<Rightarrow> storeAnswer list" where
  "listed f (Inr rows) = [Listed f rows]"
| "listed f (Inl e) = []"

fun fetched :: "string \<Rightarrow> err + Row option \<Rightarrow> storeAnswer list" where
  "fetched q (Inr (Some r)) = [Fetched q r]"
| "fetched q _ = []"

definition logged :: "'w readStore \<Rightarrow> ('w \<times> storeAnswer list) readStore" where
  "logged inner =
     \<lparr>s_ListQueries = \<lambda>(w, lg) f. (case s_ListQueries inner w f of (w, r) \<Rightarrow> ((w, lg @ listed f r), r)),
      s_GetQuery = \<lambda>(w, lg) q. (case s_GetQuery inner w q of (w, r) \<Rightarrow> ((w, lg @ fetched q r), r))\<rparr>"

definition besideLog :: "'w Cache \<Rightarrow> ('w \<times> storeAnswer list) Cache" where
  "besideLog c =
     \<lparr>c_Get = \<lambda>(w, lg) k. (case c_Get c w k of (w, r) \<Rightarrow> ((w, lg), r)),
      c_Set = \<lambda>(w, lg) k v ttl. (case c_Set c w k v ttl of (w, r) \<Rightarrow> ((w, lg), r))\<rparr>"

text \<open>
  What a cache promises, for \<open>content w\<close> the entries it may answer from: an answer is the
  entry of its key, a read adds none, a write adds at most its own entry. It may
  forget any entry at any time. The store does not write to the cache.
\<close>

definition cacheLaw :: "'w Cache \<Rightarrow> ('w \<Rightarrow> string \<rightharpoonup> string) \<Rightarrow> bool" where
  "cacheLaw c content \<longleftrightarrow>
     (\<forall>w k w' b. c_Get c w k = (w', Inr b) \<longrightarrow> content w k = Some b) \<and>
     (\<forall>w k. content (fst (c_Get c w k)) \<subseteq>\<^sub>m content w) \<and>
     (\<forall>w k v ttl. content (fst (c_Set c w k v ttl)) \<subseteq>\<^sub>m (content w)(k \<mapsto> v))"

definition storeLeavesCache :: "'w readStore \<Rightarrow> ('w \<Rightarrow> string \<rightharpoonup> string) \<Rightarrow> bool" where
  "storeLeavesCache inner content \<longleftrightarrow>
     (\<forall>w f. content (fst (s_ListQueries inner w f)) \<subseteq>\<^sub>m content w) \<and>
     (\<forall>w q. content (fst (s_GetQuery inner w q)) \<subseteq>\<^sub>m content w)"

text \<open>Reads in sequence, with their answers.\<close>

datatype cachedRead = RList QueryFilter "err + QuerySummary list" | RGet string "err + Row option"

inductive reads :: "'w cachedStore \<Rightarrow> 'w observed \<Rightarrow> cachedRead list \<Rightarrow> 'w observed \<Rightarrow> bool"
  for s st where
  none: "reads s st [] st"
| list: "reads s st tr st1 \<Longrightarrow> cachedListQueries s st1 f = (st2, r) \<Longrightarrow> reads s st (tr @ [RList f r]) st2"
| get: "reads s st tr st1 \<Longrightarrow> cachedGetQuery s st1 q = (st2, r) \<Longrightarrow> reads s st (tr @ [RGet q r]) st2"

text \<open>A value as the caller sees it: as stored, or encoded and decoded once.\<close>

definition viewOf :: "'a codec \<Rightarrow> 'a \<Rightarrow> 'a \<Rightarrow> bool" where
  "viewOf cd x y \<longleftrightarrow> y = x \<or> (\<exists>b. encode cd x = Some b \<and> decode cd b = Some y)"

fun justified :: "'w cachedStore \<Rightarrow> storeAnswer set \<Rightarrow> cachedRead \<Rightarrow> bool" where
  "justified s A (RList f (Inr rows)) =
     (\<exists>f' rows'. Listed f' rows' \<in> A \<and> listKey s f' = listKey s f \<and> viewOf (rowsCodec s) rows' rows)"
| "justified s A (RGet q (Inr (Some r))) = (\<exists>r'. Fetched q r' \<in> A \<and> viewOf (rowCodec s) r' r)"
| "justified s A _ = True"

text \<open>Every entry of the cache is the encoding of an answer of the store, under its key.\<close>

definition coherent :: "'w cachedStore \<Rightarrow> storeAnswer set \<Rightarrow> (string \<rightharpoonup> string) \<Rightarrow> bool" where
  "coherent s A entries \<longleftrightarrow>
     (\<forall>k b. entries k = Some b \<longrightarrow>
        (\<exists>f rows. Listed f rows \<in> A \<and> k = listKey s f \<and> encode (rowsCodec s) rows = Some b) \<or>
        (\<exists>q r. Fetched q r \<in> A \<and> k = queryKey q \<and> encode (rowCodec s) r = Some b))"

lemma coherent_mono: "coherent s A e \<Longrightarrow> e' \<subseteq>\<^sub>m e \<Longrightarrow> A \<subseteq> A' \<Longrightarrow> coherent s A' e'"
  unfolding coherent_def map_le_def by (metis domI subsetD)

lemma justified_mono: "justified s A x \<Longrightarrow> A \<subseteq> A' \<Longrightarrow> justified s A' x"
  by (induction s A x rule: justified.induct) auto

text \<open>The cached store over a logged store.\<close>

definition withLog :: "'w cachedStore \<Rightarrow> ('w \<times> storeAnswer list) cachedStore" where
  "withLog s =
     \<lparr>Store = logged (Store s), cache = besideLog (cache s), listTTL = listTTL s, queryTTL = queryTTL s,
      rowsCodec = rowsCodec s, rowCodec = rowCodec s, isPrint = isPrint s\<rparr>"

lemma withLog_sel [simp]:
  "rowsCodec (withLog s) = rowsCodec s" "rowCodec (withLog s) = rowCodec s"
  "cache (withLog s) = besideLog (cache s)" "Store (withLog s) = logged (Store s)"
  "listKey (withLog s) f = listKey s f"
  by (simp_all add: withLog_def listKey_def listCanonical_def)

lemma getCached_besideLog:
  assumes "cacheLaw c content"
    and "getCached (besideLog c) cd ((w, lg), o0) k = (((w', lg'), o'), r)"
  shows "lg' = lg \<and> content w' \<subseteq>\<^sub>m content w \<and> (\<forall>x. r = Some x \<longrightarrow> (\<exists>b. content w k = Some b \<and> decode cd b = Some x))"
proof -
  obtain v g where g: "c_Get c w k = (v, g)" by fastforce
  have "content v \<subseteq>\<^sub>m content w" using assms(1) g unfolding cacheLaw_def by (metis fst_conv)
  moreover have "g = Inr b \<Longrightarrow> content w k = Some b" for b using assms(1) g unfolding cacheLaw_def by blast
  ultimately show ?thesis
    using assms(2) g by (auto simp: getCached_def besideLog_def split: sum.splits option.splits)
qed

lemma setCached_besideLog:
  assumes "cacheLaw c content"
    and "setCached (besideLog c) cd ((w, lg), o0) k v ttl = ((w', lg'), o')"
  shows "lg' = lg \<and> (content w' \<subseteq>\<^sub>m content w \<or> (\<exists>b. encode cd v = Some b \<and> content w' \<subseteq>\<^sub>m (content w)(k \<mapsto> b)))"
proof (cases "encode cd v")
  case (Some b)
  obtain u e where g: "c_Set c w k b ttl = (u, e)" by fastforce
  have "content u \<subseteq>\<^sub>m (content w)(k \<mapsto> b)" using assms(1) g unfolding cacheLaw_def by (metis fst_conv)
  then show ?thesis using assms(2) g Some by (auto simp: setCached_def besideLog_def split: option.splits)
qed (use assms(2) in \<open>simp add: setCached_def\<close>)

lemma coherent_upd:
  assumes "coherent s A e" and "A \<subseteq> A'" and "e' \<subseteq>\<^sub>m e(k \<mapsto> b)"
    and "(\<exists>f rows. Listed f rows \<in> A' \<and> k = listKey s f \<and> encode (rowsCodec s) rows = Some b) \<or>
        (\<exists>q r. Fetched q r \<in> A' \<and> k = queryKey q \<and> encode (rowCodec s) r = Some b)"
  shows "coherent s A' e'"
proof -
  have "coherent s A' (e(k \<mapsto> b))"
    using assms(4) coherent_mono [OF assms(1) map_le_refl assms(2)] unfolding coherent_def by simp
  then show ?thesis using coherent_mono assms(3) by blast
qed

definition good :: "'w cachedStore \<Rightarrow> ('w \<Rightarrow> string \<rightharpoonup> string) \<Rightarrow> ('w \<times> storeAnswer list) observed \<Rightarrow> bool" where
  "good s content st \<longleftrightarrow> coherent s (set (snd (fst st))) (content (fst (fst st)))"

text \<open>Storing a new answer of the store under its key keeps the cache coherent.\<close>

lemma set_keeps_coherent:
  assumes "cacheLaw c content" and "coherent s (set lg) (content u)"
    and "setCached (besideLog c) cd ((u, lg @ [x]), ov) k v ttl = ((w', lg'), ob')"
    and "\<And>b. encode cd v = Some b \<Longrightarrow>
        (\<exists>f rows. Listed f rows \<in> set (lg @ [x]) \<and> k = listKey s f \<and> encode (rowsCodec s) rows = Some b) \<or>
        (\<exists>q r. Fetched q r \<in> set (lg @ [x]) \<and> k = queryKey q \<and> encode (rowCodec s) r = Some b)"
  shows "lg' = lg @ [x] \<and> coherent s (set lg') (content w')"
proof -
  have S: "lg' = lg @ [x]" "content w' \<subseteq>\<^sub>m content u \<or>
      (\<exists>b. encode cd v = Some b \<and> content w' \<subseteq>\<^sub>m (content u)(k \<mapsto> b))"
    using setCached_besideLog [OF assms(1,3)] by auto
  have "set lg \<subseteq> set lg'" using S(1) by auto
  then show ?thesis
    using S coherent_mono [OF assms(2)] coherent_upd [OF assms(2)] assms(4) by metis
qed

lemma cachedGetQuery_step:
  assumes "cacheLaw (cache s) content" and "storeLeavesCache (Store s) content" and "good s content ((w, lg), ob)"
    and step: "cachedGetQuery (withLog s) ((w, lg), ob) q = (((w', lg'), ob'), r)"
  shows "set lg \<subseteq> set lg' \<and> good s content ((w', lg'), ob') \<and> justified s (set lg') (RGet q r)"
proof -
  obtain v lv ov x where g: "getCached (besideLog (cache s)) (rowCodec s) ((w, lg), ob) (queryKey q) = (((v, lv), ov), x)"
    by (metis surj_pair)
  note G = getCached_besideLog [OF assms(1) g]
  have lv: "lv = lg" using G by blast
  have co: "coherent s (set lg) (content w)" using assms(3) by (simp add: good_def)
  obtain u a where a: "s_GetQuery (Store s) v q = (u, a)" by fastforce
  have "content u \<subseteq>\<^sub>m content v" using assms(2) a unfolding storeLeavesCache_def by (metis fst_conv)
  then have cv: "coherent s (set lg) (content v)" and cu: "coherent s (set lg) (content u)"
    using G coherent_mono [OF co] map_le_trans by blast+
  consider (hit) row where "x = Some row" | (absent) "x = None" "\<forall>row. a \<noteq> Inr (Some row)"
    | (found) row where "x = None" "a = Inr (Some row)" by (cases x) auto
  then show ?thesis
  proof cases
    case (hit row)
    then have st: "w' = v" "lg' = lg" "r = Inr (Some row)" using step g lv by (auto simp: cachedGetQuery_def)
    obtain b where "content w (queryKey q) = Some b" "decode (rowCodec s) b = Some row" using G hit by blast
    with co have "\<exists>r'. Fetched q r' \<in> set lg \<and> viewOf (rowCodec s) r' row"
      unfolding coherent_def viewOf_def by fastforce
    then show ?thesis using st cv by (simp add: good_def)
  next
    case absent
    then have "w' = u" "lg' = lg" "r = a"
      using step g lv a by (auto simp: cachedGetQuery_def logged_def split: sum.splits option.splits)
    moreover have "justified s (set lg) (RGet q a)" using absent by (cases a) auto
    ultimately show ?thesis using cu by (simp add: good_def)
  next
    case (found row)
    then have st: "setCached (besideLog (cache s)) (rowCodec s) ((u, lg @ [Fetched q row]), ov) (queryKey q) row
        (queryTTL (withLog s)) = ((w', lg'), ob')" "r = Inr (Some row)"
      using step g lv a by (auto simp: cachedGetQuery_def logged_def)
    have "lg' = lg @ [Fetched q row] \<and> coherent s (set lg') (content w')"
      by (rule set_keeps_coherent [OF assms(1) cu st(1)]) auto
    then show ?thesis using st(2) by (auto simp: good_def viewOf_def)
  qed
qed

lemma cachedListQueries_step:
  assumes "cacheLaw (cache s) content" and "storeLeavesCache (Store s) content" and "good s content ((w, lg), ob)"
    and step: "cachedListQueries (withLog s) ((w, lg), ob) f = (((w', lg'), ob'), r)"
  shows "set lg \<subseteq> set lg' \<and> good s content ((w', lg'), ob') \<and> justified s (set lg') (RList f r)"
proof -
  obtain v lv ov x where g: "getCached (besideLog (cache s)) (rowsCodec s) ((w, lg), ob) (listKey s f) = (((v, lv), ov), x)"
    by (metis surj_pair)
  note G = getCached_besideLog [OF assms(1) g]
  have lv: "lv = lg" using G by blast
  have co: "coherent s (set lg) (content w)" using assms(3) by (simp add: good_def)
  obtain u a where a: "s_ListQueries (Store s) v f = (u, a)" by fastforce
  have "content u \<subseteq>\<^sub>m content v" using assms(2) a unfolding storeLeavesCache_def by (metis fst_conv)
  then have cv: "coherent s (set lg) (content v)" and cu: "coherent s (set lg) (content u)"
    using G coherent_mono [OF co] map_le_trans by blast+
  consider (hit) rows where "x = Some rows" | (failed) e where "x = None" "a = Inl e"
    | (listed) rows where "x = None" "a = Inr rows" by (cases x; cases a) auto
  then show ?thesis
  proof cases
    case (hit rows)
    then have st: "w' = v" "lg' = lg" "r = Inr rows" using step g lv by (auto simp: cachedListQueries_def)
    obtain b where "content w (listKey s f) = Some b" "decode (rowsCodec s) b = Some rows" using G hit by blast
    with co have "\<exists>f' rows'. Listed f' rows' \<in> set lg \<and> listKey s f' = listKey s f \<and> viewOf (rowsCodec s) rows' rows"
      unfolding coherent_def viewOf_def by fastforce
    then show ?thesis using st cv by (simp add: good_def)
  next
    case (failed e)
    then have "w' = u" "lg' = lg" "r = a"
      using step g lv a by (auto simp: cachedListQueries_def logged_def)
    then show ?thesis using cu failed by (simp add: good_def)
  next
    case (listed rows)
    then have st: "setCached (besideLog (cache s)) (rowsCodec s) ((u, lg @ [Listed f rows]), ov) (listKey s f) rows
        (listTTL (withLog s)) = ((w', lg'), ob')" "r = Inr rows"
      using step g lv a by (auto simp: cachedListQueries_def logged_def)
    have "lg' = lg @ [Listed f rows] \<and> coherent s (set lg') (content w')"
      by (rule set_keeps_coherent [OF assms(1) cu st(1)]) auto
    then show ?thesis using st(2) by (auto simp: good_def viewOf_def)
  qed
qed

lemma reads_good:
  assumes "reads (withLog s) st tr st'" and "cacheLaw (cache s) content" and "storeLeavesCache (Store s) content"
    and "good s content st"
  shows "good s content st' \<and> set (snd (fst st)) \<subseteq> set (snd (fst st')) \<and> list_all (justified s (set (snd (fst st')))) tr"
  using assms(1)
proof induction
  case (list tr st1 f st2 r)
  obtain w lg ob w' lg' ob' where e: "st1 = ((w, lg), ob)" "st2 = ((w', lg'), ob')" by (metis surj_pair)
  have "set lg \<subseteq> set lg' \<and> good s content ((w', lg'), ob') \<and> justified s (set lg') (RList f r)"
    using cachedListQueries_step [OF assms(2,3), of w lg ob f w' lg' ob' r] list e by simp
  then show ?case using list.IH e justified_mono [of s "set lg" _ "set lg'"] by (auto simp: list_all_iff)
next
  case (get tr st1 q st2 r)
  obtain w lg ob w' lg' ob' where e: "st1 = ((w, lg), ob)" "st2 = ((w', lg'), ob')" by (metis surj_pair)
  have "set lg \<subseteq> set lg' \<and> good s content ((w', lg'), ob') \<and> justified s (set lg') (RGet q r)"
    using cachedGetQuery_step [OF assms(2,3), of w lg ob q w' lg' ob' r] get e by simp
  then show ?case using get.IH e justified_mono [of s "set lg" _ "set lg'"] by (auto simp: list_all_iff)
qed (use assms(4) in simp)

text \<open>
  C11. A cached store never makes up an answer: after any sequence of reads through an
  initially empty cache, every row it returned for a query id was given by the store
  for that id, and every listing was given by the store for a filter with the same
  key, in this run; it is that value or its encoding read back.
\<close>

theorem cached_answers_were_given:
  assumes "cacheLaw (cache s) content" and "storeLeavesCache (Store s) content" and "content w = Map.empty"
    and "reads (withLog s) ((w, []), []) tr ((w', lg), ob)"
  shows "list_all (justified s (set lg)) tr"
proof -
  have "good s content ((w, []), [])" using assms(3) by (simp add: good_def coherent_def)
  from reads_good [OF assms(4,1,2) this] show ?thesis by simp
qed

lemma mapCache_law: "cacheLaw mapCache (\<lambda>w. w)"
  by (auto simp: cacheLaw_def mapCache_def split: option.splits)

text \<open>The second read is answered from the cache.\<close>

theorem cached_answers_were_given_witness:
  "\<exists>w lg. reads (withLog exampleCached) ((Map.empty, []), [])
       [RGet ''q'' (Inr (Some (zeroRow\<lparr>QueryID := ''q''\<rparr>))), RGet ''q'' (Inr (Some (zeroRow\<lparr>QueryID := ''q''\<rparr>)))]
       ((w, lg), [CacheMiss, CacheHit]) \<and> lg = [Fetched ''q'' (zeroRow\<lparr>QueryID := ''q''\<rparr>)] \<and>
     list_all (justified exampleCached (set lg)) [RGet ''q'' (Inr (Some (zeroRow\<lparr>QueryID := ''q''\<rparr>)))]"
proof -
  let ?r = "zeroRow\<lparr>QueryID := ''q''\<rparr>" and ?w = "[queryKey ''q'' \<mapsto> ''q'']"
  let ?g = "RGet ''q'' (Inr (Some ?r))"
  have "cachedGetQuery (withLog exampleCached) ((Map.empty, []), []) ''q'' = (((?w, [Fetched ''q'' ?r]), [CacheMiss]), Inr (Some ?r))"
    by (simp add: cachedGetQuery_def exampleCached_def getCached_def setCached_def besideLog_def logged_def mapCache_def
        exampleStore_def Let_def)
  moreover have "cachedGetQuery (withLog exampleCached) ((?w, [Fetched ''q'' ?r]), [CacheMiss]) ''q'' =
      (((?w, [Fetched ''q'' ?r]), [CacheMiss, CacheHit]), Inr (Some ?r))"
    by (simp add: cachedGetQuery_def exampleCached_def getCached_def besideLog_def mapCache_def Let_def)
  ultimately have R: "reads (withLog exampleCached) ((Map.empty, []), []) [?g, ?g] ((?w, [Fetched ''q'' ?r]), [CacheMiss, CacheHit])"
    using reads.get [OF reads.get [OF reads.none]] by fastforce
  have "storeLeavesCache (Store exampleCached) (\<lambda>w. w)" "cacheLaw (cache exampleCached) (\<lambda>w. w)"
    by (simp_all add: storeLeavesCache_def exampleCached_def exampleStore_def mapCache_law)
  from cached_answers_were_given [OF this(2,1) _ R] show ?thesis using R by auto
qed

text \<open>What a read of the cache gives, and how it is reported.\<close>

definition readOutcome :: "(string \<Rightarrow> 'a option) \<Rightarrow> cacheErr + string \<Rightarrow> cacheObs \<times> 'a option" where
  "readOutcome dec g =
     (case g of
        Inr b \<Rightarrow> (case dec b of Some x \<Rightarrow> (CacheHit, Some x) | None \<Rightarrow> (CacheError, None))
      | Inl e \<Rightarrow> (if e = ErrMiss then CacheMiss else CacheError, None))"

lemma getCached_outcome:
  "getCached c cd st k =
     ((fst (c_Get c (fst st) k), snd st @ [fst (readOutcome (decode cd) (snd (c_Get c (fst st) k)))]),
      snd (readOutcome (decode cd) (snd (c_Get c (fst st) k))))"
  by (simp add: getCached_def readOutcome_def split: prod.split sum.split option.split)

lemma setCached_obs: "setCached c cd st k v ttl = (w, ob) \<Longrightarrow> ob = snd st \<or> ob = snd st @ [CacheError]"
  by (auto simp: setCached_def split: option.splits prod.splits)

text \<open>
  C36. The cache fails open: each read returns the decoded entry of its key, and in every other
  case (a miss, a cache that is down, an entry that does not decode) exactly what the
  store answers; whether storing the answer works has no effect on it. Each read reports
  one hit, miss or error, and a second error only for a failed write.
\<close>

theorem cache_fails_open:
  "(let (w, g) = c_Get (cache s) (fst st) (queryKey q);
        (ob, hit) = readOutcome (decode (rowCodec s)) g;
        (st', r) = cachedGetQuery s st q
    in r = (case hit of Some row \<Rightarrow> Inr (Some row) | None \<Rightarrow> snd (s_GetQuery (Store s) w q)) \<and>
       snd st' \<in> {snd st @ [ob], snd st @ [ob, CacheError]}) \<and>
   (let (w, g) = c_Get (cache s) (fst st) (listKey s f);
        (ob, hit) = readOutcome (decode (rowsCodec s)) g;
        (st', r) = cachedListQueries s st f
    in r = (case hit of Some rows \<Rightarrow> Inr rows | None \<Rightarrow> snd (s_ListQueries (Store s) w f)) \<and>
       snd st' \<in> {snd st @ [ob], snd st @ [ob, CacheError]})"
  by (intro conjI)
    (auto simp: cachedGetQuery_def cachedListQueries_def Let_def getCached_outcome dest!: setCached_obs
        split: prod.splits sum.splits option.splits)

end
