(* ===== verification/IngestBuffer.thy ===== *)
theory IngestBuffer
  imports StoreContract
begin

text \<open>
  \<^verbatim>\<open>ingest/buffer.go\<close>: rows wait in a bounded channel, one flusher takes them in batches,
  removes superseded rows, and writes each batch with retries. This theory models
  the sequential parts (\<^verbatim>\<open>New\<close>, \<^verbatim>\<open>flush\<close>, \<^verbatim>\<open>insert\<close>, \<^verbatim>\<open>split\<close>, \<^verbatim>\<open>dedupe\<close>) and proves what a flush
  does once, for every writer that keeps the contract of \<open>batch_writer\<close>.
  \<open>IngestRun\<close> adds the producers and the flusher's loop.
\<close>

section \<open>Data\<close>

record BufferCfg =
  BatchSize :: int
  FlushInterval :: duration
  BufferCapacity :: int
  MaxRetries :: int
  FlushTimeout :: duration
  RetryBackoff :: duration
  RetryMaxBackoff :: duration

text \<open>The calls of the \<^verbatim>\<open>Observer\<close> interface.\<close>

datatype obsEvent = Enqueued | Dropped int | Flushed int | FlushFailed | FlushNonRetryable

text \<open>
  What a buffer calls: its \<^verbatim>\<open>Writer\<close> and, if the writer has one, the \<^verbatim>\<open>SplitBatch\<close> method, the
  error of the flush context, its cancellation, and the clock. All read or change
  one world state \<open>'s\<close>.
\<close>

record 's Env =
  insertB :: "'s \<Rightarrow> Row list \<Rightarrow> 's \<times> err option"
  splitB :: "(Row list \<Rightarrow> Row list list) option"
  flushBaseErr :: "'s \<Rightarrow> bool"
  flushCancel :: "'s \<Rightarrow> 's"
  clock :: "'s \<Rightarrow> time"

text \<open>
  What a flush changes: the world, the two statistics, the observer calls made so
  far, and the waits between attempts.
\<close>

record 's Buffer =
  world :: 's
  lastFlushUnixMs :: int
  lastFlushDurationMs :: int
  obs :: "obsEvent list"
  waits :: "duration list"

section \<open>Operations\<close>

text \<open>\<^verbatim>\<open>New\<close>: the corrected configuration.\<close>

definition newCfg :: "BufferCfg \<Rightarrow> BufferCfg" where
  "newCfg cfg =
     (let cfg = (if FlushTimeout cfg \<le> 0 then cfg\<lparr>FlushTimeout := 30 * second\<rparr> else cfg);
          cfg = (if BufferCapacity cfg < 1 then cfg\<lparr>BufferCapacity := 1\<rparr> else cfg);
          cfg = (if RetryBackoff cfg \<le> 0 then cfg\<lparr>RetryBackoff := 3 * second\<rparr> else cfg)
      in if RetryMaxBackoff cfg < RetryBackoff cfg then cfg\<lparr>RetryMaxBackoff := 30 * second\<rparr> else cfg)"

fun dedupeLoop :: "Row list \<Rightarrow> (string \<rightharpoonup> nat) \<Rightarrow> Row list \<Rightarrow> Row list" where
  "dedupeLoop [] seen out = out"
| "dedupeLoop (r # rows) seen out =
     (case seen (QueryID r) of
        Some i \<Rightarrow> dedupeLoop rows seen (out[i := r])
      | None \<Rightarrow> dedupeLoop rows (seen(QueryID r \<mapsto> length out)) (out @ [r]))"

definition dedupe :: "Row list \<Rightarrow> Row list" where
  "dedupe rows = dedupeLoop rows Map.empty []"

text \<open>\<^verbatim>\<open>split\<close>: the writer's chunks if it splits and made any, else one chunk.\<close>

definition splitRows :: "'s Env \<Rightarrow> Row list \<Rightarrow> Row list list" where
  "splitRows env rows =
     (case splitB env of
        Some f \<Rightarrow> (let chunks = f rows in if length chunks > 0 then chunks else [rows])
      | None \<Rightarrow> [rows])"

fun insertChunks :: "'s Env \<Rightarrow> 's \<Rightarrow> Row list list \<Rightarrow> int \<Rightarrow> 's \<times> int \<times> err option" where
  "insertChunks env w [] committed = (w, committed, None)"
| "insertChunks env w (chunk # chunks) committed =
     (case insertB env w chunk of
        (w, Some e) \<Rightarrow> (w, committed + CommittedRows e, Some e)
      | (w, None) \<Rightarrow> insertChunks env w chunks (committed + int (length chunk)))"

definition insertRows :: "'s Env \<Rightarrow> 's \<Rightarrow> Row list \<Rightarrow> 's \<times> int \<times> err option" where
  "insertRows env w rows = insertChunks env w (splitRows env rows) 0"

text \<open>\<^verbatim>\<open>t.UnixMilli()\<close> (rounding down) and \<^verbatim>\<open>d.Milliseconds()\<close> (rounding to zero).\<close>

definition UnixMilli :: "time \<Rightarrow> int" where "UnixMilli t = t div 1000000"
definition Milliseconds :: "duration \<Rightarrow> int" where "Milliseconds d = goDiv d 1000000"

text \<open>The part of an attempt up to the check of \<^verbatim>\<open>err\<close>: the state, the rows left, the error.\<close>

definition attempt :: "'s Env \<Rightarrow> 's Buffer \<Rightarrow> Row list \<Rightarrow> 's Buffer \<times> Row list \<times> err option" where
  "attempt env b rows =
     (case insertRows env (world b) rows of
        (w, committed, e) \<Rightarrow>
          (let start = clock env (world b);
               committed = min (max committed 0) (int (length rows));
               b = b\<lparr>world := w\<rparr>
           in if 0 < committed
              then (b\<lparr>lastFlushUnixMs := UnixMilli (clock env w),
                      lastFlushDurationMs := Milliseconds (clock env w - start),
                      obs := obs b @ [Flushed committed]\<rparr>, drop (nat committed) rows, e)
              else (b, rows, e)))"

definition giveUp :: "'s Buffer \<Rightarrow> Row list \<Rightarrow> 's Buffer" where
  "giveUp b rows = b\<lparr>obs := obs b @ [FlushFailed, Dropped (int (length rows))]\<rparr>"

text \<open>
  The retry loop; the number of attempts left stands for \<^verbatim>\<open>MaxRetries - attempt + 1\<close>, so
  \<^verbatim>\<open>attempt < MaxRetries\<close> is that another one is left.
\<close>

fun flushLoop :: "'s Env \<Rightarrow> BufferCfg \<Rightarrow> nat \<Rightarrow> 's Buffer \<Rightarrow> Row list \<Rightarrow> duration \<Rightarrow> 's Buffer" where
  "flushLoop env cfg 0 b rows backoff = giveUp b rows"
| "flushLoop env cfg (Suc left) b rows backoff =
     (case attempt env b rows of
        (b, rows, None) \<Rightarrow> b
      | (b, rows, Some e) \<Rightarrow>
          if isNonRetryable e then giveUp (b\<lparr>obs := obs b @ [FlushNonRetryable]\<rparr>) rows
          else if flushBaseErr env (world b) then giveUp b rows
          else if 0 < left
          then flushLoop env cfg left (b\<lparr>waits := waits b @ [backoff]\<rparr>) rows
                 (min (i64 (backoff * 2)) (RetryMaxBackoff cfg))
          else flushLoop env cfg left b rows backoff)"

definition flush :: "'s Env \<Rightarrow> BufferCfg \<Rightarrow> 's Buffer \<Rightarrow> Row list \<Rightarrow> 's Buffer" where
  "flush env cfg b rows =
     flushLoop env cfg (nat (MaxRetries cfg + 1)) b (dedupe rows) (RetryBackoff cfg)"

section \<open>Removing superseded rows\<close>

text \<open>
  The reference: one row per query id, in the order the ids first appear, each the
  last row of its id.
\<close>

definition queryIds :: "Row list \<Rightarrow> string list" where
  "queryIds rows = rev (remdups (rev (map QueryID rows)))"

definition latest :: "Row list \<Rightarrow> string \<Rightarrow> Row" where
  "latest rows q = last (filter (\<lambda>r. QueryID r = q) rows)"

definition dedupeRef :: "Row list \<Rightarrow> Row list" where
  "dedupeRef rows = map (latest rows) (queryIds rows)"

lemma set_queryIds: "set (queryIds rows) = QueryID ` set rows"
  by (simp add: queryIds_def)

lemma distinct_queryIds: "distinct (queryIds rows)"
  by (simp add: queryIds_def)

lemma queryIds_snoc:
  "queryIds (rows @ [r]) = (if QueryID r \<in> set (queryIds rows) then queryIds rows
     else queryIds rows @ [QueryID r])"
  by (auto simp: queryIds_def)

lemma latest_snoc: "latest (rows @ [r]) q = (if QueryID r = q then r else latest rows q)"
  by (simp add: latest_def)

lemma latest_id: "q \<in> set (queryIds rows) \<Longrightarrow> QueryID (latest rows q) = q \<and> latest rows q \<in> set rows"
proof -
  assume "q \<in> set (queryIds rows)"
  then have "filter (\<lambda>r. QueryID r = q) rows \<noteq> []" by (auto simp: set_queryIds filter_empty_conv)
  from last_in_set [OF this] show ?thesis by (auto simp: latest_def)
qed

lemma map_id_dedupeRef: "map QueryID (dedupeRef rows) = queryIds rows"
  using latest_id by (auto simp: dedupeRef_def intro: map_idI)

lemma dedupeRef_new:
  "QueryID r \<notin> set (queryIds rows) \<Longrightarrow> dedupeRef (rows @ [r]) = dedupeRef rows @ [r]"
  by (auto simp: dedupeRef_def queryIds_snoc latest_snoc)

lemma dedupeRef_old:
  assumes "i < length (queryIds rows)" and "queryIds rows ! i = QueryID r"
  shows "dedupeRef (rows @ [r]) = (dedupeRef rows)[i := r]"
proof (rule nth_equalityI)
  have mem: "QueryID r \<in> set (queryIds rows)" using assms nth_mem by metis
  then show len: "length (dedupeRef (rows @ [r])) = length ((dedupeRef rows)[i := r])"
    by (simp add: dedupeRef_def queryIds_snoc)
  fix j assume "j < length (dedupeRef (rows @ [r]))"
  then have j: "j < length (queryIds rows)" using mem by (simp add: dedupeRef_def queryIds_snoc)
  have "QueryID r = queryIds rows ! j \<longleftrightarrow> i = j"
    using assms j distinct_queryIds [of rows] by (metis nth_eq_iff_index_eq)
  then show "dedupeRef (rows @ [r]) ! j = (dedupeRef rows)[i := r] ! j"
    using mem j assms(1) by (simp add: dedupeRef_def queryIds_snoc latest_snoc nth_list_update)
qed

lemma dedupeLoop_ref:
  assumes "\<And>q i. seen q = Some i \<longleftrightarrow> i < length (queryIds done) \<and> queryIds done ! i = q"
  shows "dedupeLoop rows seen (dedupeRef done) = dedupeRef (done @ rows)"
  using assms
proof (induction rows arbitrary: seen "done")
  case (Cons r rows)
  note seen = Cons.prems
  have len: "length (dedupeRef done) = length (queryIds done)" by (simp add: dedupeRef_def)
  show ?case
  proof (cases "seen (QueryID r)")
    case None
    then have new: "QueryID r \<notin> set (queryIds done)"
      using seen by (metis in_set_conv_nth option.distinct(1))
    have "dedupeLoop rows (seen(QueryID r \<mapsto> length (queryIds done))) (dedupeRef (done @ [r])) =
        dedupeRef ((done @ [r]) @ rows)"
    proof (rule Cons.IH)
      fix q i
      show "(seen(QueryID r \<mapsto> length (queryIds done))) q = Some i \<longleftrightarrow>
          i < length (queryIds (done @ [r])) \<and> queryIds (done @ [r]) ! i = q"
        using seen [of q i] new None by (auto simp: queryIds_snoc nth_append less_Suc_eq)
    qed
    then show ?thesis using None by (simp add: len dedupeRef_new [OF new])
  next
    case (Some i)
    then have i: "i < length (queryIds done)" "queryIds done ! i = QueryID r" using seen by auto
    then have "queryIds (done @ [r]) = queryIds done"
      by (metis nth_mem queryIds_snoc)
    with seen have "dedupeLoop rows seen (dedupeRef (done @ [r])) = dedupeRef ((done @ [r]) @ rows)"
      by (intro Cons.IH) simp
    then show ?thesis using Some dedupeRef_old [OF i] by simp
  qed
qed simp

lemma dedupe_ref: "dedupe rows = dedupeRef rows"
  using dedupeLoop_ref [of Map.empty "[]" rows]
  by (simp add: dedupe_def dedupeRef_def queryIds_def)

lemma length_dedupe_le: "length (dedupe rows) \<le> length rows"
  by (simp add: dedupe_ref dedupeRef_def queryIds_def) (metis length_map length_rev length_remdups_leq)

lemma dedupe_nonempty: "dedupe rows = [] \<longleftrightarrow> rows = []"
  by (simp add: dedupe_ref dedupeRef_def queryIds_def)

lemma set_dedupe: "set (dedupe rows) \<subseteq> set rows"
  using latest_id by (auto simp: dedupe_ref dedupeRef_def)

section \<open>Counting observer calls\<close>

fun flushedBy :: "obsEvent \<Rightarrow> int" where
  "flushedBy (Flushed n) = n" | "flushedBy _ = 0"

fun droppedBy :: "obsEvent \<Rightarrow> int" where
  "droppedBy (Dropped n) = n" | "droppedBy _ = 0"

definition rowsFlushed :: "obsEvent list \<Rightarrow> int" where
  "rowsFlushed tr = sum_list (map flushedBy tr)"

definition rowsDropped :: "obsEvent list \<Rightarrow> int" where
  "rowsDropped tr = sum_list (map droppedBy tr)"

lemma counts_simps [simp, buf_simps]:
  "rowsFlushed [] = 0" "rowsFlushed (e # tr) = flushedBy e + rowsFlushed tr"
  "rowsFlushed (tr @ tr') = rowsFlushed tr + rowsFlushed tr'"
  "rowsDropped [] = 0" "rowsDropped (e # tr) = droppedBy e + rowsDropped tr"
  "rowsDropped (tr @ tr') = rowsDropped tr + rowsDropped tr'"
  by (simp_all add: rowsFlushed_def rowsDropped_def)

section \<open>A flush against any writer that keeps the contract\<close>

text \<open>
  \<open>img\<close> is what the writer stores of a row, \<open>simg\<close> what its splitter makes of one.
\<close>

locale buffer_env = batch_writer "insertB env" acked img
  for env :: "'s Env" and acked :: "'s \<Rightarrow> Row list" and img :: "Row \<Rightarrow> Row" +
  fixes simg :: "Row \<Rightarrow> Row"
  assumes no_splitter: "splitB env = None \<Longrightarrow> simg r = r"
    and with_splitter: "splitB env = Some f \<Longrightarrow> row_splitter f simg"
begin

lemma concat_splitRows: "concat (splitRows env rows) = map simg rows"
proof (cases "splitB env")
  case None
  then have "simg = (\<lambda>r. r)" using no_splitter by blast
  with None show ?thesis by (simp add: splitRows_def)
next
  case (Some f)
  have "concat (f rows) = map simg rows"
    using row_splitter.split_concat [OF with_splitter [OF Some]] .
  then show ?thesis using Some by (cases "f rows = []") (auto simp: splitRows_def)
qed

lemma insertChunks_ok:
  "insertChunks env w cs n = (w', m, None) \<Longrightarrow>
   acked w' = acked w @ map img (concat cs) \<and> m = n + int (length (concat cs))"
  by (induction cs arbitrary: w n) (fastforce split: prod.splits option.splits dest: insert_ok)+

lemma insertChunks_err:
  "insertChunks env w cs n = (w', m, Some e) \<Longrightarrow>
   \<exists>k. m = n + int k \<and> k < length (concat cs) \<and> acked w' = acked w @ map img (take k (concat cs))"
proof (induction cs arbitrary: w n)
  case (Cons c cs)
  obtain w1 res where ins: "insertB env w c = (w1, res)" by fastforce
  show ?case
  proof (cases res)
    case (Some d)
    then have "w1 = w'" "m = n + CommittedRows d" using Cons.prems ins by auto
    then show ?thesis
      using insert_err [of w c w1 d] ins Some by (intro exI [of _ "nat (CommittedRows d)"]) auto
  next
    case None
    with Cons.prems ins have "insertChunks env w1 cs (n + int (length c)) = (w', m, Some e)" by simp
    then obtain k where "m = n + int (length c) + int k" "k < length (concat cs)"
      "acked w' = acked w1 @ map img (take k (concat cs))"
      using Cons.IH by blast
    moreover have "acked w1 = acked w @ map img c" using insert_ok ins None by blast
    ultimately show ?thesis by (intro exI [of _ "length c + k"]) simp
  qed
qed simp

lemma insertRows_prefix:
  assumes "insertRows env w rows = (w', m, res)"
  obtains k where "k \<le> length rows" "m = int k" "res = None \<longleftrightarrow> k = length rows"
    "acked w' = acked w @ map (\<lambda>r. img (simg r)) (take k rows)"
proof (cases res)
  case None
  then show ?thesis
    using that [of "length rows"] insertChunks_ok [of w "splitRows env rows" 0 w' m] assms
    by (simp add: insertRows_def concat_splitRows comp_def)
next
  case (Some e)
  then obtain k where "m = int k" "k < length rows"
    "acked w' = acked w @ map img (take k (map simg rows))"
    using insertChunks_err [of w "splitRows env rows" 0 w' m e] assms
    by (auto simp: insertRows_def concat_splitRows)
  then show ?thesis using that [of k] Some by (simp add: take_map comp_def)
qed

lemma attempt_prefix:
  assumes "attempt env b rows = (b', rows', res)"
  obtains k where "k \<le> length rows" "rows' = drop k rows" "res = None \<longleftrightarrow> k = length rows"
    "acked (world b') = acked (world b) @ map (\<lambda>r. img (simg r)) (take k rows)"
    "obs b' = obs b @ (if k = 0 then [] else [Flushed (int k)])" "waits b' = waits b"
proof -
  obtain w m res' where ins: "insertRows env (world b) rows = (w, m, res')" by (metis prod_cases3)
  from insertRows_prefix [OF this] obtain k where "k \<le> length rows" "m = int k"
    "res' = None \<longleftrightarrow> k = length rows"
    "acked w = acked (world b) @ map (\<lambda>r. img (simg r)) (take k rows)" .
  then show ?thesis
    using that [of k] assms ins by (auto simp: attempt_def Let_def split: if_splits)
qed

text \<open>What a flush did, as a relation between its first and last state.\<close>

definition flushed :: "'s Buffer \<Rightarrow> Row list \<Rightarrow> 's Buffer \<Rightarrow> nat \<Rightarrow> bool" where
  "flushed b rows b' k \<longleftrightarrow> k \<le> length rows \<and>
     acked (world b') = acked (world b) @ map (\<lambda>r. img (simg r)) (take k rows) \<and>
     (\<exists>tr. obs b' = obs b @ tr \<and> rowsFlushed tr = int k \<and>
        rowsDropped tr = int (length rows) - int k \<and> Enqueued \<notin> set tr \<and>
        (FlushFailed \<in> set tr \<longleftrightarrow> k < length rows))"

lemma flushed_giveUp:
  "rows \<noteq> [] \<Longrightarrow> world b' = world b \<Longrightarrow> obs b' = obs b @ tr \<Longrightarrow> set tr \<subseteq> {FlushNonRetryable} \<Longrightarrow>
   flushed b rows (giveUp b' rows) 0"
proof -
  assume "rows \<noteq> []" "world b' = world b" "obs b' = obs b @ tr" and tr: "set tr \<subseteq> {FlushNonRetryable}"
  have "rowsFlushed tr = 0 \<and> rowsDropped tr = 0" using tr by (induction tr) auto
  with \<open>rows \<noteq> []\<close> \<open>world b' = world b\<close> \<open>obs b' = obs b @ tr\<close> tr show ?thesis
    unfolding flushed_def giveUp_def
    by (intro conjI exI [of _ "tr @ [FlushFailed, Dropped (int (length rows))]"]) auto
qed

lemma flushed_trans:
  assumes "k \<le> length rows"
    and "acked (world b1) = acked (world b) @ map (\<lambda>r. img (simg r)) (take k rows)"
    and "obs b1 = obs b @ (if k = 0 then [] else [Flushed (int k)])"
    and "flushed b1 (drop k rows) b' m"
  shows "flushed b rows b' (k + m)"
proof -
  from assms(4) obtain tr where tr: "obs b' = obs b1 @ tr" "rowsFlushed tr = int m"
    "rowsDropped tr = int (length rows - k) - int m" "Enqueued \<notin> set tr"
    "FlushFailed \<in> set tr \<longleftrightarrow> m < length rows - k" and m: "m \<le> length rows - k"
    "acked (world b') = acked (world b1) @ map (\<lambda>r. img (simg r)) (take m (drop k rows))"
    by (auto simp: flushed_def)
  have "take k rows @ take m (drop k rows) = take (k + m) rows" by (rule take_append_drop_take)
  then have "acked (world b') = acked (world b) @ map (\<lambda>r. img (simg r)) (take (k + m) rows)"
    using assms(2) m(2) by (metis append.assoc map_append)
  then show ?thesis
    unfolding flushed_def using assms(1,3) tr m(1)
    by (intro conjI exI [of _ "(if k = 0 then [] else [Flushed (int k)]) @ tr"]) auto
qed

lemma flushLoop_flushed:
  assumes "rows \<noteq> []"
  shows "\<exists>k. flushed b rows (flushLoop env cfg n b rows backoff) k"
  using assms
proof (induction n arbitrary: b rows backoff)
  case 0
  then show ?case using flushed_giveUp [of rows b b "[]"] by auto
next
  case (Suc n)
  obtain b1 rows1 res where att: "attempt env b rows = (b1, rows1, res)" by (metis prod_cases3)
  from attempt_prefix [OF att] obtain k where k: "k \<le> length rows" "rows1 = drop k rows"
    "res = None \<longleftrightarrow> k = length rows"
    "acked (world b1) = acked (world b) @ map (\<lambda>r. img (simg r)) (take k rows)"
    "obs b1 = obs b @ (if k = 0 then [] else [Flushed (int k)])" .
  show ?case
  proof (cases res)
    case None
    with k Suc.prems have "flushed b rows b1 k" by (auto simp: flushed_def)
    then show ?thesis using att None by auto
  next
    case (Some e)
    with k have ne: "drop k rows \<noteq> []" by simp
    let ?b = "b1\<lparr>waits := waits b1 @ [backoff]\<rparr>"
    let ?loop = "flushLoop env cfg (Suc n) b rows backoff"
    have sub: "\<exists>m. flushed b1 (drop k rows) b' m"
      if "b' = giveUp (b1\<lparr>obs := obs b1 @ [FlushNonRetryable]\<rparr>) (drop k rows) \<or>
          b' = giveUp b1 (drop k rows) \<or>
          b' = flushLoop env cfg n ?b (drop k rows) (min (i64 (backoff * 2)) (RetryMaxBackoff cfg)) \<or>
          b' = flushLoop env cfg n b1 (drop k rows) backoff" for b'
      using that flushed_giveUp [OF ne, of "b1\<lparr>obs := obs b1 @ [FlushNonRetryable]\<rparr>" b1 "[FlushNonRetryable]"]
        flushed_giveUp [OF ne, of b1 b1 "[]"] Suc.IH [OF ne, of b1 backoff]
        Suc.IH [OF ne, of ?b "min (i64 (backoff * 2)) (RetryMaxBackoff cfg)"]
      by (auto simp: flushed_def)
    obtain m where "flushed b1 (drop k rows) ?loop m"
    proof (rule exE [OF sub])
      show "?loop = giveUp (b1\<lparr>obs := obs b1 @ [FlushNonRetryable]\<rparr>) (drop k rows) \<or>
          ?loop = giveUp b1 (drop k rows) \<or>
          ?loop = flushLoop env cfg n ?b (drop k rows) (min (i64 (backoff * 2)) (RetryMaxBackoff cfg)) \<or>
          ?loop = flushLoop env cfg n b1 (drop k rows) backoff"
        using att Some k(2) by simp
    qed
    from flushed_trans [OF k(1,4,5) this] show ?thesis by blast
  qed
qed

lemma flush_flushed: "rows \<noteq> [] \<Longrightarrow> \<exists>k. flushed b (dedupe rows) (flush env cfg b rows) k"
  unfolding flush_def by (rule flushLoop_flushed) (simp add: dedupe_nonempty)

end


section \<open>Attempts and waits\<close>

text \<open>The first waits of the retry loop, starting at \<open>d\<close>.\<close>

fun backoffs :: "duration \<Rightarrow> duration \<Rightarrow> nat \<Rightarrow> duration list" where
  "backoffs mx d 0 = []"
| "backoffs mx d (Suc m) = d # backoffs mx (min (i64 (d * 2)) mx) m"

lemma backoffs_closed:
  assumes "0 < d" and "0 < mx" and "mx < 2 ^ 62"
  shows "backoffs mx (min (d * 2 ^ i) mx) m = map (\<lambda>j. min (d * 2 ^ j) mx) [i..<i + m]"
proof (induction m arbitrary: i)
  case (Suc m)
  let ?x = "min (d * 2 ^ i) mx"
  have x: "0 < ?x" "?x \<le> mx" using assms by auto
  moreover have "(2::int) ^ 63 = 2 * 2 ^ 62" by simp
  ultimately have "i64 (?x * 2) = ?x * 2" using assms(3) by (intro i64_id) linarith+
  then have "min (i64 (?x * 2)) mx = min (d * 2 ^ Suc i) mx" using assms x by (auto simp: min_def)
  then show ?case using Suc.IH [of "Suc i"] by (simp add: upt_rec [of i])
qed simp

text \<open>
  A run of the retry loop: the waits it made, at most one fewer than its attempts,
  and the reasons it can have to give up.
\<close>

lemma attempt_frame:
  "attempt env b rows = (b', rows', res) \<Longrightarrow>
   waits b' = waits b \<and> (\<exists>tr. obs b' = obs b @ tr \<and> FlushFailed \<notin> set tr)"
  by (auto simp: attempt_def Let_def split: prod.splits if_splits)

lemma flushLoop_waits:
  "\<exists>m tr. m \<le> n - 1 \<and>
     waits (flushLoop env cfg n b rows backoff) =
       waits b @ backoffs (RetryMaxBackoff cfg) backoff m \<and>
     obs (flushLoop env cfg n b rows backoff) = obs b @ tr \<and>
     (FlushFailed \<in> set tr \<longrightarrow> FlushNonRetryable \<in> set tr \<or>
        flushBaseErr env (world (flushLoop env cfg n b rows backoff)) \<or> m = n - 1)"
proof (induction n arbitrary: b rows backoff)
  case 0
  then show ?case by (simp add: giveUp_def)
next
  case (Suc n)
  obtain b1 rows1 res where att: "attempt env b rows = (b1, rows1, res)" by (metis prod_cases3)
  from attempt_frame [OF att] obtain tr1 where fr: "waits b1 = waits b" "obs b1 = obs b @ tr1"
    "FlushFailed \<notin> set tr1" by blast
  show ?case
  proof (cases res)
    case None
    then show ?thesis using att fr by (intro exI [of _ 0] exI [of _ tr1]) simp
  next
    case (Some e)
    let ?b = "b1\<lparr>waits := waits b1 @ [backoff]\<rparr>"
    let ?next = "min (i64 (backoff * 2)) (RetryMaxBackoff cfg)"
    consider "isNonRetryable e \<or> flushBaseErr env (world b1)"
      | "\<not> isNonRetryable e" "\<not> flushBaseErr env (world b1)" "0 < n"
      | "\<not> isNonRetryable e" "\<not> flushBaseErr env (world b1)" "n = 0" by blast
    then show ?thesis
    proof cases
      case 1
      then show ?thesis using att fr Some
        by (intro exI [of _ 0] exI [of _ "tr1 @ (if isNonRetryable e then [FlushNonRetryable] else []) @
              [FlushFailed, Dropped (int (length rows1))]"]) (auto simp: giveUp_def)
    next
      case 2
      from Suc.IH [of ?b rows1 ?next] obtain m tr where m: "m \<le> n - 1"
        "waits (flushLoop env cfg n ?b rows1 ?next) =
           waits ?b @ backoffs (RetryMaxBackoff cfg) ?next m"
        "obs (flushLoop env cfg n ?b rows1 ?next) = obs ?b @ tr"
        "FlushFailed \<in> set tr \<longrightarrow> FlushNonRetryable \<in> set tr \<or>
           flushBaseErr env (world (flushLoop env cfg n ?b rows1 ?next)) \<or> m = n - 1" by blast
      have "flushLoop env cfg (Suc n) b rows backoff = flushLoop env cfg n ?b rows1 ?next"
        using att Some 2 by simp
      then show ?thesis using m fr 2(3)
        by (intro exI [of _ "Suc m"] exI [of _ "tr1 @ tr"]) auto
    next
      case 3
      then show ?thesis using att fr Some
        by (intro exI [of _ 0] exI [of _ "tr1 @ [FlushFailed, Dropped (int (length rows1))]"])
          (simp add: giveUp_def)
    qed
  qed
qed

section \<open>Properties\<close>

text \<open>
  C31. \<^verbatim>\<open>dedupe\<close> keeps one row per query id: the ids of the batch in the order of their
  first appearance, each with the last row that carries it.
\<close>

theorem dedupe_keeps_latest:
  "map QueryID (dedupe rows) = queryIds rows \<and> distinct (map QueryID (dedupe rows)) \<and>
   set (map QueryID (dedupe rows)) = QueryID ` set rows \<and> dedupe rows = map (latest rows) (queryIds rows)"
  using map_id_dedupeRef [of rows] set_queryIds [of rows] distinct_queryIds [of rows]
  unfolding dedupe_ref by (auto simp: dedupeRef_def)

text \<open>
  C12. The retry schedule: with a positive backoff not above its cap (and the cap below
  146 years), a flush of at most \<^verbatim>\<open>MaxRetries + 1\<close> attempts waits \<^verbatim>\<open>RetryBackoff\<close> doubled each
  time and cut at \<^verbatim>\<open>RetryMaxBackoff\<close>, without overflow. It gives up rows only after a
  non-retryable error, after the flush context was cancelled, or after all
  \<^verbatim>\<open>MaxRetries\<close> waits.
\<close>

theorem flush_retry_schedule:
  assumes "0 \<le> MaxRetries cfg" and "0 < RetryBackoff cfg"
    and "RetryBackoff cfg \<le> RetryMaxBackoff cfg" and "RetryMaxBackoff cfg < 2 ^ 62"
  shows "\<exists>m tr. int m \<le> MaxRetries cfg \<and>
     waits (flush env cfg b rows) =
       waits b @ map (\<lambda>j. min (RetryBackoff cfg * 2 ^ j) (RetryMaxBackoff cfg)) [0..<m] \<and>
     obs (flush env cfg b rows) = obs b @ tr \<and>
     (FlushFailed \<in> set tr \<longrightarrow> FlushNonRetryable \<in> set tr \<or>
        flushBaseErr env (world (flush env cfg b rows)) \<or> int m = MaxRetries cfg)"
proof -
  have b0: "RetryBackoff cfg = min (RetryBackoff cfg * 2 ^ 0) (RetryMaxBackoff cfg)" using assms by simp
  have "backoffs (RetryMaxBackoff cfg) (RetryBackoff cfg) m =
      map (\<lambda>j. min (RetryBackoff cfg * 2 ^ j) (RetryMaxBackoff cfg)) [0..<m]" for m
    using backoffs_closed [of "RetryBackoff cfg" "RetryMaxBackoff cfg" 0 m] assms b0 by simp
  moreover obtain m tr where m: "m \<le> nat (MaxRetries cfg + 1) - 1"
    "waits (flush env cfg b rows) = waits b @ backoffs (RetryMaxBackoff cfg) (RetryBackoff cfg) m"
    "obs (flush env cfg b rows) = obs b @ tr"
    "FlushFailed \<in> set tr \<longrightarrow> FlushNonRetryable \<in> set tr \<or>
       flushBaseErr env (world (flush env cfg b rows)) \<or> m = nat (MaxRetries cfg + 1) - 1"
    using flushLoop_waits [of "nat (MaxRetries cfg + 1)" env cfg b "dedupe rows" "RetryBackoff cfg"]
    unfolding flush_def by blast
  moreover have "int (nat (MaxRetries cfg + 1) - 1) = MaxRetries cfg" using assms(1) by simp
  ultimately show ?thesis by (intro exI [of _ m] exI [of _ tr]) auto
qed

text \<open>A writer that always fails, for the witness.\<close>

definition downEnv :: "unit Env" where
  "downEnv = \<lparr>insertB = \<lambda>w rows. (w, Some (EOther ''down'')), splitB = None,
     flushBaseErr = \<lambda>w. False, flushCancel = \<lambda>w. w, clock = \<lambda>w. 0\<rparr>"

definition exampleCfg :: BufferCfg where
  "exampleCfg = \<lparr>BatchSize = 2, FlushInterval = 1, BufferCapacity = 3, MaxRetries = 3,
     FlushTimeout = 1, RetryBackoff = 3, RetryMaxBackoff = 10\<rparr>"

definition freshBuffer :: "'s \<Rightarrow> 's Buffer" where
  "freshBuffer w = \<lparr>world = w, lastFlushUnixMs = 0, lastFlushDurationMs = 0, obs = [], waits = []\<rparr>"

theorem flush_retry_schedule_witness:
  "\<exists>m. int m \<le> 3 \<and>
     waits (flush downEnv exampleCfg (freshBuffer ()) [zeroRow]) =
       map (\<lambda>j. min (3 * 2 ^ j) 10) [0..<m] \<and>
     flush downEnv exampleCfg (freshBuffer ()) [zeroRow] =
       (freshBuffer ())\<lparr>obs := [FlushFailed, Dropped 1], waits := [3, 6, 10]\<rparr>"
proof -
  have run: "flush downEnv exampleCfg (freshBuffer ()) [zeroRow] =
      (freshBuffer ())\<lparr>obs := [FlushFailed, Dropped 1], waits := [3, 6, 10]\<rparr>"
    by (simp add: flush_def dedupe_def exampleCfg_def downEnv_def freshBuffer_def eval_nat_numeral
        attempt_def insertRows_def splitRows_def CommittedRows_def giveUp_def i64_def)
  show ?thesis
    using flush_retry_schedule [of exampleCfg downEnv "freshBuffer ()" "[zeroRow]"]
    by (simp add: run) (auto simp: exampleCfg_def freshBuffer_def)
qed


end
