(* ===== verification/IngestRun.thy ===== *)
theory IngestRun
  imports IngestBuffer
begin

text \<open>
  The concurrent part of \<^verbatim>\<open>ingest/buffer.go\<close>: producers calling \<^verbatim>\<open>Add\<close>, the flusher's loop
  \<^verbatim>\<open>run\<close> with \<^verbatim>\<open>drain\<close>, and \<^verbatim>\<open>Close\<close>, as a step relation. A \<^verbatim>\<open>select\<close> with several ready cases
  takes any of them. A flush is one step: it touches neither the channel nor the stop
  signal, so it commutes with the steps producers take while it runs.
\<close>

section \<open>State\<close>

datatype phase = Running | Draining | Finished

text \<open>
  \<open>chan\<close> is the buffered channel, \<open>stopped\<close> that \<^verbatim>\<open>stop\<close> is closed, \<open>phase\<close> where the flusher
  is, \<open>batch\<close> its slice. The last two fields are history: the rows handed to
  \<^verbatim>\<open>Add\<close> so far and how many rows \<^verbatim>\<open>dedupe\<close> replaced.
\<close>

record 's Sys =
  chan :: "Row list"
  stopped :: bool
  phase :: phase
  batch :: "Row list"
  buf :: "'s Buffer"
  offered :: "Row list"
  superseded :: int

definition newBuffer :: "'s \<Rightarrow> 's Sys" where
  "newBuffer w = \<lparr>chan = [], stopped = False, phase = Running, batch = [], buf = freshBuffer w,
     offered = [], superseded = 0\<rparr>"

section \<open>Operations\<close>

text \<open>The cases of the \<^verbatim>\<open>select\<close> in \<^verbatim>\<open>Add\<close>.\<close>

datatype addCase = CaseSend | CaseStop | CaseDefault

definition hasRoom :: "BufferCfg \<Rightarrow> 's Sys \<Rightarrow> bool" where
  "hasRoom cfg s = (int (length (chan s)) < BufferCapacity cfg)"

fun addReady :: "BufferCfg \<Rightarrow> 's Sys \<Rightarrow> addCase \<Rightarrow> bool" where
  "addReady cfg s CaseSend = hasRoom cfg s"
| "addReady cfg s CaseStop = stopped s"
| "addReady cfg s CaseDefault = (\<not> hasRoom cfg s \<and> \<not> stopped s)"

definition observe :: "obsEvent \<Rightarrow> 's Sys \<Rightarrow> 's Sys" where
  "observe e s = s\<lparr>buf := (buf s)\<lparr>obs := obs (buf s) @ [e]\<rparr>\<rparr>"

fun Add :: "addCase \<Rightarrow> Row \<Rightarrow> 's Sys \<Rightarrow> 's Sys" where
  "Add CaseSend r s = observe Enqueued (s\<lparr>chan := chan s @ [r], offered := offered s @ [r]\<rparr>)"
| "Add CaseStop r s = observe (Dropped 1) (s\<lparr>offered := offered s @ [r]\<rparr>)"
| "Add CaseDefault r s = observe (Dropped 1) (s\<lparr>offered := offered s @ [r]\<rparr>)"

definition closeStop :: "'s Sys \<Rightarrow> 's Sys" where
  "closeStop s = s\<lparr>stopped := True\<rparr>"

definition cancelFlush :: "'s Env \<Rightarrow> 's Sys \<Rightarrow> 's Sys" where
  "cancelFlush env s = s\<lparr>buf := (buf s)\<lparr>world := flushCancel env (world (buf s))\<rparr>\<rparr>"

text \<open>The closure \<^verbatim>\<open>flush\<close> of \<^verbatim>\<open>run\<close>.\<close>

definition flushBatch :: "'s Env \<Rightarrow> BufferCfg \<Rightarrow> 's Sys \<Rightarrow> 's Sys" where
  "flushBatch env cfg s =
     (if length (batch s) = 0 then s
      else s\<lparr>buf := flush env cfg (buf s) (batch s), batch := [],
             superseded := superseded s + int (length (batch s)) - int (length (dedupe (batch s)))\<rparr>)"

text \<open>\<^verbatim>\<open>case r := <-b.ch\<close>, the same in \<^verbatim>\<open>run\<close> and in \<^verbatim>\<open>drain\<close>.\<close>

definition recv :: "'s Env \<Rightarrow> BufferCfg \<Rightarrow> 's Sys \<Rightarrow> 's Sys" where
  "recv env cfg s =
     (case chan s of
        [] \<Rightarrow> s
      | r # rest \<Rightarrow>
          (let s = s\<lparr>chan := rest, batch := batch s @ [r]\<rparr>
           in if BatchSize cfg \<le> int (length (batch s)) then flushBatch env cfg s else s))"

text \<open>The end of \<^verbatim>\<open>run\<close>: the last flush, then the deferred calls.\<close>

definition finish :: "'s Env \<Rightarrow> BufferCfg \<Rightarrow> 's Sys \<Rightarrow> 's Sys" where
  "finish env cfg s = (cancelFlush env (flushBatch env cfg s))\<lparr>phase := Finished\<rparr>"

text \<open>\<^verbatim>\<open>Stats\<close>\<close>

definition Stats :: "BufferCfg \<Rightarrow> 's Sys \<Rightarrow> int \<times> int \<times> int \<times> int" where
  "Stats cfg s = (int (length (chan s)), BufferCapacity cfg,
     lastFlushUnixMs (buf s), lastFlushDurationMs (buf s))"

section \<open>Steps\<close>

inductive step :: "'s Env \<Rightarrow> BufferCfg \<Rightarrow> 's Sys \<Rightarrow> 's Sys \<Rightarrow> bool" for env cfg where
  produce: "addReady cfg s c \<Longrightarrow> step env cfg s (Add c r s)"
| close: "step env cfg s (closeStop s)"
| cancel: "stopped s \<Longrightarrow> step env cfg s (cancelFlush env s)"
| receive: "phase s \<noteq> Finished \<Longrightarrow> chan s \<noteq> [] \<Longrightarrow> step env cfg s (recv env cfg s)"
| tick: "phase s = Running \<Longrightarrow> step env cfg s (flushBatch env cfg s)"
| stop: "phase s = Running \<Longrightarrow> stopped s \<Longrightarrow> step env cfg s (s\<lparr>phase := Draining\<rparr>)"
| drained: "phase s = Draining \<Longrightarrow> chan s = [] \<Longrightarrow> step env cfg s (finish env cfg s)"

inductive steps :: "'s Env \<Rightarrow> BufferCfg \<Rightarrow> 's Sys \<Rightarrow> 's Sys \<Rightarrow> bool" for env cfg where
  steps_refl: "steps env cfg s s"
| steps_step: "steps env cfg s t \<Longrightarrow> step env cfg t u \<Longrightarrow> steps env cfg s u"

inductive_cases step_elim: "step env cfg s t"

lemma steps_trans:
  assumes "steps env cfg t u" and "steps env cfg s t"
  shows "steps env cfg s u"
  using assms by (induction rule: steps.induct) (auto intro: steps_step)

lemma step_steps: "step env cfg s t \<Longrightarrow> steps env cfg s t"
  by (rule steps_step [OF steps_refl])

text \<open>An invariant of the steps holds in every state they reach.\<close>

lemma steps_invariant:
  assumes "steps env cfg s t" and "I s" and "\<And>u v. step env cfg u v \<Longrightarrow> I u \<Longrightarrow> I v"
  shows "I t"
  using assms by (induction rule: steps.induct) auto

section \<open>Frame facts\<close>

lemma flushBatch_frame [buf_simps]:
  "chan (flushBatch env cfg s) = chan s" "stopped (flushBatch env cfg s) = stopped s"
  "phase (flushBatch env cfg s) = phase s" "batch (flushBatch env cfg s) = []"
  "offered (flushBatch env cfg s) = offered s"
  by (simp_all add: flushBatch_def)

lemma cancelFlush_frame [buf_simps]:
  "chan (cancelFlush env s) = chan s" "stopped (cancelFlush env s) = stopped s"
  "phase (cancelFlush env s) = phase s" "batch (cancelFlush env s) = batch s"
  "offered (cancelFlush env s) = offered s" "superseded (cancelFlush env s) = superseded s"
  "obs (buf (cancelFlush env s)) = obs (buf s)"
  "world (buf (cancelFlush env s)) = flushCancel env (world (buf s))"
  by (simp_all add: cancelFlush_def)

lemma Add_frame [buf_simps]:
  "stopped (Add c r s) = stopped s" "phase (Add c r s) = phase s" "batch (Add c r s) = batch s"
  "offered (Add c r s) = offered s @ [r]" "superseded (Add c r s) = superseded s"
  "world (buf (Add c r s)) = world (buf s)"
  "chan (Add c r s) = (if c = CaseSend then chan s @ [r] else chan s)"
  "obs (buf (Add c r s)) = obs (buf s) @ [if c = CaseSend then Enqueued else Dropped 1]"
  by (cases c; simp add: observe_def)+

lemma recv_frame [buf_simps]:
  "chan (recv env cfg s) = tl (chan s)" "stopped (recv env cfg s) = stopped s"
  "phase (recv env cfg s) = phase s" "offered (recv env cfg s) = offered s"
  by (cases "chan s"; simp add: recv_def Let_def buf_simps)+

section \<open>Bounded memory\<close>

text \<open>
  The channel never holds more than its capacity, the batch always fewer rows than
  the batch size; a flusher that left its loop saw the stop signal and left no batch.
\<close>

definition bounded :: "BufferCfg \<Rightarrow> 's Sys \<Rightarrow> bool" where
  "bounded cfg s \<longleftrightarrow>
     int (length (chan s)) \<le> BufferCapacity cfg \<and> int (length (batch s)) < BatchSize cfg \<and>
     (phase s \<noteq> Running \<longrightarrow> stopped s) \<and> (phase s = Finished \<longrightarrow> batch s = [])"

lemma bounded_recv:
  "1 \<le> BatchSize cfg \<Longrightarrow> phase s \<noteq> Finished \<Longrightarrow> bounded cfg s \<Longrightarrow> bounded cfg (recv env cfg s)"
  by (cases "chan s") (auto simp: bounded_def recv_def Let_def buf_simps)

lemma step_bounded:
  assumes "1 \<le> BatchSize cfg" and "step env cfg s t" and "bounded cfg s"
  shows "bounded cfg t"
  using assms(2,3)
proof (cases rule: step.cases)
  case (produce c r)
  then show ?thesis using assms(3) by (cases c) (auto simp: bounded_def hasRoom_def observe_def)
next
  case receive
  then show ?thesis using assms bounded_recv by blast
qed (use assms in \<open>auto simp: bounded_def buf_simps closeStop_def finish_def\<close>)

section \<open>Conservation\<close>

text \<open>
  Where every offered row is: stored, reported as dropped, replaced by a newer row of the
  same query in its batch, or still in memory.
\<close>

definition accounted :: "('s \<Rightarrow> Row list) \<Rightarrow> (Row \<Rightarrow> Row) \<Rightarrow> 's Sys \<Rightarrow> bool" where
  "accounted acked stored s \<longleftrightarrow>
     int (length (offered s)) = rowsFlushed (obs (buf s)) + rowsDropped (obs (buf s)) + superseded s +
       int (length (batch s)) + int (length (chan s)) \<and>
     int (length (acked (world (buf s)))) = rowsFlushed (obs (buf s)) \<and>
     0 \<le> superseded s \<and> 0 \<le> rowsDropped (obs (buf s)) \<and>
     set (batch s) \<union> set (chan s) \<subseteq> set (offered s) \<and>
     set (acked (world (buf s))) \<subseteq> stored ` set (offered s)"

locale run_env = buffer_env +
  assumes cancel_keeps: "acked (flushCancel env w) = acked w"
begin

lemma accounted_flushBatch:
  assumes "accounted acked (\<lambda>r. img (simg r)) s"
  shows "accounted acked (\<lambda>r. img (simg r)) (flushBatch env cfg s)"
proof (cases "batch s = []")
  case False
  let ?d = "dedupe (batch s)"
  from flush_flushed [OF False] obtain k where "flushed (buf s) ?d (flush env cfg (buf s) (batch s)) k"
    by blast
  then obtain tr where k: "k \<le> length ?d"
    "acked (world (flush env cfg (buf s) (batch s))) =
       acked (world (buf s)) @ map (\<lambda>r. img (simg r)) (take k ?d)"
    "obs (flush env cfg (buf s) (batch s)) = obs (buf s) @ tr" "rowsFlushed tr = int k"
    "rowsDropped tr = int (length ?d) - int k"
    unfolding flushed_def by blast
  have sub: "set (take k ?d) \<subseteq> set (batch s)" using set_dedupe set_take_subset by fastforce
  show ?thesis
    using assms k sub length_dedupe_le [of "batch s"] False
    by (auto simp: accounted_def flushBatch_def)
qed (use assms in \<open>simp add: flushBatch_def\<close>)

lemma accounted_recv:
  assumes "accounted acked (\<lambda>r. img (simg r)) s"
  shows "accounted acked (\<lambda>r. img (simg r)) (recv env cfg s)"
proof (cases "chan s")
  case (Cons r rest)
  have "accounted acked (\<lambda>r. img (simg r)) (s\<lparr>chan := rest, batch := batch s @ [r]\<rparr>)"
    using assms Cons by (auto simp: accounted_def)
  with Cons show ?thesis by (simp add: recv_def Let_def accounted_flushBatch)
qed (use assms in \<open>simp add: recv_def\<close>)

lemma accounted_cancel:
  "accounted acked stored s \<Longrightarrow> accounted acked stored (cancelFlush env s)"
  by (simp add: accounted_def buf_simps cancel_keeps)

lemma step_accounted:
  assumes "step env cfg s t" and "accounted acked (\<lambda>r. img (simg r)) s"
  shows "accounted acked (\<lambda>r. img (simg r)) t"
  using assms
proof (cases rule: step.cases)
  case (produce c r)
  then show ?thesis using assms(2) by (cases c) (auto simp: accounted_def observe_def)
next
  case drained
  have "accounted acked (\<lambda>r. img (simg r)) (cancelFlush env (flushBatch env cfg s))"
    using assms(2) by (intro accounted_cancel accounted_flushBatch)
  then show ?thesis using drained by (simp add: accounted_def finish_def)
qed (use assms in \<open>auto simp: accounted_flushBatch accounted_recv accounted_cancel\<close>,
     auto simp: accounted_def closeStop_def)

lemma reachable_accounted:
  assumes "acked w = []" and "steps env cfg (newBuffer w) s"
  shows "accounted acked (\<lambda>r. img (simg r)) s"
  by (rule steps_invariant [OF assms(2)])
    (use assms(1) step_accounted in \<open>auto simp: accounted_def newBuffer_def freshBuffer_def\<close>)

end

section \<open>Shutting down\<close>

text \<open>\<^verbatim>\<open>drain\<close> with no producer running: it takes rows until the channel is empty.\<close>

function drain :: "'s Env \<Rightarrow> BufferCfg \<Rightarrow> 's Sys \<Rightarrow> 's Sys" where
  "drain env cfg s = (if chan s = [] then s else drain env cfg (recv env cfg s))"
  by pat_completeness auto
termination
  by (relation "measure (\<lambda>(env, cfg, s). length (chan s))") (auto simp: buf_simps)

declare drain.simps [simp del]

text \<open>\<^verbatim>\<open>case <-b.stop: b.drain(&batch); flush(); return\<close>\<close>

definition shutdown :: "'s Env \<Rightarrow> BufferCfg \<Rightarrow> 's Sys \<Rightarrow> 's Sys" where
  "shutdown env cfg s = finish env cfg (drain env cfg (s\<lparr>phase := Draining\<rparr>))"

lemma drain_frame [buf_simps]:
  "chan (drain env cfg s) = []" "stopped (drain env cfg s) = stopped s"
  "phase (drain env cfg s) = phase s" "offered (drain env cfg s) = offered s"
  by (induction env cfg s rule: drain.induct; simp add: drain.simps buf_simps)+

lemma drain_steps: "phase s = Draining \<Longrightarrow> steps env cfg s (drain env cfg s)"
proof (induction env cfg s rule: drain.induct)
  case (1 env cfg s)
  show ?case
  proof (cases "chan s = []")
    case True
    then show ?thesis by (simp add: drain.simps steps_refl)
  next
    case False
    have "step env cfg s (recv env cfg s)" using "1.prems" False by (intro receive) auto
    moreover have "steps env cfg (recv env cfg s) (drain env cfg (recv env cfg s))"
      using "1" False by (simp add: buf_simps)
    ultimately show ?thesis
      using False steps_trans [OF _ step_steps] by (simp add: drain.simps [of env cfg s])
  qed
qed

text \<open>The shutdown function is a run of the step relation.\<close>

lemma shutdown_steps:
  assumes "phase s = Running" and "stopped s"
  shows "steps env cfg s (shutdown env cfg s)"
proof -
  let ?s = "s\<lparr>phase := Draining\<rparr>"
  have "steps env cfg s ?s" using assms by (intro step_steps stop)
  moreover have "steps env cfg ?s (drain env cfg ?s)" by (rule drain_steps) simp
  moreover have "step env cfg (drain env cfg ?s) (shutdown env cfg s)"
    unfolding shutdown_def by (rule drained) (simp_all add: buf_simps)
  ultimately show ?thesis using steps_trans step_steps by blast
qed

lemma shutdown_frame:
  "chan (shutdown env cfg s) = []" "batch (shutdown env cfg s) = []"
  "phase (shutdown env cfg s) = Finished" "offered (shutdown env cfg s) = offered s"
  by (simp_all add: shutdown_def finish_def buf_simps)

section \<open>Properties\<close>

text \<open>
  Memory is bounded in every interleaving: with a batch size and capacity of at least
  one, every reachable state has at most \<^verbatim>\<open>BufferCapacity\<close> rows in the channel and fewer than
  \<^verbatim>\<open>BatchSize\<close> in the batch, and a flusher that has returned left no batch behind.
\<close>

theorem buffer_bounded:
  assumes "1 \<le> BatchSize cfg" and "1 \<le> BufferCapacity cfg" and "steps env cfg (newBuffer w) s"
  shows "int (length (chan s)) \<le> BufferCapacity cfg \<and> int (length (batch s)) < BatchSize cfg \<and>
    (phase s = Finished \<longrightarrow> batch s = [] \<and> stopped s)"
proof -
  have "bounded cfg (newBuffer w)" using assms(1,2) by (simp add: bounded_def newBuffer_def)
  then have "bounded cfg s" using steps_invariant [OF assms(3)] step_bounded [OF assms(1)] by blast
  then show ?thesis by (auto simp: bounded_def)
qed

lemma example_run: "steps downEnv exampleCfg (newBuffer ()) (Add CaseSend zeroRow (newBuffer ()))"
  by (intro step_steps produce) (simp add: hasRoom_def newBuffer_def exampleCfg_def)

theorem buffer_bounded_witness:
  "int (length (chan (Add CaseSend zeroRow (newBuffer ())))) \<le> 3 \<and>
   steps downEnv exampleCfg (newBuffer ()) (Add CaseSend zeroRow (newBuffer ()))"
  using buffer_bounded [OF _ _ example_run] example_run by (simp add: exampleCfg_def)

lemma finished_keeps:
  assumes "step env cfg s t" and "phase s = Finished" and "r \<in> set (chan s)"
  shows "phase t = Finished \<and> r \<in> set (chan t)"
  using assms by (cases rule: step.cases) (auto simp: buf_simps closeStop_def)

text \<open>
  C32. A row can be lost silently: once the flusher has returned, \<^verbatim>\<open>Add\<close> may still take
  the send case (its \<^verbatim>\<open>select\<close> picks at random between the channel with room and the closed stop
  signal). The row is counted as enqueued, and in every later state it is still in the
  channel: it is neither stored nor reported as dropped.
\<close>

theorem add_after_finish_strands_row:
  assumes "phase s = Finished" and "hasRoom cfg s" and "steps env cfg (Add CaseSend r s) t"
  shows "step env cfg s (Add CaseSend r s) \<and>
    obs (buf (Add CaseSend r s)) = obs (buf s) @ [Enqueued] \<and> phase t = Finished \<and> r \<in> set (chan t)"
proof -
  have "phase (Add CaseSend r s) = Finished \<and> r \<in> set (chan (Add CaseSend r s))"
    using assms(1) by (simp add: observe_def)
  then have "phase t = Finished \<and> r \<in> set (chan t)"
    using steps_invariant [OF assms(3), of "\<lambda>u. phase u = Finished \<and> r \<in> set (chan u)"]
      finished_keeps by blast
  moreover have "step env cfg s (Add CaseSend r s)" using assms(2) by (intro produce) simp
  ultimately show ?thesis by (simp add: observe_def)
qed

theorem add_after_finish_strands_row_witness:
  "steps downEnv exampleCfg (newBuffer ()) (shutdown downEnv exampleCfg (closeStop (newBuffer ()))) \<and>
   zeroRow \<in> set (chan (Add CaseSend zeroRow (shutdown downEnv exampleCfg (closeStop (newBuffer ())))))"
proof -
  let ?c = "closeStop (newBuffer ()) :: unit Sys"
  let ?s = "shutdown downEnv exampleCfg ?c"
  have "steps downEnv exampleCfg (newBuffer ()) ?c" by (intro step_steps close)
  moreover have "steps downEnv exampleCfg ?c ?s"
    by (rule shutdown_steps) (simp_all add: closeStop_def newBuffer_def)
  moreover have "zeroRow \<in> set (chan (Add CaseSend zeroRow ?s))"
    using add_after_finish_strands_row [of ?s exampleCfg downEnv zeroRow, OF _ _ steps_refl]
    by (simp add: shutdown_frame hasRoom_def exampleCfg_def)
  ultimately show ?thesis using steps_trans by blast
qed


end
