(* ===== verification/IngestStores.thy ===== *)
theory IngestStores
  imports IngestRun ClickHouse
begin

text \<open>
  The ingest buffer over the two backends: the writer interface of the buffer is
  interpreted on \<^verbatim>\<open>TrinoStore\<close> and on \<^verbatim>\<open>ClickHouseStore\<close>, so everything proved of a flush and
  of the running buffer holds for the code's own stores.
\<close>

text \<open>
  A buffer whose writer is a Trino store. The context error, its cancellation and the
  clock belong to the driver's world.
\<close>

definition trinoEnv :: "'w execFn \<Rightarrow> TrinoStore \<Rightarrow> ('w \<Rightarrow> bool) \<Rightarrow> ('w \<Rightarrow> 'w) \<Rightarrow> ('w \<Rightarrow> time) \<Rightarrow>
    'w handle Env" where
  "trinoEnv exec st baseErr cncl now =
     \<lparr>insertB = InsertBatch exec st, splitB = Some (SplitBatch st),
      flushBaseErr = (\<lambda>w. baseErr (fst w)), flushCancel = (\<lambda>w. (cncl (fst w), snd w)),
      clock = (\<lambda>w. now (fst w))\<rparr>"

abbreviation clamped :: "TrinoStore \<Rightarrow> Row \<Rightarrow> Row" where
  "clamped st r \<equiv> clampRow st r (stmtBudget st)"

interpretation trinoRun: run_env "trinoEnv exec st baseErr cncl now" acked "clamped st" "clamped st"
    for exec :: "'w execFn" and st baseErr cncl now
proof (intro run_env.intro buffer_env.intro)
  show "batch_writer (insertB (trinoEnv exec st baseErr cncl now)) acked (clamped st)"
    by (simp add: trinoEnv_def InsertBatch_writer)
  show "buffer_env_axioms (trinoEnv exec st baseErr cncl now) (clamped st)"
    by (rule buffer_env_axioms.intro) (auto simp: trinoEnv_def intro: trino.row_splitter_axioms)
  show "run_env_axioms (trinoEnv exec st baseErr cncl now) acked"
    by unfold_locales (simp add: trinoEnv_def acked_def)
qed

text \<open>The same buffer with a ClickHouse store, which stores rows as they are.\<close>

definition clickhouseEnv :: "'w chConn \<Rightarrow> ClickHouseStore \<Rightarrow> ('w \<Rightarrow> bool) \<Rightarrow> ('w \<Rightarrow> 'w) \<Rightarrow> ('w \<Rightarrow> time) \<Rightarrow>
    'w handle Env" where
  "clickhouseEnv conn st baseErr cncl now =
     \<lparr>insertB = chInsertBatch conn st, splitB = Some (chSplitBatch st),
      flushBaseErr = (\<lambda>w. baseErr (fst w)), flushCancel = (\<lambda>w. (cncl (fst w), snd w)),
      clock = (\<lambda>w. now (fst w))\<rparr>"

interpretation clickhouseRun: run_env "clickhouseEnv conn st baseErr cncl now" acked "\<lambda>r. r" "\<lambda>r. r"
    for conn :: "'w chConn" and st baseErr cncl now
proof (intro run_env.intro buffer_env.intro)
  show "batch_writer (insertB (clickhouseEnv conn st baseErr cncl now)) acked (\<lambda>r. r)"
    by (simp add: clickhouseEnv_def chInsertBatch_writer)
  show "buffer_env_axioms (clickhouseEnv conn st baseErr cncl now) (\<lambda>r. r)"
    by (rule buffer_env_axioms.intro) (auto simp: clickhouseEnv_def intro: clickhouse.row_splitter_axioms)
  show "run_env_axioms (clickhouseEnv conn st baseErr cncl now) acked"
    by unfold_locales (simp add: clickhouseEnv_def acked_def)
qed

section \<open>Properties\<close>


text \<open>A database that accepts every statement, for the witnesses.\<close>

definition upExec :: "unit execFn" where
  "upExec w stmt as = (w, None)"

abbreviation exampleEnv :: "TrinoStore \<Rightarrow> unit handle Env" where
  "exampleEnv st \<equiv> trinoEnv upExec st (\<lambda>w. False) (\<lambda>w. w) (\<lambda>w. 0)"

lemma example_add:
  "steps (exampleEnv st) exampleCfg (newBuffer ((), []))
     (Add CaseSend zeroRow (newBuffer ((), [])))"
  by (intro step_steps produce) (simp add: hasRoom_def newBuffer_def exampleCfg_def)


text \<open>
  C6. Shutdown is graceful: when \<^verbatim>\<open>stop\<close> is closed and no producer is left, the flusher's drain
  and last flush are a run of the system that ends with empty channel and batch; by
  then every row ever offered is stored, counted as dropped, or superseded.
\<close>

theorem trino_shutdown_accounts_all:
  assumes "steps (trinoEnv exec st baseErr cncl now) cfg (newBuffer (d, [])) s"
    and "phase s = Running" and "stopped s"
  defines "t \<equiv> shutdown (trinoEnv exec st baseErr cncl now) cfg s"
  shows "steps (trinoEnv exec st baseErr cncl now) cfg s t \<and> phase t = Finished \<and>
    chan t = [] \<and> batch t = [] \<and>
    int (length (offered s)) =
      int (length (acked (world (buf t)))) + rowsDropped (obs (buf t)) + superseded t"
proof -
  let ?env = "trinoEnv exec st baseErr cncl now"
  have run: "steps ?env cfg s (shutdown ?env cfg s)" using assms(2,3) by (rule shutdown_steps)
  then have "steps ?env cfg (newBuffer (d, [])) (shutdown ?env cfg s)"
    using assms(1) steps_trans by blast
  from trinoRun.reachable_accounted [OF _ this]
  have "accounted acked (\<lambda>r. clamped st (clamped st r)) (shutdown ?env cfg s)" by (simp add: acked_def)
  then show ?thesis using run shutdown_frame [of ?env cfg s] by (simp add: accounted_def t_def)
qed

theorem trino_shutdown_accounts_all_witness:
  "\<exists>st t. NewTrino (\<lambda>_. None) (\<lambda>_. None) (exampleTrino 0) = Inr st \<and>
    steps (exampleEnv st) exampleCfg (closeStop (Add CaseSend zeroRow (newBuffer ((), [])))) t \<and>
    phase t = Finished \<and> chan t = [] \<and>
    1 = int (length (acked (world (buf t)))) + rowsDropped (obs (buf t)) + superseded t"
proof -
  obtain st where st: "NewTrino (\<lambda>_. None) (\<lambda>_. None) (exampleTrino 0) = Inr st"
    using NewTrino_exists by blast
  let ?s = "closeStop (Add CaseSend zeroRow (newBuffer ((), []))) :: unit handle Sys"
  have run: "steps (exampleEnv st) exampleCfg (newBuffer ((), [])) ?s"
    using example_add close by (rule steps_step)
  have s: "phase ?s = Running" "stopped ?s" "length (offered ?s) = 1"
    by (simp_all add: closeStop_def newBuffer_def observe_def)
  from trino_shutdown_accounts_all [OF run s(1,2)] s(3) st show ?thesis
    by (intro exI [of _ st] exI [of _ "shutdown (exampleEnv st) exampleCfg ?s"]) (auto simp del: Add.simps)
qed

lemma clamped_idem:
  assumes "NewTrino dsn open cfg = Inr st" and "\<And>f. length (getF f r) < 2 ^ 47"
  shows "clamped st (clamped st r) = clamped st r"
  using clampRow_fits [of st r] NewTrino_Inr(1) [OF assms(1)] assms(2)
  by (simp add: clampRow_id length_placeholder)

text \<open>
  C5. What one flush does over Trino: some prefix of the deduplicated batch is appended to
  the table, each row once and in order; exactly that many rows are reported as
  flushed, the others as dropped, and a failure is reported if and only if rows were
  dropped.
\<close>

theorem trino_flush_stores_prefix:
  assumes "NewTrino dsn open tcfg = Inr st" and "rows \<noteq> []"
    and "\<forall>r \<in> set rows. \<forall>f. length (getF f r) < 2 ^ 47"
  shows "\<exists>k tr. k \<le> length (dedupe rows) \<and>
    acked (world (flush (trinoEnv exec st baseErr cncl now) cfg b rows)) =
      acked (world b) @ map (clamped st) (take k (dedupe rows)) \<and>
    obs (flush (trinoEnv exec st baseErr cncl now) cfg b rows) = obs b @ tr \<and>
    rowsFlushed tr = int k \<and> rowsDropped tr = int (length (dedupe rows)) - int k \<and>
    (FlushFailed \<in> set tr \<longleftrightarrow> k < length (dedupe rows))"
proof -
  let ?env = "trinoEnv exec st baseErr cncl now"
  obtain k where k: "trinoRun.flushed st b (dedupe rows) (flush ?env cfg b rows) k"
    using trinoRun.flush_flushed [OF assms(2)] by blast
  have "r \<in> set rows" if "r \<in> set (take k (dedupe rows))" for r
    using that set_dedupe set_take_subset by fast
  then have "map (\<lambda>r. clamped st (clamped st r)) (take k (dedupe rows)) =
      map (clamped st) (take k (dedupe rows))"
    using assms(3) by (intro map_cong refl clamped_idem [OF assms(1)]) blast
  then show ?thesis using k unfolding trinoRun.flushed_def by auto
qed

theorem trino_flush_stores_prefix_witness:
  "\<exists>st k. NewTrino (\<lambda>_. None) (\<lambda>_. None) (exampleTrino 0) = Inr st \<and>
    acked (world (flush (exampleEnv st) exampleCfg (freshBuffer ((), [])) [zeroRow, zeroRow])) =
      map (clamped st) (take k [zeroRow]) \<and>
    rowsFlushed (obs (flush (exampleEnv st) exampleCfg (freshBuffer ((), [])) [zeroRow, zeroRow])) = int k"
proof -
  obtain st where st: "NewTrino (\<lambda>_. None) (\<lambda>_. None) (exampleTrino 0) = Inr st"
    using NewTrino_exists by blast
  have d: "dedupe [zeroRow, zeroRow] = [zeroRow]" by (simp add: dedupe_def)
  have small: "\<forall>r \<in> set [zeroRow, zeroRow]. \<forall>f. length (getF f r) < 2 ^ 47"
    by (auto simp: getF_zeroRow)
  obtain k tr where
    "acked (world (flush (exampleEnv st) exampleCfg (freshBuffer ((), [])) [zeroRow, zeroRow])) =
      acked (world (freshBuffer ((), []))) @ map (clamped st) (take k [zeroRow])"
    "obs (flush (exampleEnv st) exampleCfg (freshBuffer ((), [])) [zeroRow, zeroRow]) =
      obs (freshBuffer ((), []) :: unit handle Buffer) @ tr" "rowsFlushed tr = int k"
    using trino_flush_stores_prefix [where rows = "[zeroRow, zeroRow]" and exec = upExec and
        baseErr = "\<lambda>w. False" and cncl = "\<lambda>w. w" and now = "\<lambda>w. 0" and cfg = exampleCfg and
        b = "freshBuffer ((), [])", OF st list.distinct(2) small]
    unfolding d by blast
  then show ?thesis using st
    by (intro exI [of _ st] exI [of _ k]) (simp add: freshBuffer_def acked_def)
qed

text \<open>
  Over ClickHouse, too, no row is unaccounted for in any interleaving: every row handed to
  \<^verbatim>\<open>Add\<close> is stored, counted as dropped, superseded or still in memory, and the server has
  acknowledged exactly the rows reported as flushed, each one an offered row unchanged.
\<close>

theorem clickhouse_rows_accounted:
  assumes "steps (clickhouseEnv conn st baseErr cncl now) cfg (newBuffer (d, [])) s"
  shows "int (length (offered s)) =
      rowsFlushed (obs (buf s)) + rowsDropped (obs (buf s)) + superseded s +
      int (length (batch s)) + int (length (chan s)) \<and>
    int (length (acked (world (buf s)))) = rowsFlushed (obs (buf s)) \<and>
    set (acked (world (buf s))) \<subseteq> set (offered s)"
  using clickhouseRun.reachable_accounted [OF _ assms] by (simp add: acked_def accounted_def)

theorem clickhouse_rows_accounted_witness:
  "\<exists>st. let s = Add CaseSend zeroRow (newBuffer ((), [])) in
     int (length (offered s)) = rowsFlushed (obs (buf s)) + rowsDropped (obs (buf s)) +
       superseded s + int (length (batch s)) + int (length (chan s)) \<and>
     steps (clickhouseEnv exampleConn st (\<lambda>w. False) (\<lambda>w. w) (\<lambda>w. 0)) exampleCfg (newBuffer ((), [])) s"
proof -
  have run: "steps (clickhouseEnv exampleConn st (\<lambda>w. False) (\<lambda>w. w) (\<lambda>w. 0)) exampleCfg (newBuffer ((), []))
      (Add CaseSend zeroRow (newBuffer ((), [])))" for st
    by (intro step_steps produce) (simp add: hasRoom_def newBuffer_def exampleCfg_def)
  show ?thesis using clickhouse_rows_accounted [OF run] run unfolding Let_def by blast
qed

end
