(* ===== verification/Backend.thy ===== *)
theory Backend
  imports Retention StoreCache IngestStores Config
begin

text \<open>
  The interfaces of \<^verbatim>\<open>store/store.go\<close> and \<^verbatim>\<open>store/factory.go\<close>: a \<^verbatim>\<open>Backend\<close> as the record of its
  methods, the two that exist, and \<^verbatim>\<open>Open\<close>, which chooses one by configuration. The write
  contract every caller relies on is a locale, interpreted on both, so what is proved of the buffer
  holds for whatever \<^verbatim>\<open>Open\<close> returns.
\<close>

section \<open>The interface\<close>

record 'w Backend =
  bk_Validate :: "'w \<Rightarrow> 'w \<times> err option"
  bk_ValidateTable :: "'w \<Rightarrow> 'w \<times> err option"
  bk_InsertBatch :: "'w handle \<Rightarrow> Row list \<Rightarrow> 'w handle \<times> err option"
  bk_SplitBatch :: "Row list \<Rightarrow> Row list list"
  bk_Reader :: "'w readStore"       \<comment> \<open>\<^verbatim>\<open>ListQueries\<close> and \<^verbatim>\<open>GetQuery\<close>\<close>
  bk_Prune :: "'w \<Rightarrow> time \<Rightarrow> 'w \<times> err option"
  bk_Maintain :: "'w \<Rightarrow> string \<Rightarrow> 'w \<times> err option"
  bk_Optimize :: "'w \<Rightarrow> time \<Rightarrow> 'w \<times> err option"
  bk_Init :: "'w \<Rightarrow> 'w \<times> err option"
  bk_DDLScript :: string

text \<open>The database drivers and the file system, as the constructors and methods use them.\<close>

record 'w drivers =
  dr_exec :: "'w execFn"
  dr_query :: "'w queryFn"
  dr_conn :: "'w chConn"
  dr_scanErr :: "arg list \<Rightarrow> err"
  dr_formatDSN :: "TrinoCfg \<Rightarrow> err option"
  dr_sqlOpen :: "TrinoCfg \<Rightarrow> err option"
  dr_addrErr :: "string \<Rightarrow> err"
  dr_readFile :: "string \<Rightarrow> err + string"
  dr_hasCerts :: "string \<Rightarrow> bool"
  dr_chOpen :: "chOptions \<Rightarrow> err option"

definition trinoBackend :: "'w drivers \<Rightarrow> TrinoStore \<Rightarrow> 'w Backend" where
  "trinoBackend dr s =
     \<lparr>bk_Validate = TrinoRead.Validate (dr_query dr), bk_ValidateTable = ValidateTable (dr_query dr) s,
      bk_InsertBatch = InsertBatch (dr_exec dr) s, bk_SplitBatch = SplitBatch s,
      bk_Reader = \<lparr>s_ListQueries = ListQueries (dr_query dr) (dr_scanErr dr) s, s_GetQuery = GetQuery (dr_query dr) (dr_scanErr dr) s\<rparr>,
      bk_Prune = Prune (dr_exec dr) s, bk_Maintain = Maintain (dr_exec dr) s, bk_Optimize = Optimize (dr_exec dr) s,
      bk_Init = Init (dr_exec dr) s, bk_DDLScript = DDLScript s\<rparr>"

definition clickhouseBackend :: "(nat \<Rightarrow> bool) \<Rightarrow> 'w drivers \<Rightarrow> ClickHouseStore \<Rightarrow> 'w Backend" where
  "clickhouseBackend ip dr s =
     \<lparr>bk_Validate = chValidate (dr_conn dr), bk_ValidateTable = chValidateTable (dr_conn dr) s,
      bk_InsertBatch = chInsertBatch (dr_conn dr) s, bk_SplitBatch = chSplitBatch s,
      bk_Reader = \<lparr>s_ListQueries = chListQueries (dr_conn dr) (dr_scanErr dr) s, s_GetQuery = chGetQuery (dr_conn dr) (dr_scanErr dr) s\<rparr>,
      bk_Prune = chPrune ip (dr_conn dr) (dr_scanErr dr) s, bk_Maintain = chMaintain, bk_Optimize = chOptimize,
      bk_Init = chInit (dr_conn dr) s, bk_DDLScript = chDDLScript s\<rparr>"

text \<open>\<^verbatim>\<open>Open\<close>; \<open>ip\<close> is \<^verbatim>\<open>strconv.IsPrint\<close>, for the quoted names in errors.\<close>

definition Open :: "(nat \<Rightarrow> bool) \<Rightarrow> 'w drivers \<Rightarrow> string \<Rightarrow> TrinoCfg \<Rightarrow> ClickHouseCfg \<Rightarrow> err + 'w Backend" where
  "Open ip dr backend trino clickhouse =
     (if backend = ''clickhouse'' then
        (case NewClickHouse (dr_addrErr dr) (dr_readFile dr) (dr_hasCerts dr) (dr_chOpen dr) clickhouse of
           Inl e \<Rightarrow> Inl e | Inr s \<Rightarrow> Inr (clickhouseBackend ip dr s))
      else if backend = ''trino'' \<or> backend = '''' then
        (case NewTrino (dr_formatDSN dr) (dr_sqlOpen dr) trino of Inl e \<Rightarrow> Inl e | Inr s \<Rightarrow> Inr (trinoBackend dr s))
      else Inl (EOther (''unknown store backend '' @ goQuote ip backend)))"

section \<open>The write contract\<close>

text \<open>
  What \<^verbatim>\<open>InsertBatch\<close> and \<^verbatim>\<open>SplitBatch\<close> of a backend promise: \<open>img\<close> is the row as it is
  stored. It gives the contract of the buffer that writes to it.
\<close>

locale write_backend =
  batch_writer "bk_InsertBatch b" acked img + row_splitter "bk_SplitBatch b" img
  for b :: "'w Backend" and img :: "Row \<Rightarrow> Row"

definition backendEnv :: "'w Backend \<Rightarrow> ('w \<Rightarrow> bool) \<Rightarrow> ('w \<Rightarrow> 'w) \<Rightarrow> ('w \<Rightarrow> time) \<Rightarrow> 'w handle Env" where
  "backendEnv b baseErr cncl now =
     \<lparr>insertB = bk_InsertBatch b, splitB = Some (bk_SplitBatch b), flushBaseErr = (\<lambda>w. baseErr (fst w)),
      flushCancel = (\<lambda>w. (cncl (fst w), snd w)), clock = (\<lambda>w. now (fst w))\<rparr>"

sublocale write_backend \<subseteq> running: run_env "backendEnv b baseErr cncl now" acked img img
  for baseErr cncl now
proof (intro run_env.intro buffer_env.intro)
  show "batch_writer (insertB (backendEnv b baseErr cncl now)) acked img"
    by (simp add: backendEnv_def batch_writer_axioms)
  show "buffer_env_axioms (backendEnv b baseErr cncl now) img"
    by (rule buffer_env_axioms.intro) (auto simp: backendEnv_def intro: row_splitter_axioms)
  show "run_env_axioms (backendEnv b baseErr cncl now) acked"
    by unfold_locales (simp add: backendEnv_def acked_def)
qed

lemma trino_write_backend: "write_backend (trinoBackend dr s) (clamped s)"
  by (intro write_backend.intro) (simp_all add: trinoBackend_def InsertBatch_writer trino.row_splitter_axioms)

lemma clickhouse_write_backend: "write_backend (clickhouseBackend ip dr s) (\<lambda>r. r)"
  by (intro write_backend.intro) (simp_all add: clickhouseBackend_def chInsertBatch_writer clickhouse.row_splitter_axioms)

interpretation trinoBk: write_backend "trinoBackend dr s" "clamped s" for dr :: "'w drivers" and s
  by (rule trino_write_backend)

interpretation clickhouseBk: write_backend "clickhouseBackend ip dr s" "\<lambda>r. r" for ip and dr :: "'w drivers" and s
  by (rule clickhouse_write_backend)

lemma Open_cases:
  assumes "Open ip dr backend trino clickhouse = Inr b"
  obtains (trino) s where "NewTrino (dr_formatDSN dr) (dr_sqlOpen dr) trino = Inr s" "b = trinoBackend dr s" "backend \<in> {''trino'', ''''}"
  | (clickhouse) "b = clickhouseBackend ip dr (newClickHouseStore clickhouse)" "backend = ''clickhouse''"
  using assms by (auto simp: Open_def NewClickHouse_def split: if_splits sum.splits option.splits)

lemma Open_write_backend:
  assumes "Open ip dr backend trino clickhouse = Inr b"
  shows "\<exists>img. write_backend b img"
  using assms by (rule Open_cases) (use trino_write_backend clickhouse_write_backend in blast)+

end
