(* ===== verification/GoUrl.thy ===== *)
theory GoUrl
  imports GoStrings "HOL-Library.List_Lexorder" "HOL-Library.Char_ord"
begin

text \<open>
  The parts of \<^verbatim>\<open>net/url\<close> and \<^verbatim>\<open>html/template\<close> that the web interface and the client build links
  with: query values, their encoding and parsing, and HTML escaping. A parsed query
  gives back the values it was encoded from.
\<close>

section \<open>Query values\<close>

text \<open>
  \<^verbatim>\<open>url.Values\<close> as its key-value pairs in the order they were added; the values of one key
  are the pairs with that key.
\<close>

type_synonym url_values = "(string \<times> string) list"

definition vGet :: "url_values \<Rightarrow> string \<Rightarrow> string" where
  "vGet q k = (case map_of q k of None \<Rightarrow> '''' | Some v \<Rightarrow> v)"

definition vDel :: "string \<Rightarrow> url_values \<Rightarrow> url_values" where
  "vDel k q = filter (\<lambda>p. fst p \<noteq> k) q"

definition vSet :: "string \<Rightarrow> string \<Rightarrow> url_values \<Rightarrow> url_values" where
  "vSet k v q = vDel k q @ [(k, v)]"

section \<open>Escaping\<close>

definition unreserved :: "char \<Rightarrow> bool" where
  "unreserved c = (let v = byteVal c in
     65 \<le> v \<and> v \<le> 90 \<or> 97 \<le> v \<and> v \<le> 122 \<or> 48 \<le> v \<and> v \<le> 57 \<or> c \<in> {CHR ''-'', CHR ''_'', CHR ''.'', CHR ''~''})"

definition hexUpper :: "nat \<Rightarrow> char" where
  "hexUpper d = char_of (if d < 10 then 48 + d else 55 + d)"

definition percent :: "char \<Rightarrow> string" where
  "percent c = [CHR ''%'', hexUpper (byteVal c div 16), hexUpper (byteVal c mod 16)]"

text \<open>\<^verbatim>\<open>url.QueryEscape\<close> and \<^verbatim>\<open>url.QueryUnescape\<close>.\<close>

definition escapeChar :: "char \<Rightarrow> string" where
  "escapeChar c = (if unreserved c then [c] else if c = CHR '' '' then ''+'' else percent c)"

definition QueryEscape :: "string \<Rightarrow> string" where
  "QueryEscape s = concat (map escapeChar s)"

definition unhex :: "char \<Rightarrow> nat option" where
  "unhex c = (let v = byteVal c in
     if 48 \<le> v \<and> v \<le> 57 then Some (v - 48) else if 97 \<le> v \<and> v \<le> 102 then Some (v - 87)
     else if 65 \<le> v \<and> v \<le> 70 then Some (v - 55) else None)"

fun QueryUnescape :: "string \<Rightarrow> string option" where
  "QueryUnescape [] = Some []"
| "QueryUnescape (c # s) =
     (if c = CHR ''%'' then
        (case s of
           a # b # t \<Rightarrow>
             (case (unhex a, unhex b) of
                (Some x, Some y) \<Rightarrow> map_option ((#) (char_of (16 * x + y))) (QueryUnescape t)
              | _ \<Rightarrow> None)
         | _ \<Rightarrow> None)
      else map_option ((#) (if c = CHR ''+'' then CHR '' '' else c)) (QueryUnescape s))"

text \<open>\<^verbatim>\<open>Values.Encode\<close>: sorted by key, the values of a key in their order.\<close>

definition encodePair :: "string \<times> string \<Rightarrow> string" where
  "encodePair p = QueryEscape (fst p) @ ''='' @ QueryEscape (snd p)"

definition Encode :: "url_values \<Rightarrow> string" where
  "Encode q = joinS (map encodePair (sort_key fst q)) ''&''"

text \<open>\<^verbatim>\<open>strings.Cut(s, c)\<close> for a one-byte separator: what is before and after its first occurrence.\<close>

definition cutC :: "char \<Rightarrow> string \<Rightarrow> string \<times> string" where
  "cutC c s = (takeWhile (\<lambda>x. x \<noteq> c) s, tl (dropWhile (\<lambda>x. x \<noteq> c) s))"

text \<open>\<^verbatim>\<open>url.ParseQuery\<close>, whose errors \<^verbatim>\<open>URL.Query\<close> ignores: a bad pair is skipped.\<close>

definition parsePair :: "string \<Rightarrow> url_values" where
  "parsePair part =
     (if CHR '';'' \<in> set part \<or> part = [] then []
      else (case cutC CHR ''='' part of (k, v) \<Rightarrow>
              (case (QueryUnescape k, QueryUnescape v) of (Some k, Some v) \<Rightarrow> [(k, v)] | _ \<Rightarrow> [])))"

definition ParseQuery :: "string \<Rightarrow> url_values" where
  "ParseQuery s = concat (map parsePair (splitOn CHR ''&'' s))"

section \<open>Parsing what was encoded\<close>

lemma unhex_hexUpper: "d < 16 \<Longrightarrow> unhex (hexUpper d) = Some d"
  by (auto simp: unhex_def hexUpper_def Let_def)

lemma unreserved_plain: "unreserved c \<Longrightarrow> c \<noteq> CHR ''%'' \<and> c \<noteq> CHR ''+'' \<and> c \<noteq> CHR ''&'' \<and> c \<noteq> CHR ''='' \<and> c \<noteq> CHR '';''"
  by (auto simp: unreserved_def)

lemma unescape_escapeChar: "QueryUnescape (escapeChar c @ s) = map_option ((#) c) (QueryUnescape s)"
proof -
  have "16 * (byteVal c div 16) + byteVal c mod 16 = byteVal c" by simp
  moreover have "byteVal c div 16 < 16" by (simp add: less_mult_imp_div_less)
  ultimately show ?thesis
    using unreserved_plain [of c] by (simp add: escapeChar_def percent_def unhex_hexUpper)
qed

lemma QueryUnescape_escape [simp]: "QueryUnescape (QueryEscape s) = Some s"
  by (induction s) (simp_all add: QueryEscape_def unescape_escapeChar)

definition linkChar :: "char \<Rightarrow> bool" where
  "linkChar c = (unreserved c \<or> c = CHR ''+'' \<or> c = CHR ''%'')"

lemma hexUpper_unreserved: "d < 16 \<Longrightarrow> unreserved (hexUpper d)"
  by (auto simp: unreserved_def hexUpper_def Let_def)

lemma escapeChar_link: "list_all linkChar (escapeChar c)"
proof -
  have "byteVal c div 16 < 16" by (simp add: less_mult_imp_div_less)
  then show ?thesis by (simp add: escapeChar_def percent_def linkChar_def hexUpper_unreserved)
qed

lemma QueryEscape_link: "list_all linkChar (QueryEscape s)"
  using escapeChar_link by (induction s) (simp_all add: QueryEscape_def)

lemma linkChar_plain: "linkChar c \<Longrightarrow> c \<noteq> CHR ''&'' \<and> c \<noteq> CHR ''='' \<and> c \<noteq> CHR '';''"
  using unreserved_plain [of c] by (auto simp: linkChar_def)

lemma QueryEscape_free: "c \<in> {CHR ''&'', CHR ''='', CHR '';''} \<Longrightarrow> list_all (\<lambda>x. x \<noteq> c) (QueryEscape s)"
  using QueryEscape_link [of s] linkChar_plain by (auto simp: list_all_iff)

lemma cutC_sep: "list_all (\<lambda>x. x \<noteq> c) a \<Longrightarrow> cutC c (a @ c # b) = (a, b)"
  by (auto simp: cutC_def list_all_iff takeWhile_append2 dropWhile_append2)

lemma parsePair_encodePair: "parsePair (encodePair p) = [p]"
proof -
  have "CHR '';'' \<notin> set (encodePair p)" "encodePair p \<noteq> []"
    using QueryEscape_free [of "CHR '';''"] by (auto simp: encodePair_def list_all_iff)
  moreover have "cutC CHR ''='' (encodePair p) = (QueryEscape (fst p), QueryEscape (snd p))"
    using cutC_sep [OF QueryEscape_free [of "CHR ''=''"]] by (simp add: encodePair_def)
  ultimately show ?thesis by (simp add: parsePair_def)
qed

lemma encodePair_free: "list_all (\<lambda>x. x \<noteq> CHR ''&'') (encodePair p)"
  using QueryEscape_free [of "CHR ''&''"] by (simp add: encodePair_def)

text \<open>Parsing an encoded query gives its pairs, sorted by key.\<close>

lemma ParseQuery_Encode: "ParseQuery (Encode q) = sort_key fst q"
proof (cases "sort_key fst q")
  case Nil
  then show ?thesis by (simp add: Encode_def ParseQuery_def parsePair_def)
next
  case (Cons p ps)
  have "splitOn CHR ''&'' (Encode q) = map encodePair (sort_key fst q)"
    unfolding Encode_def using Cons encodePair_free by (intro splitOn_joinS) auto
  moreover have "concat (map parsePair (map encodePair ps)) = ps" for ps
    by (induction ps) (simp_all add: parsePair_encodePair)
  ultimately show ?thesis by (simp only: ParseQuery_def)
qed

lemma map_of_sort_key: "map_of (sort_key fst q) k = map_of (q :: url_values) k"
proof -
  have f: "map_of xs k = (case filter (\<lambda>p. fst p = k) xs of [] \<Rightarrow> None | p # _ \<Rightarrow> Some (snd p))" for xs :: url_values
    by (induction xs) auto
  show ?thesis unfolding f [of "sort_key fst q"] f [of q] sort_key_stable ..
qed

lemma vGet_ParseQuery_Encode [simp]: "vGet (ParseQuery (Encode q)) k = vGet q k"
  by (simp add: vGet_def ParseQuery_Encode map_of_sort_key)

lemma vGet_simps [simp]:
  "vGet [] k = ''''" "vGet (vSet k v q) k = v" "k \<noteq> k' \<Longrightarrow> vGet (vSet k v q) k' = vGet q k'"
  "vGet (vDel k q) k = ''''" "k \<noteq> k' \<Longrightarrow> vGet (vDel k q) k' = vGet q k'"
proof -
  have d: "map_of (vDel k q) k = None" for k q by (induction q) (auto simp: vDel_def)
  have e: "k \<noteq> k' \<Longrightarrow> map_of (vDel k q) k' = map_of q k'" for k k' q by (induction q) (auto simp: vDel_def)
  show "vGet [] k = ''''" "vGet (vDel k q) k = ''''" "vGet (vSet k v q) k = v" by (simp_all add: vGet_def vSet_def d map_add_def)
  show "k \<noteq> k' \<Longrightarrow> vGet (vSet k v q) k' = vGet q k'" "k \<noteq> k' \<Longrightarrow> vGet (vDel k q) k' = vGet q k'"
    by (simp_all add: vGet_def vSet_def e map_add_def split: option.split)
qed

section \<open>HTML\<close>

text \<open>\<^verbatim>\<open>template.HTMLEscapeString\<close>.\<close>

definition htmlChar :: "char \<Rightarrow> string" where
  "htmlChar c =
     (if c = CHR 0x00 then [CHR 0xEF, CHR 0xBF, CHR 0xBD]
      else if c = CHR 0x22 then ''&#34;'' else if c = CHR 0x27 then ''&#39;''
      else if c = CHR ''&'' then ''&amp;'' else if c = CHR ''<'' then ''&lt;'' else if c = CHR ''>'' then ''&gt;''
      else [c])"

definition HTMLEscapeString :: "string \<Rightarrow> string" where
  "HTMLEscapeString s = concat (map htmlChar s)"

text \<open>Escaped text has no byte that opens or closes a tag or an attribute.\<close>

lemma HTMLEscape_inert:
  "list_all (\<lambda>c. c \<noteq> CHR ''<'' \<and> c \<noteq> CHR ''>'' \<and> c \<noteq> CHR 0x22 \<and> c \<noteq> CHR 0x27) (HTMLEscapeString s)"
  by (induction s) (simp_all add: HTMLEscapeString_def htmlChar_def)

end
