(* ===== verification/WebQuery.thy ===== *)
theory WebQuery
  imports StoreCache RowBuild GoUrl
begin

text \<open>
  \<^verbatim>\<open>server/ui.go\<close> and \<^verbatim>\<open>server/api.go\<close>: from the parameters of a request to a filter, a page of
  summaries and the links around it, in the browse UI and in the JSON API. What is
  handed to the templates and to \<^verbatim>\<open>encoding/json\<close> is modelled as the value itself;
  whether a template executes, and the decoding of stored inputs, are parameters.
  The store is any store with the two read methods, cached or not.
\<close>

section \<open>Parameters of a request\<close>

abbreviation hour :: duration where "hour \<equiv> 3600 * second"

definition rangeDurations :: "string \<rightharpoonup> duration" where
  "rangeDurations = map_of
     [(''1h'', hour), (''6h'', 6 * hour), (''24h'', 24 * hour), (''7d'', 7 * 24 * hour), (''30d'', 30 * 24 * hour)]"

definition ranges :: "(string \<times> string) list" where
  "ranges = [(''1h'', ''Last hour''), (''6h'', ''Last 6 hours''), (''24h'', ''Last 24 hours''), (''7d'', ''Last 7 days''),
     (''30d'', ''Last 30 days'')]"

definition statesList :: "string list" where
  "statesList = ['''', ''FINISHED'', ''FAILED'', ''CANCELED'']"

definition validSorts :: "string set" where
  "validSorts = {''start'', ''wall'', ''cpu'', ''bytes'', ''mem'', ''rows''}"

definition rangeLabel :: "string \<Rightarrow> string" where
  "rangeLabel v = (case map_of ranges v of None \<Rightarrow> '''' | Some l \<Rightarrow> l)"

definition rangeInfo :: "string \<Rightarrow> (duration \<times> string) option" where
  "rangeInfo v = (case rangeDurations v of None \<Rightarrow> None | Some d \<Rightarrow> Some (d, rangeLabel v))"

definition resolveRange :: "url_values \<Rightarrow> string \<times> duration \<times> string" where
  "resolveRange q =
     (let rng = vGet q ''range'' in
      case rangeInfo rng of
        Some (dur, label) \<Rightarrow> (rng, dur, label)
      | None \<Rightarrow> (case rangeInfo ''24h'' of Some (dur, label) \<Rightarrow> (''24h'', dur, label) | None \<Rightarrow> (''24h'', 0, '''')))"

definition buildQueryFilter :: "time \<Rightarrow> url_values \<Rightarrow> QueryFilter" where
  "buildQueryFilter now q =
     (let dur = fst (snd (resolveRange q));
          srt = vGet q ''sort'';
          srt = (if srt \<notin> validSorts then ''start'' else srt)
      in \<lparr>qf_Since = now - dur, qf_Until = now, qf_User = TrimSpace (vGet q ''user''),
          qf_Catalog = TrimSpace (vGet q ''catalog''), qf_State = vGet q ''state'', qf_Sort = srt,
          qf_Desc = (vGet q ''dir'' \<noteq> ''asc''), qf_Limit = 0, qf_Offset = 0\<rparr>)"

section \<open>A page of summaries\<close>

definition listAndTrim :: "'w readStore \<Rightarrow> 'w \<Rightarrow> QueryFilter \<Rightarrow> int \<Rightarrow> 'w \<times> (err + QuerySummary list \<times> bool)" where
  "listAndTrim st w f pageSize =
     (case s_ListQueries st w f of
        (w, Inl e) \<Rightarrow> (w, Inl e)
      | (w, Inr rows) \<Rightarrow>
          (w, Inr (if pageSize < int (length rows) then (take (nat pageSize) rows, True) else (rows, False))))"

section \<open>The browse UI\<close>

definition uiLimit :: int where "uiLimit = 100"
definition maxUIPages :: int where "maxUIPages = 50"

record listView =
  Rows :: "QuerySummary list"
  Ranges :: "(string \<times> string) list"
  States :: "string list"
  Range :: string
  RangeLabel :: string
  User :: string
  lv_Catalog :: string
  State :: string
  Sort :: string
  Dir :: string
  FailedOnly :: bool
  Count :: int
  lv_Error :: string
  Page :: int
  HasPrev :: bool
  HasNext :: bool

definition pageOf :: "url_values \<Rightarrow> int" where
  "pageOf q =
     (let page = (case atoi (vGet q ''page'') of Some p \<Rightarrow> if 1 < p then p else 1 | None \<Rightarrow> 1)
      in if maxUIPages < page then maxUIPages else page)"

definition buildListView :: "time \<Rightarrow> url_values \<Rightarrow> listView \<times> QueryFilter" where
  "buildListView now q =
     (case resolveRange q of (rng, _, label) \<Rightarrow>
       let f = buildQueryFilter now q;
           page = pageOf q;
           f = f\<lparr>qf_Limit := uiLimit + 1, qf_Offset := (page - 1) * uiLimit\<rparr>;
           dir = (if qf_Desc f then ''desc'' else ''asc'')
       in (\<lparr>Rows = [], Ranges = ranges, States = statesList, Range = rng, RangeLabel = label, User = qf_User f,
            lv_Catalog = qf_Catalog f, State = qf_State f, Sort = qf_Sort f, Dir = dir,
            FailedOnly = (qf_State f = ''FAILED''), Count = 0, lv_Error = '''', Page = page, HasPrev = False,
            HasNext = False\<rparr>, f))"

definition populateRows :: "'w readStore \<Rightarrow> 'w \<Rightarrow> listView \<Rightarrow> QueryFilter \<Rightarrow> 'w \<times> listView" where
  "populateRows st w v f =
     (case listAndTrim st w f uiLimit of
        (w, Inl e) \<Rightarrow> (w, v\<lparr>lv_Error := ''query failed''\<rparr>)
      | (w, Inr (rows, hasNext)) \<Rightarrow>
          (w, v\<lparr>HasPrev := (1 < Page v), HasNext := (hasNext \<and> Page v < maxUIPages), Rows := rows,
                Count := int (length rows)\<rparr>))"

section \<open>Responses\<close>

record listResponse =
  Queries :: "QuerySummary list"
  lr_Count :: int
  lr_Limit :: int
  lr_Offset :: int
  lr_HasNext :: bool

datatype payload =
    Html string listView                        \<comment> \<open>a template by its name, and its data\<close>
  | HtmlDetail Row "InputMetadata list"
  | PlainText string
  | JsonList listResponse
  | JsonQuery Row "InputMetadata list"
  | JsonError string

type_synonym response = "int \<times> payload"

definition plainError :: "string \<Rightarrow> int \<Rightarrow> response" where
  "plainError msg code = (code, PlainText (msg @ [CHR 0x0A]))"

text \<open>\<^verbatim>\<open>render\<close>: \<open>ok\<close> says whether the template executes on its data.\<close>

definition render :: "(payload \<Rightarrow> bool) \<Rightarrow> payload \<Rightarrow> response" where
  "render ok p = (if ok p then (200, p) else plainError ''internal error'' 500)"

definition handleDashboard :: "(payload \<Rightarrow> bool) \<Rightarrow> 'w readStore \<Rightarrow> time \<Rightarrow> 'w \<Rightarrow> url_values \<Rightarrow> 'w \<times> response" where
  "handleDashboard ok st now w q =
     (case buildListView now q of (v, f) \<Rightarrow>
        (case populateRows st w v f of (w, v) \<Rightarrow> (w, render ok (Html ''base'' v))))"

definition handleQueriesPartial :: "(payload \<Rightarrow> bool) \<Rightarrow> 'w readStore \<Rightarrow> time \<Rightarrow> 'w \<Rightarrow> url_values \<Rightarrow> 'w \<times> response" where
  "handleQueriesPartial ok st now w q =
     (case buildListView now q of (v, f) \<Rightarrow>
        (case populateRows st w v f of (w, v) \<Rightarrow> (w, render ok (Html ''results'' v))))"

text \<open>\<^verbatim>\<open>json.Unmarshal\<close> of the stored inputs; what it leaves in the slice on an error is used as it is.\<close>

definition rowInputs :: "(string \<Rightarrow> InputMetadata list) \<Rightarrow> Row \<Rightarrow> InputMetadata list" where
  "rowInputs dec row = (if InputsJSON row \<noteq> '''' then dec (InputsJSON row) else [])"

definition handleQueryDetail :: "(payload \<Rightarrow> bool) \<Rightarrow> (string \<Rightarrow> InputMetadata list) \<Rightarrow> 'w readStore \<Rightarrow> 'w \<Rightarrow> string \<Rightarrow>
    'w \<times> response" where
  "handleQueryDetail ok dec st w qid =
     (case s_GetQuery st w qid of
        (w, Inl e) \<Rightarrow> (w, plainError ''query lookup failed'' 500)
      | (w, Inr None) \<Rightarrow> (w, plainError (''query not found: '' @ qid) 404)
      | (w, Inr (Some row)) \<Rightarrow> (w, render ok (HtmlDetail row (rowInputs dec row))))"

section \<open>The JSON API\<close>

definition apiDefaultLimit :: int where "apiDefaultLimit = 100"
definition apiMaxLimit :: int where "apiMaxLimit = 500"
definition apiMaxOffset :: int where "apiMaxOffset = 100000"

definition clampLimit :: "string \<Rightarrow> int" where
  "clampLimit v =
     (case atoi v of
        None \<Rightarrow> apiDefaultLimit
      | Some n \<Rightarrow> if n < 1 then apiDefaultLimit else if apiMaxLimit < n then apiMaxLimit else n)"

definition parseOffset :: "string \<Rightarrow> int" where
  "parseOffset v = (case atoi v of None \<Rightarrow> 0 | Some n \<Rightarrow> if n < 0 then 0 else min n apiMaxOffset)"

definition handleAPIListQueries :: "'w readStore \<Rightarrow> time \<Rightarrow> 'w \<Rightarrow> url_values \<Rightarrow> 'w \<times> response" where
  "handleAPIListQueries st now w q =
     (let f = buildQueryFilter now q;
          limit = clampLimit (vGet q ''limit'');
          offset = parseOffset (vGet q ''offset'');
          f = f\<lparr>qf_Limit := limit + 1, qf_Offset := offset\<rparr>
      in case listAndTrim st w f limit of
           (w, Inl e) \<Rightarrow> (w, (500, JsonError ''query failed''))
         | (w, Inr (rows, hasNext)) \<Rightarrow>
             (w, (200, JsonList \<lparr>Queries = rows, lr_Count = int (length rows), lr_Limit = limit, lr_Offset = offset,
                lr_HasNext = hasNext\<rparr>)))"

definition handleAPIGetQuery :: "(string \<Rightarrow> InputMetadata list) \<Rightarrow> 'w readStore \<Rightarrow> 'w \<Rightarrow> string \<Rightarrow> 'w \<times> response" where
  "handleAPIGetQuery dec st w qid =
     (case s_GetQuery st w qid of
        (w, Inl e) \<Rightarrow> (w, (500, JsonError ''query lookup failed''))
      | (w, Inr None) \<Rightarrow> (w, (404, JsonError (''query not found: '' @ qid)))
      | (w, Inr (Some row)) \<Rightarrow> (w, (200, JsonQuery row (rowInputs dec row))))"

section \<open>Links\<close>

definition setIf :: "string \<Rightarrow> string \<Rightarrow> url_values \<Rightarrow> url_values" where
  "setIf k v q = (if v \<noteq> '''' then vSet k v q else q)"

definition baseValues :: "listView \<Rightarrow> url_values" where
  "baseValues v =
     setIf ''state'' (State v) (setIf ''catalog'' (lv_Catalog v) (setIf ''user'' (User v) (vSet ''range'' (Range v) [])))"

definition topValues :: "listView \<Rightarrow> string \<Rightarrow> url_values" where
  "topValues v key = vSet ''dir'' ''desc'' (vSet ''sort'' key (baseValues v))"

definition failedValues :: "listView \<Rightarrow> url_values" where
  "failedValues v =
     (let q = baseValues v;
          q = (if FailedOnly v then vDel ''state'' q else vSet ''state'' ''FAILED'' q)
      in vSet ''dir'' (Dir v) (vSet ''sort'' (Sort v) q))"

definition pageValues :: "listView \<Rightarrow> int \<Rightarrow> url_values" where
  "pageValues v page =
     (let q = vSet ''dir'' (Dir v) (vSet ''sort'' (Sort v) (baseValues v))
      in if 1 < page then vSet ''page'' (itoa page) q else q)"

definition topHref :: "listView \<Rightarrow> string \<Rightarrow> string" where "topHref v key = ''/?'' @ Encode (topValues v key)"
definition topHrefPartial :: "listView \<Rightarrow> string \<Rightarrow> string" where
  "topHrefPartial v key = ''/partials/queries?'' @ Encode (topValues v key)"
definition failedHref :: "listView \<Rightarrow> string" where "failedHref v = ''/?'' @ Encode (failedValues v)"
definition failedHrefPartial :: "listView \<Rightarrow> string" where
  "failedHrefPartial v = ''/partials/queries?'' @ Encode (failedValues v)"
definition prevHref :: "listView \<Rightarrow> string" where "prevHref v = ''/?'' @ Encode (pageValues v (Page v - 1))"
definition prevHrefPartial :: "listView \<Rightarrow> string" where
  "prevHrefPartial v = ''/partials/queries?'' @ Encode (pageValues v (Page v - 1))"
definition nextHref :: "listView \<Rightarrow> string" where "nextHref v = ''/?'' @ Encode (pageValues v (Page v + 1))"
definition nextHrefPartial :: "listView \<Rightarrow> string" where
  "nextHrefPartial v = ''/partials/queries?'' @ Encode (pageValues v (Page v + 1))"

definition sortlink :: "listView \<Rightarrow> string \<Rightarrow> string \<Rightarrow> string" where
  "sortlink v key label =
     (let (dir, arrow) =
            (if Sort v = key then
               (if Dir v = ''desc'' then (''asc'', '' '' @ [CHR 0xE2, CHR 0x96, CHR 0xBC])
                else (''desc'', '' '' @ [CHR 0xE2, CHR 0x96, CHR 0xB2]))
             else (''desc'', ''''));
          enc = HTMLEscapeString (Encode (vSet ''dir'' dir (vSet ''sort'' key (baseValues v))))
      in ''<a href='' @ [CHR 0x22] @ ''/?'' @ enc @ [CHR 0x22] @ '' hx-get='' @ [CHR 0x22] @ ''/partials/queries?'' @ enc @
         [CHR 0x22] @ '' hx-target='' @ [CHR 0x22] @ ''#results'' @ [CHR 0x22] @ ''>'' @ HTMLEscapeString label @ arrow @ ''</a>'')"

section \<open>Trimming twice\<close>

lemma runes_Cons: "s \<noteq> [] \<Longrightarrow> runes s = take (max 1 (runeLen s)) s # runes (drop (max 1 (runeLen s)) s)"
  by (subst runes.simps) (simp add: Let_def)

lemma runes_drop_groups: "runes (concat (drop n (runes s))) = drop n (runes s)"
proof (induction n arbitrary: s)
  case (Suc n)
  then show ?case by (cases "s = []") (simp_all add: runes_Cons)
qed simp

lemma runes_take_groups: "runes (concat (take n (runes s))) = take n (runes s)"
proof (induction n arbitrary: s)
  case (Suc n)
  show ?case
  proof (cases "s = []")
    case False
    let ?k = "max 1 (runeLen s)"
    let ?gs = "runes (drop ?k s)"
    let ?x = "take ?k s @ concat (take n ?gs)"
    have "concat (take n ?gs) @ concat (drop n ?gs) = drop ?k s"
      by (metis append_take_drop_id concat_append concat_runes)
    then have s: "?x @ concat (drop n ?gs) = s" by (metis append.assoc append_take_drop_id)
    have x: "?x \<noteq> []" using False by (cases s) auto
    have len: "length (take ?k s) = ?k" using runeLen_le [of s] False by (cases s) auto
    have "max 1 (runeLen ?x) = ?k"
    proof (cases "0 < runeLen s")
      case True
      then have "runeLen (take ?k s) = runeLen s" by (intro runeLen_take) auto
      then show ?thesis using True runeLen_append [of "take ?k s" "concat (take n ?gs)"] by simp
    next
      case False
      then have "runeLen ?x = 0" using runeLen_append [of ?x "concat (drop n ?gs)"] s by (metis gr0I)
      then show ?thesis using False by simp
    qed
    then have "runes ?x = take ?k s # runes (concat (take n ?gs))"
      using runes_Cons [OF x] len by simp
    then show ?thesis using runes_Cons [OF False] Suc.IH by simp
  qed simp
qed simp

lemma rev_dropWhile_rev: "\<exists>m. rev (dropWhile P (rev xs)) = take m xs"
  unfolding dropWhile_eq_drop [of P "rev xs"] rev_drop by auto

lemma runes_TrimSpace:
  "runes (TrimSpace s) = rev (dropWhile isSpaceRune (rev (dropWhile isSpaceRune (runes s))))"
proof -
  obtain n where n: "dropWhile isSpaceRune (runes s) = drop n (runes s)" by (metis dropWhile_eq_drop)
  let ?t = "concat (drop n (runes s))"
  have t: "runes ?t = drop n (runes s)" by (rule runes_drop_groups)
  obtain m where "rev (dropWhile isSpaceRune (rev (runes ?t))) = take m (runes ?t)"
    using rev_dropWhile_rev by blast
  then show ?thesis using runes_take_groups [of m ?t] by (simp add: TrimSpace_def n t)
qed

lemma trim_idem: "rev (dropWhile P (rev (dropWhile P (rev (dropWhile P (rev (dropWhile P xs))))))) =
    rev (dropWhile P (rev (dropWhile P xs)))"
proof -
  let ?d = "dropWhile P xs" and ?l = "rev (dropWhile P (rev (dropWhile P xs)))"
  obtain m where m: "?l = take m ?d" using rev_dropWhile_rev by blast
  have "dropWhile P ?l = ?l"
  proof (cases ?l)
    case (Cons y ys)
    then have "take m ?d = y # ys" using m by simp
    then obtain ds where d: "?d = y # ds" by (cases ?d; cases m) auto
    then have "\<not> P y" using hd_dropWhile [of P xs] by simp
    then show ?thesis using Cons by simp
  next
    case Nil
    then show ?thesis by (simp only: dropWhile.simps)
  qed
  then show ?thesis by simp
qed

lemma TrimSpace_idem [simp]: "TrimSpace (TrimSpace s) = TrimSpace s"
  unfolding TrimSpace_def [of "TrimSpace s"] runes_TrimSpace trim_idem by (simp add: TrimSpace_def)

lemma TrimSpace_Nil [simp]: "TrimSpace [] = []"
  by (simp add: TrimSpace_def)

section \<open>Links lead where they say\<close>

lemma vGet_setIf: "vGet (setIf k v q) k' = (if k = k' then (if v = '''' then vGet q k else v) else vGet q k')"
  by (simp add: setIf_def)

lemma resolveRange_fixed: "fst (resolveRange q) = rng \<Longrightarrow> vGet q' ''range'' = rng \<Longrightarrow> resolveRange q' = resolveRange q"
  by (auto simp: resolveRange_def Let_def rangeInfo_def rangeDurations_def rangeLabel_def ranges_def split: if_splits option.splits)

lemma buildListView_eq:
  assumes "vGet q' ''range'' = fst (resolveRange q)" and "vGet q' ''sort'' = qf_Sort (buildQueryFilter now q)"
    and "vGet q' ''user'' = qf_User (buildQueryFilter now q)" and "vGet q' ''catalog'' = qf_Catalog (buildQueryFilter now q)"
    and "vGet q' ''state'' = qf_State (buildQueryFilter now q)"
    and "vGet q' ''dir'' = (if qf_Desc (buildQueryFilter now q) then ''desc'' else ''asc'')" and "pageOf q' = p"
  shows "buildListView now q' =
    ((fst (buildListView now q))\<lparr>Page := p\<rparr>, (snd (buildListView now q))\<lparr>qf_Offset := (p - 1) * uiLimit\<rparr>)"
proof -
  have r: "resolveRange q' = resolveRange q" using assms(1) by (intro resolveRange_fixed) simp_all
  have "buildQueryFilter now q' = buildQueryFilter now q"
    using assms(2-6) by (auto simp: buildQueryFilter_def Let_def r validSorts_def)
  then show ?thesis using assms(7) r by (simp add: buildListView_def Let_def split: prod.split)
qed

lemma baseValues_get [simp]:
  "vGet (baseValues v) ''range'' = Range v" "vGet (baseValues v) ''user'' = User v"
  "vGet (baseValues v) ''catalog'' = lv_Catalog v" "vGet (baseValues v) ''state'' = State v"
  "vGet (baseValues v) ''page'' = ''''"
  by (simp_all add: baseValues_def vGet_setIf)

lemma buildListView_sel:
  "Range (fst (buildListView now q)) = fst (resolveRange q)" "User (fst (buildListView now q)) = qf_User (buildQueryFilter now q)"
  "lv_Catalog (fst (buildListView now q)) = qf_Catalog (buildQueryFilter now q)"
  "State (fst (buildListView now q)) = qf_State (buildQueryFilter now q)"
  "Sort (fst (buildListView now q)) = qf_Sort (buildQueryFilter now q)"
  "Dir (fst (buildListView now q)) = (if qf_Desc (buildQueryFilter now q) then ''desc'' else ''asc'')"
  "Page (fst (buildListView now q)) = pageOf q"
  by (simp_all add: buildListView_def Let_def split: prod.split)

lemma atoi_Nil [simp]: "atoi '''' = None"
  by (simp add: atoi_def)

lemma pageOf_page:
  assumes "1 \<le> p" and "p \<le> maxUIPages"
  shows "pageOf (ParseQuery (Encode (pageValues v p))) = p"
  using assms atoi_itoa [of p] by (auto simp: pageOf_def pageValues_def Let_def maxUIPages_def)

lemma pageOf_range: "1 \<le> pageOf q \<and> pageOf q \<le> maxUIPages"
  by (auto simp: pageOf_def Let_def maxUIPages_def split: option.split)

section \<open>Properties\<close>

text \<open>
  C29. The links of a page lead to the page they name: opening the link to page \<open>p\<close> of a listing,
  at the same instant, rebuilds the same view (range, user, catalog, state, sort and
  direction, whatever bytes they contain) with page \<open>p\<close>, and a filter that differs only in
  its offset.
\<close>

theorem page_link_roundtrip:
  assumes "buildListView now q = (v, f)" and "1 \<le> p" and "p \<le> 50"
  shows "buildListView now (ParseQuery (Encode (pageValues v p))) = (v\<lparr>Page := p\<rparr>, f\<lparr>qf_Offset := (p - 1) * 100\<rparr>)"
proof -
  let ?q = "ParseQuery (Encode (pageValues v p))"
  have v: "v = fst (buildListView now q)" using assms(1) by simp
  have g: "vGet ?q ''range'' = Range v" "vGet ?q ''sort'' = Sort v" "vGet ?q ''user'' = User v"
    "vGet ?q ''catalog'' = lv_Catalog v" "vGet ?q ''state'' = State v" "vGet ?q ''dir'' = Dir v"
    by (simp_all add: pageValues_def Let_def)
  have "pageOf ?q = p" using assms(2,3) by (intro pageOf_page) (simp_all add: maxUIPages_def)
  then have "buildListView now ?q =
      ((fst (buildListView now q))\<lparr>Page := p\<rparr>, (snd (buildListView now q))\<lparr>qf_Offset := (p - 1) * uiLimit\<rparr>)"
    by (intro buildListView_eq) (simp_all only: g, simp_all only: v buildListView_sel)
  then show ?thesis using assms(1) by (simp add: uiLimit_def)
qed

theorem page_link_roundtrip_witness:
  "let v = fst (buildListView 0 [(''user'', ''a&b=c d''), (''page'', ''2'')]) in
     Page (fst (buildListView 0 (ParseQuery (Encode (pageValues v 3))))) = 3 \<and>
     User (fst (buildListView 0 (ParseQuery (Encode (pageValues v 3))))) = User v"
proof -
  obtain v f where vf: "buildListView 0 [(''user'', ''a&b=c d''), (''page'', ''2'')] = (v, f)" by fastforce
  from page_link_roundtrip [OF vf, of 3] show ?thesis by (simp add: vf)
qed

text \<open>
  What the query interface of a database promises of a sorted listing: the limit and offset
  of a filter cut a page out of the rows the rest of the filter selects.
\<close>

definition listsPages :: "'w readStore \<Rightarrow> ('w \<Rightarrow> QueryFilter \<Rightarrow> QuerySummary list) \<Rightarrow> bool" where
  "listsPages st rowsOf \<longleftrightarrow>
     (\<forall>w f. s_ListQueries st w f =
        (w, Inr (take (nat (pageLimit f)) (drop (nat (qf_Offset f)) (rowsOf w (f\<lparr>qf_Limit := 0, qf_Offset := 0\<rparr>))))))"

lemma listAndTrim_page:
  fixes w
  assumes "listsPages st rowsOf" and "1 \<le> n" and "n \<le> 500" and "0 \<le> qf_Offset f" and "qf_Limit f = n + 1"
  defines "L \<equiv> rowsOf w (f\<lparr>qf_Limit := 0, qf_Offset := 0\<rparr>)"
  shows "listAndTrim st w f n =
    (w, Inr (take (nat n) (drop (nat (qf_Offset f)) L), qf_Offset f + n < int (length L)))"
proof -
  have p: "pageLimit f = n + 1" using assms(2,3,5) by (simp add: pageLimit_def maxListLimit_def)
  let ?d = "drop (nat (qf_Offset f)) L"
  have "s_ListQueries st w f = (w, Inr (take (nat (n + 1)) ?d))"
    using assms(1) p unfolding listsPages_def L_def by simp
  moreover have "n < int (length (take (nat (n + 1)) ?d)) \<longleftrightarrow> qf_Offset f + n < int (length L)"
    using assms(2,4) by auto
  moreover have "take (nat n) (take (nat (n + 1)) ?d) = take (nat n) ?d" by simp
  moreover have "\<not> qf_Offset f + n < int (length L) \<Longrightarrow> take (nat (n + 1)) ?d = take (nat n) ?d"
    using assms(2,4) by simp
  ultimately show ?thesis by (auto simp: listAndTrim_def)
qed

fun pageRows :: "response \<Rightarrow> QuerySummary list" where
  "pageRows (c, JsonList r) = Queries r"
| "pageRows (c, _) = []"

fun pageHasNext :: "response \<Rightarrow> bool" where
  "pageHasNext (c, JsonList r) = lr_HasNext r"
| "pageHasNext (c, _) = False"

lemma clampLimit_itoa: "1 \<le> n \<Longrightarrow> n \<le> 500 \<Longrightarrow> clampLimit (itoa n) = n"
  using atoi_itoa [of n] by (simp add: clampLimit_def apiMaxLimit_def)

lemma parseOffset_itoa: "0 \<le> n \<Longrightarrow> n \<le> 100000 \<Longrightarrow> parseOffset (itoa n) = n"
  using atoi_itoa [of n] by (simp add: parseOffset_def apiMaxOffset_def)

abbreviation apiQuery :: "url_values \<Rightarrow> int \<Rightarrow> nat \<Rightarrow> url_values" where
  "apiQuery q limit i \<equiv> vSet ''offset'' (itoa (int i * limit)) (vSet ''limit'' (itoa limit) q)"

lemma buildQueryFilter_apiQuery: "buildQueryFilter now (apiQuery q limit i) = buildQueryFilter now q"
  by (simp add: buildQueryFilter_def resolveRange_def Let_def)

lemma clampLimit_range: "1 \<le> clampLimit v \<and> clampLimit v \<le> 500"
  by (auto simp: clampLimit_def apiDefaultLimit_def apiMaxLimit_def split: option.split)

lemma parseOffset_range: "0 \<le> parseOffset v \<and> parseOffset v \<le> 100000"
  by (auto simp: parseOffset_def apiMaxOffset_def split: option.split)

text \<open>The page the API returns for any request: a slice of the selected rows.\<close>

lemma api_page:
  fixes w now q
  assumes "listsPages st rowsOf"
  defines "L \<equiv> rowsOf w (buildQueryFilter now q)" and "limit \<equiv> clampLimit (vGet q ''limit'')"
    and "offset \<equiv> parseOffset (vGet q ''offset'')"
  shows "handleAPIListQueries st now w q =
    (w, (200, JsonList \<lparr>Queries = take (nat limit) (drop (nat offset) L),
       lr_Count = int (length (take (nat limit) (drop (nat offset) L))), lr_Limit = limit, lr_Offset = offset,
       lr_HasNext = (offset + limit < int (length L))\<rparr>))"
proof -
  let ?f = "(buildQueryFilter now q)\<lparr>qf_Limit := limit + 1, qf_Offset := offset\<rparr>"
  have "buildQueryFilter now q = (buildQueryFilter now q)\<lparr>qf_Limit := 0, qf_Offset := 0\<rparr>"
    by (simp add: buildQueryFilter_def Let_def)
  then have "?f\<lparr>qf_Limit := 0, qf_Offset := 0\<rparr> = buildQueryFilter now q" by simp
  moreover have r: "1 \<le> limit" "limit \<le> 500" "0 \<le> offset"
    using clampLimit_range parseOffset_range by (auto simp: limit_def offset_def)
  ultimately have "listAndTrim st w ?f limit =
      (w, Inr (take (nat limit) (drop (nat offset) L), offset + limit < int (length L)))"
    using listAndTrim_page [OF assms(1) r(1,2), of ?f w] by (simp add: L_def)
  then show ?thesis by (simp add: handleAPIListQueries_def Let_def limit_def offset_def)
qed

lemma api_page_at:
  assumes "listsPages st rowsOf" and "1 \<le> limit" and "limit \<le> 500" and "int i * limit \<le> 100000"
  shows "pageRows (snd (handleAPIListQueries st now w (apiQuery q limit i))) =
      take (nat limit) (drop (i * nat limit) (rowsOf w (buildQueryFilter now q)))"
    "pageHasNext (snd (handleAPIListQueries st now w (apiQuery q limit i))) \<longleftrightarrow>
      (int i + 1) * limit < int (length (rowsOf w (buildQueryFilter now q)))"
proof -
  have "nat (int i * limit) = i * nat limit" using assms(2) by (simp add: nat_mult_distrib)
  then show "pageRows (snd (handleAPIListQueries st now w (apiQuery q limit i))) =
      take (nat limit) (drop (i * nat limit) (rowsOf w (buildQueryFilter now q)))"
    "pageHasNext (snd (handleAPIListQueries st now w (apiQuery q limit i))) \<longleftrightarrow>
      (int i + 1) * limit < int (length (rowsOf w (buildQueryFilter now q)))"
    using assms(2-4) clampLimit_itoa [of limit] parseOffset_itoa [of "int i * limit"]
    by (simp_all add: api_page [OF assms(1)] buildQueryFilter_apiQuery distrib_right)
qed

lemma concat_pages: "concat (map (\<lambda>i. take k (drop (i * k) L)) [0..<n]) = take (n * k) L"
proof (induction n)
  case (Suc n)
  then show ?case by (simp add: take_add [symmetric] add.commute)
qed simp


definition exampleSummary :: QuerySummary where
  "exampleSummary = \<lparr>qs_QueryID = ''q'', qs_CreateTime = 0, qs_ExecutionStartTime = None, qs_UserName = ''ann'', qs_Source = '''',
     qs_Catalog = '''', qs_QueryState = ''FINISHED'', qs_QueryType = '''', qs_QueryPreview = '''', qs_WallMS = 0, qs_CPUMS = 0,
     qs_PhysicalInputBytes = 0, qs_PeakUserMemoryBytes = 0, qs_OutputRows = 0, qs_ProcessedInputRows = 0, qs_ErrorCode = ''''\<rparr>"

text \<open>Three rows, walked in pages of two.\<close>

definition threeRows :: "unit readStore" where
  "threeRows =
     \<lparr>s_ListQueries = \<lambda>w f. (w, Inr (take (nat (pageLimit f)) (drop (nat (qf_Offset f)) (replicate 3 exampleSummary)))),
      s_GetQuery = \<lambda>w q. (w, Inr None)\<rparr>"


text \<open>
  C28. A walk past the largest offset does not end: the handler replaces every offset above
  100000 by 100000, so each such request returns the same page again, still with
  \<^verbatim>\<open>hasNext\<close> set, and the offset the client suggests next is one of them.
\<close>

theorem api_walk_stuck_at_max_offset:
  assumes "listsPages st rowsOf" and "vGet q ''offset'' = itoa n" and "100000 \<le> n" and "n < 2 ^ 63"
    and "100000 + clampLimit (vGet q ''limit'') < int (length (rowsOf w (buildQueryFilter now q)))"
  shows "pageRows (snd (handleAPIListQueries st now w q)) =
      take (nat (clampLimit (vGet q ''limit''))) (drop 100000 (rowsOf w (buildQueryFilter now q))) \<and>
    pageHasNext (snd (handleAPIListQueries st now w q))"
proof -
  have "parseOffset (vGet q ''offset'') = 100000"
    using assms(2-4) atoi_itoa [of n] by (simp add: parseOffset_def apiMaxOffset_def)
  then show ?thesis using assms(5) by (simp add: api_page [OF assms(1)])
qed

definition manyRows :: "unit readStore" where
  "manyRows =
     \<lparr>s_ListQueries = \<lambda>w f. (w, Inr (take (nat (pageLimit f)) (drop (nat (qf_Offset f)) (replicate 200000 exampleSummary)))),
      s_GetQuery = \<lambda>w q. (w, Inr None)\<rparr>"

theorem api_walk_stuck_at_max_offset_witness:
  "pageHasNext (snd (handleAPIListQueries manyRows 0 () [(''offset'', ''100100'')])) \<and>
   pageHasNext (snd (handleAPIListQueries manyRows 0 () [(''offset'', ''999999'')]))"
proof -
  have l: "listsPages manyRows (\<lambda>w f. replicate 200000 exampleSummary)" by (simp add: listsPages_def manyRows_def)
  have d: "itoa 100100 = ''100100''" "itoa 999999 = ''999999''" by (simp_all add: itoa_def natDec.simps digitChar_def char_of_def bit_0)
  have lim: "clampLimit (vGet q ''limit'') \<le> 500" for q using clampLimit_range by blast
  from api_walk_stuck_at_max_offset [OF l, of "[(''offset'', ''100100'')]" 100100 0 "()"] lim [of "[(''offset'', ''100100'')]"]
    api_walk_stuck_at_max_offset [OF l, of "[(''offset'', ''999999'')]" 999999 0 "()"] lim [of "[(''offset'', ''999999'')]"]
  show ?thesis by (simp add: vGet_def d)
qed

end
