(* ===== verification/WebText.thy ===== *)
theory WebText
  imports WebQuery GoFloat GoTime
begin

text \<open>
  \<^verbatim>\<open>server/format.go\<close>: how numbers, sizes, durations, instants and states are shown. The
  functions index a fixed string and build HTML by hand, so the properties are that the
  index is in range and that no value can add markup.
\<close>

section \<open>Numbers\<close>

text \<open>\<^verbatim>\<open>%.<k>f\<close> of a non-negative double: its exact value rounded to \<open>k\<close> decimals, half to even.\<close>

definition fmtFixed :: "nat \<Rightarrow> nat \<times> nat \<Rightarrow> string" where
  "fmtFixed k x =
     (let n = roundDiv (fst x * 10 ^ k) (snd x) in natDec (n div 10 ^ k) @ ''.'' @ digitsW k (n mod 10 ^ k))"

text \<open>The loop of \<^verbatim>\<open>humanBytes\<close> over \<^verbatim>\<open>x\<close>, \<^verbatim>\<open>div\<close> and \<^verbatim>\<open>exp\<close>.\<close>

function unitLoop :: "int \<Rightarrow> int \<Rightarrow> nat \<Rightarrow> int \<times> nat" where
  "unitLoop x dv e = (if 1024 \<le> x then unitLoop (goDiv x 1024) (i64 (dv * 1024)) (Suc e) else (dv, e))"
  by pat_completeness auto
termination
  by (relation "measure (\<lambda>(x, dv, e). nat x)") auto

declare unitLoop.simps [simp del]

definition humanBytes :: "int \<Rightarrow> string" where
  "humanBytes n =
     (if n \<le> 0 then ''0''
      else if n < 1024 then itoa n @ '' B''
      else (case unitLoop (goDiv n 1024) 1024 0 of
              (dv, e) \<Rightarrow> fmtFixed 1 (fdiv (fl (nat n) 1) (fl (nat dv) 1)) @ '' '' @ [''KMGTPE'' ! e] @ ''iB''))"

definition dash :: string where "dash = [CHR 0xE2, CHR 0x80, CHR 0x94]"

definition humanBytesPtr :: "int option \<Rightarrow> string" where
  "humanBytesPtr n = (case n of None \<Rightarrow> dash | Some n \<Rightarrow> humanBytes n)"

text \<open>\<^verbatim>\<open>d.Seconds()\<close>, \<^verbatim>\<open>d.Minutes()\<close> and \<^verbatim>\<open>d.Hours()\<close> of a non-negative duration.\<close>

definition inUnits :: "int \<Rightarrow> duration \<Rightarrow> nat \<times> nat" where
  "inUnits u d = fadd (fl (nat (goDiv d u)) 1) (fdiv (fl (nat (goMod d u)) 1) (fl (nat u) 1))"

definition humanMillis :: "int \<Rightarrow> string" where
  "humanMillis ms =
     (if ms \<le> 0 then ''0''
      else let d = i64 (ms * 1000000); minute = 60 * second; hour = 3600 * second in
           if d < second then itoa ms @ ''ms''
           else if d < minute then fmtFixed 2 (inUnits second d) @ ''s''
           else if d < hour then
             natDec (ftrunc (inUnits minute d)) @ ''m'' @ natDec (ftrunc (inUnits second d) mod 60) @ ''s''
           else natDec (ftrunc (inUnits hour d)) @ ''h'' @ natDec (ftrunc (inUnits minute d) mod 60) @ ''m'')"

text \<open>The loop of \<^verbatim>\<open>humanNum\<close> over the digits left: a comma before every third from the end, not at the start.\<close>

fun groupDigits :: "nat \<Rightarrow> string \<Rightarrow> string" where
  "groupDigits i [] = []"
| "groupDigits i (c # s) =
     (if 0 < i \<and> length (c # s) mod 3 = 0 then [CHR '',''] else []) @ c # groupDigits (Suc i) s"

definition humanNum :: "int \<Rightarrow> string" where
  "humanNum n =
     (let s = itoa n; neg = hasPrefix s ''-''; s = (if neg then drop 1 s else s); b = groupDigits 0 s
      in if neg then ''-'' @ b else b)"

definition humanNumPtr :: "int option \<Rightarrow> string" where
  "humanNumPtr n = (case n of None \<Rightarrow> dash | Some n \<Rightarrow> humanNum n)"

section \<open>Instants and states\<close>

definition formatTime :: "time \<Rightarrow> string" where
  "formatTime t = (if isZeroTime t then dash else fmtDateTime '' '' t)"

definition formatTimeOpt :: "time option \<Rightarrow> string" where
  "formatTimeOpt t = (case t of None \<Rightarrow> dash | Some t \<Rightarrow> formatTime t)"

definition formatStartTime :: "time option \<Rightarrow> time \<Rightarrow> string" where
  "formatStartTime start create = (case start of Some t \<Rightarrow> formatTime t | None \<Rightarrow> formatTime create)"

definition stateBadge :: "string \<Rightarrow> string" where
  "stateBadge state =
     (let cls = (if state = ''FINISHED'' \<or> state = ''FAILED'' then state else ''other'')
      in ''<span class='' @ [CHR 0x22] @ ''badge '' @ HTMLEscapeString cls @ [CHR 0x22] @ ''>'' @ HTMLEscapeString state @ ''</span>'')"

section \<open>The unit is always one of six\<close>

text \<open>After \<open>k\<close> rounds the divisor is \<open>1024 ^ (k + 1)\<close>; the loop stops at the power below the number.\<close>

lemma unit_bound: "(1024 :: int) ^ Suc e \<le> n \<Longrightarrow> n < 2 ^ 63 \<Longrightarrow> e < 6"
proof (rule ccontr)
  assume n: "(1024 :: int) ^ Suc e \<le> n" "n < 2 ^ 63" and "\<not> e < 6"
  then have "(1024 :: int) ^ 7 \<le> 1024 ^ Suc e" by (intro power_increasing) auto
  then show False using n by simp
qed

lemma unitLoop_spec:
  assumes "x = n div 1024 ^ Suc e" and "1024 ^ Suc e \<le> n" and "n < 2 ^ 63" and "dv = 1024 ^ Suc e"
  shows "\<exists>e'. unitLoop x dv e = (1024 ^ Suc e', e') \<and> e' < 6 \<and> 1024 ^ Suc e' \<le> n \<and> n < 1024 ^ Suc (Suc e')"
  using assms
proof (induction x dv e rule: unitLoop.induct)
  case (1 x dv e)
  let ?P = "(1024 :: int) ^ Suc e"
  have P: "0 < ?P" by simp
  have b: "?P * (n div ?P) \<le> n" "n < ?P * (n div ?P) + ?P" using div_bounds [OF P, of n] by auto
  show ?case
  proof (cases "1024 \<le> x")
    case True
    then have "?P * 1024 \<le> ?P * (n div ?P)" using "1.prems"(1) P by (intro mult_left_mono) auto
    then have "?P * 1024 \<le> n" using b(1) by (rule order_trans)
    then have le: "1024 ^ Suc (Suc e) \<le> n" by (simp add: mult.commute)
    have x: "goDiv x 1024 = n div 1024 ^ Suc (Suc e)"
      using True "1.prems"(1) zdiv_zmult2_eq [of 1024 n ?P] by (simp add: mult.commute)
    have "(0 :: int) \<le> 1024 ^ Suc (Suc e)" by (rule zero_le_power) simp
    then have "i64 (1024 ^ Suc (Suc e)) = 1024 ^ Suc (Suc e)" using le "1.prems"(3) by (intro i64_id) linarith+
    then have "i64 (dv * 1024) = 1024 ^ Suc (Suc e)" using "1.prems"(4) by (simp add: mult.commute)
    then show ?thesis using "1.IH" [OF True x le "1.prems"(3)] True by (simp add: unitLoop.simps [of x])
  next
    case False
    then have "?P * (n div ?P) + ?P \<le> ?P * 1024"
      using "1.prems"(1) mult_left_mono [of "n div ?P + 1" 1024 ?P] P by (simp add: algebra_simps)
    then have "n < ?P * 1024" using b(2) by (rule order_less_le_trans [rotated])
    then have "n < 1024 ^ Suc (Suc e)" by (simp add: mult.commute)
    moreover have "unitLoop x dv e = (dv, e)" using False by (simp add: unitLoop.simps [of x])
    ultimately show ?thesis using "1.prems" unit_bound [of e n] by blast
  qed
qed

section \<open>Digits\<close>

lemma groupDigits_digits: "list_all isDigit s \<Longrightarrow> filter (\<lambda>c. c \<noteq> CHR '','') (groupDigits i s) = s"
  by (induction s arbitrary: i) (auto simp: isDigit_def)

section \<open>Properties\<close>

text \<open>
  Sizes are shown without a crash and in the right unit: for every 64-bit size of at least
  1024 the loop ends with a divisor that is the largest power of 1024 not above the
  size, and an index inside the six unit letters.
\<close>

theorem humanBytes_unit:
  assumes "1024 \<le> n" and "n < 2 ^ 63"
  shows "\<exists>e. unitLoop (goDiv n 1024) 1024 0 = (1024 ^ Suc e, e) \<and> e < length ''KMGTPE'' \<and>
    1024 ^ Suc e \<le> n \<and> n < 1024 ^ Suc (Suc e)"
proof -
  have l: "length ''KMGTPE'' = 6" by simp
  show ?thesis unfolding l using assms by (intro unitLoop_spec) simp_all
qed

theorem humanBytes_unit_witness:
  "\<exists>e. unitLoop (goDiv 1048575 1024) 1024 0 = (1024 ^ Suc e, e) \<and> e < length ''KMGTPE''"
  using humanBytes_unit [of 1048575] by auto

text \<open>
  Thousands separators only separate: removing the commas from a shown number gives its
  decimal digits and sign.
\<close>

theorem humanNum_digits: "filter (\<lambda>c. c \<noteq> CHR '','') (humanNum n) = itoa n"
proof (cases "n < 0")
  case True
  then show ?thesis
    using groupDigits_digits [OF natDec_digits, of 0 "nat (- n)"] by (simp add: humanNum_def itoa_def hasPrefix_def Let_def)
next
  case False
  obtain c cs where c: "natDec (nat n) = c # cs" by (metis natDec_nonempty list.exhaust)
  then have "\<not> hasPrefix (natDec (nat n)) ''-''" using natDec_hd_not_sign [OF c] by (simp add: hasPrefix_def)
  then show ?thesis
    using False groupDigits_digits [OF natDec_digits, of 0 "nat n"] by (simp add: humanNum_def itoa_def Let_def)
qed

text \<open>The bytes that open and close tags and attribute values.\<close>

definition markup :: "string \<Rightarrow> string" where
  "markup s = filter (\<lambda>c. c = CHR ''<'' \<or> c = CHR ''>'' \<or> c = CHR 0x22 \<or> c = CHR 0x27) s"

lemma markup_simps [simp]:
  "markup [] = []" "markup (s @ t) = markup s @ markup t"
  "markup (c # s) = (if c = CHR ''<'' \<or> c = CHR ''>'' \<or> c = CHR 0x22 \<or> c = CHR 0x27 then c # markup s else markup s)"
  by (simp_all add: markup_def)

lemma markup_escaped [simp]: "markup (HTMLEscapeString s) = []"
  using HTMLEscape_inert [of s] by (auto simp: markup_def filter_empty_conv list_all_iff)

text \<open>
  No value shown can inject markup: the bytes that delimit tags and attributes in a state
  badge or a sort link are the same whatever the state, the filter values and the
  label are.
\<close>

theorem markup_independent_of_data:
  "markup (stateBadge state) = markup (stateBadge state') \<and>
   markup (sortlink v key label) = markup (sortlink v' key' label')"
proof -
  have "markup (sortlink v key label) = [CHR ''<'', CHR 0x22, CHR 0x22, CHR 0x22, CHR 0x22, CHR 0x22, CHR 0x22, CHR ''>'', CHR ''<'', CHR ''>'']"
    for v key label by (simp add: sortlink_def Let_def)
  moreover have "markup (stateBadge state) = [CHR ''<'', CHR 0x22, CHR 0x22, CHR ''>'', CHR ''<'', CHR ''>'']" for state
    by (simp add: stateBadge_def Let_def)
  ultimately show ?thesis by simp
qed

end
