(* ===== verification/QueryCli.thy ===== *)
theory QueryCli
  imports WebText IsoDuration "HOL-Library.Multiset"
begin

text \<open>
  Package \<^verbatim>\<open>querycli\<close>: the command-line client of the JSON API. Flag parsing follows the
  algorithm of package \<^verbatim>\<open>flag\<close>; the transport, the file holding a token, \<^verbatim>\<open>encoding/json\<close> and
  \<^verbatim>\<open>strconv.ParseInt\<close> with base 0 are parameters. What is printed is kept as parts: text, the
  cells handed to \<^verbatim>\<open>text/tabwriter\<close>, or the value handed to the JSON encoder.
\<close>

section \<open>Flags\<close>

datatype cliErr = ErrHelp | ErrUsage | ErrNotFound | CliErr string

record cliFlags =
  fl_url :: string
  fl_headers :: "string list"
  fl_tokenFile :: string
  fl_tokenHeader :: string
  fl_timeout :: duration
  fl_insecure :: bool
  fl_output :: string
  fl_range :: string
  fl_user :: string
  fl_catalog :: string
  fl_state :: string
  fl_sort :: string
  fl_desc :: bool
  fl_limit :: int
  fl_offset :: int
  fl_top :: int
  fl_raw :: bool

definition defaultFlags :: cliFlags where
  "defaultFlags = \<lparr>fl_url = '''', fl_headers = [], fl_tokenFile = '''', fl_tokenHeader = '''', fl_timeout = 30 * second,
     fl_insecure = False, fl_output = ''table'', fl_range = ''24h'', fl_user = '''', fl_catalog = '''', fl_state = '''',
     fl_sort = ''start'', fl_desc = True, fl_limit = 20, fl_offset = 0, fl_top = 10, fl_raw = False\<rparr>"

text \<open>A flag: whether it may stand without a value, and what setting it does.\<close>

record flagDef =
  isBool :: bool
  setFlag :: "cliFlags \<Rightarrow> string \<Rightarrow> cliFlags option"

definition strFlag :: "(string \<Rightarrow> cliFlags \<Rightarrow> cliFlags) \<Rightarrow> flagDef" where
  "strFlag upd = \<lparr>isBool = False, setFlag = \<lambda>f v. Some (upd v f)\<rparr>"

definition boolFlag :: "(bool \<Rightarrow> cliFlags \<Rightarrow> cliFlags) \<Rightarrow> flagDef" where
  "boolFlag upd = \<lparr>isBool = True, setFlag = \<lambda>f v. map_option (\<lambda>b. upd b f) (ParseBool v)\<rparr>"

definition intFlag :: "(string \<Rightarrow> int option) \<Rightarrow> (int \<Rightarrow> cliFlags \<Rightarrow> cliFlags) \<Rightarrow> flagDef" where
  "intFlag pint upd = \<lparr>isBool = False, setFlag = \<lambda>f v. map_option (\<lambda>n. upd n f) (pint v)\<rparr>"

text \<open>\<^verbatim>\<open>headerList.Set\<close>.\<close>

definition headerFlag :: flagDef where
  "headerFlag = \<lparr>isBool = False,
     setFlag = \<lambda>f v. if CHR '':'' \<in> set v then Some (f\<lparr>fl_headers := fl_headers f @ [v]\<rparr>) else None\<rparr>"

definition commonFlags :: "(string \<times> flagDef) list" where
  "commonFlags =
     [(''url'', strFlag (\<lambda>v f. f\<lparr>fl_url := v\<rparr>)), (''header'', headerFlag), (''H'', headerFlag),
      (''token-file'', strFlag (\<lambda>v f. f\<lparr>fl_tokenFile := v\<rparr>)),
      (''token-header'', strFlag (\<lambda>v f. f\<lparr>fl_tokenHeader := v\<rparr>)),
      (''timeout'', \<lparr>isBool = False, setFlag = \<lambda>f v. map_option (\<lambda>d. f\<lparr>fl_timeout := d\<rparr>) (ParseDuration v)\<rparr>),
      (''insecure'', boolFlag (\<lambda>b f. f\<lparr>fl_insecure := b\<rparr>)),
      (''output'', strFlag (\<lambda>v f. f\<lparr>fl_output := v\<rparr>)), (''o'', strFlag (\<lambda>v f. f\<lparr>fl_output := v\<rparr>))]"

definition listFlags :: "(string \<Rightarrow> int option) \<Rightarrow> (string \<times> flagDef) list" where
  "listFlags pint = commonFlags @
     [(''range'', strFlag (\<lambda>v f. f\<lparr>fl_range := v\<rparr>)), (''user'', strFlag (\<lambda>v f. f\<lparr>fl_user := v\<rparr>)),
      (''catalog'', strFlag (\<lambda>v f. f\<lparr>fl_catalog := v\<rparr>)), (''state'', strFlag (\<lambda>v f. f\<lparr>fl_state := v\<rparr>)),
      (''sort'', strFlag (\<lambda>v f. f\<lparr>fl_sort := v\<rparr>)), (''desc'', boolFlag (\<lambda>b f. f\<lparr>fl_desc := b\<rparr>)),
      (''limit'', intFlag pint (\<lambda>n f. f\<lparr>fl_limit := n\<rparr>)), (''offset'', intFlag pint (\<lambda>n f. f\<lparr>fl_offset := n\<rparr>))]"

definition planFlags :: "(string \<Rightarrow> int option) \<Rightarrow> (string \<times> flagDef) list" where
  "planFlags pint = commonFlags @
     [(''top'', intFlag pint (\<lambda>n f. f\<lparr>fl_top := n\<rparr>)), (''raw'', boolFlag (\<lambda>b f. f\<lparr>fl_raw := b\<rparr>))]"

text \<open>
  \<^verbatim>\<open>FlagSet.parseOne\<close>: no flag is left (with what follows them), an error, or one flag was
  set (with the arguments after it).
\<close>

datatype parsed = NoFlag "string list" | Bad cliErr | Seen cliFlags "string list"

definition applyFlag :: "flagDef \<Rightarrow> cliFlags \<Rightarrow> string \<Rightarrow> string list \<Rightarrow> parsed" where
  "applyFlag d f v rest = (case setFlag d f v of None \<Rightarrow> Bad ErrUsage | Some f \<Rightarrow> Seen f rest)"

definition parseOne :: "(string \<times> flagDef) list \<Rightarrow> cliFlags \<Rightarrow> string list \<Rightarrow> parsed" where
  "parseOne defs f argv =
     (case argv of
        [] \<Rightarrow> NoFlag []
      | s # rest \<Rightarrow>
          if length s < 2 \<or> hd s \<noteq> CHR ''-'' then NoFlag argv
          else if s = ''--'' then NoFlag rest
          else
            (let nm = (if s ! 1 = CHR ''-'' then drop 2 s else drop 1 s) in
             if nm = [] \<or> hd nm = CHR ''-'' \<or> hd nm = CHR ''='' then Bad ErrUsage
             else
               (let hasValue = (CHR ''='' \<in> set nm);
                    (key, val) = (if hasValue then cutC CHR ''='' nm else (nm, ''''))
                in case map_of defs key of
                     None \<Rightarrow> Bad (if key = ''help'' \<or> key = ''h'' then ErrHelp else ErrUsage)
                   | Some d \<Rightarrow>
                       if isBool d then applyFlag d f (if hasValue then val else ''true'') rest
                       else if hasValue then applyFlag d f val rest
                       else (case rest of [] \<Rightarrow> Bad ErrUsage | v # rest' \<Rightarrow> applyFlag d f v rest'))))"

lemma applyFlag_Seen: "applyFlag d f v rest = Seen f' rem \<Longrightarrow> rem = rest"
  by (simp add: applyFlag_def split: option.splits)

lemma applyFlag_NoFlag [simp]: "applyFlag d f v rest \<noteq> NoFlag rem"
  by (simp add: applyFlag_def split: option.split)

lemma parseOne_shrinks:
  "parseOne defs f argv = Seen f' rem \<Longrightarrow> length rem < length argv"
  "parseOne defs f argv = NoFlag rem \<Longrightarrow> length rem \<le> length argv"
  by (auto simp: parseOne_def Let_def split: list.splits if_splits option.splits prod.splits dest!: applyFlag_Seen)

text \<open>
  \<^verbatim>\<open>parseFlags\<close> around \<^verbatim>\<open>FlagSet.Parse\<close>: the flags and the arguments left; any error but a
  request for help is \<^verbatim>\<open>errUsage\<close>.
\<close>

function parseFlags :: "(string \<times> flagDef) list \<Rightarrow> cliFlags \<Rightarrow> string list \<Rightarrow> cliErr + cliFlags \<times> string list" where
  "parseFlags defs f argv =
     (case parseOne defs f argv of
        NoFlag rest \<Rightarrow> Inr (f, rest) | Bad e \<Rightarrow> Inl e | Seen f rest \<Rightarrow> parseFlags defs f rest)"
  by pat_completeness auto
termination
  by (relation "measure (\<lambda>(defs, f, argv). length argv)") (auto dest: parseOne_shrinks)

declare parseFlags.simps [simp del]

lemma parseFlags_shrinks: "parseFlags defs f argv = Inr (f', rem) \<Longrightarrow> length rem \<le> length argv"
proof (induction defs f argv arbitrary: f' rem rule: parseFlags.induct)
  case (1 defs f argv)
  show ?case
  proof (cases "parseOne defs f argv")
    case (Seen g rest)
    then have "parseFlags defs g rest = Inr (f', rem)" using "1.prems" by (simp add: parseFlags.simps [of defs f argv])
    then show ?thesis using "1.IH" [OF Seen] parseOne_shrinks(1) [OF Seen] by fastforce
  qed (use "1.prems" parseOne_shrinks(2) in \<open>auto simp: parseFlags.simps [of defs f argv]\<close>)
qed

text \<open>\<^verbatim>\<open>parseWithID\<close>: flags may stand before and after the one argument.\<close>

function parseWithID :: "(string \<times> flagDef) list \<Rightarrow> cliFlags \<Rightarrow> string \<Rightarrow> string list \<Rightarrow> cliErr + cliFlags \<times> string" where
  "parseWithID defs f qid rem =
     (case parseFlags defs f rem of
        Inl e \<Rightarrow> Inl e
      | Inr (f, []) \<Rightarrow> if qid = '''' then Inl (CliErr ''missing <queryId> argument'') else Inr (f, qid)
      | Inr (f, a # rest) \<Rightarrow>
          if qid \<noteq> '''' then Inl (CliErr (''unexpected argument: '' @ a)) else parseWithID defs f a rest)"
  by pat_completeness auto
termination
  by (relation "measure (\<lambda>(defs, f, qid, rem). length rem)") (auto dest: parseFlags_shrinks)

declare parseWithID.simps [simp del]

section \<open>Text helpers\<close>

definition humanMS :: "int \<Rightarrow> string" where
  "humanMS ms =
     (if ms \<le> 0 then ''0''
      else let d = i64 (ms * 1000000); minute = 60 * second; hour = 3600 * second in
           if hour \<le> d then itoa (goDiv d hour) @ ''h'' @ itoa (goDiv (goMod d hour) minute) @ ''m''
           else if minute \<le> d then itoa (goDiv d minute) @ ''m'' @ itoa (goDiv (goMod d minute) second) @ ''s''
           else if second \<le> d then fmtFixed 1 (inUnits second d) @ ''s''
           else itoa ms @ ''ms'')"

text \<open>The loop of \<^verbatim>\<open>humanBytes\<close>: the double is divided until it is below 1024 or the units end.\<close>

definition cliUnits :: "string list" where "cliUnits = [''KiB'', ''MiB'', ''GiB'', ''TiB'', ''PiB'']"

fun cliUnitLoop :: "nat \<Rightarrow> nat \<times> nat \<Rightarrow> (nat \<times> nat) \<times> nat" where
  "cliUnitLoop 0 f = (f, 0)"
| "cliUnitLoop (Suc left) f =
     (if 1024 * snd f \<le> fst f then (case cliUnitLoop left (fdiv f (fl 1024 1)) of (g, k) \<Rightarrow> (g, Suc k)) else (f, 0))"

definition cliHumanBytes :: "int \<Rightarrow> string" where
  "cliHumanBytes n =
     (if n \<le> 0 then ''0''
      else if n < 1024 then itoa n @ ''B''
      else (case cliUnitLoop (length cliUnits) (fl (nat n) 1) of (f, k) \<Rightarrow> fmtFixed 1 f @ cliUnits ! (k - 1)))"

text \<open>\<^verbatim>\<open>humanCount\<close> groups digits as the server's \<^verbatim>\<open>humanNum\<close> does, byte by byte.\<close>

definition humanCount :: "int \<Rightarrow> string" where
  "humanCount n =
     (let s = itoa n; s = (if n < 0 then drop 1 s else s); b = groupDigits 0 s in if n < 0 then ''-'' @ b else b)"

definition cliBytesPtr :: "int option \<Rightarrow> string" where
  "cliBytesPtr p = (case p of None \<Rightarrow> ''-'' | Some n \<Rightarrow> cliHumanBytes n)"

definition humanCountPtr :: "int option \<Rightarrow> string" where
  "humanCountPtr p = (case p of None \<Rightarrow> ''-'' | Some n \<Rightarrow> humanCount n)"

text \<open>A rune written back: an ill-formed byte has become the replacement character.\<close>

definition runeText :: "string \<Rightarrow> string" where
  "runeText g = (if runeLen g = 0 then [CHR 0xEF, CHR 0xBF, CHR 0xBD] else g)"

definition ellipsis :: string where "ellipsis = [CHR 0xE2, CHR 0x80, CHR 0xA6]"

definition trunc :: "string \<Rightarrow> int \<Rightarrow> string" where
  "trunc s n =
     (let n = (if n < 0 then 0 else n); r = runes s
      in if int (length r) \<le> n then s
         else if n = 0 then ''''
         else if n = 1 then runeText (hd r)
         else concat (map runeText (take (nat (n - 1)) r)) @ ellipsis)"

definition oneLine :: "string \<Rightarrow> string" where
  "oneLine s = joinS (Fields s) '' ''"

section \<open>Requests\<close>

text \<open>\<^verbatim>\<open>url.PathEscape\<close> of one segment, and its inverse.\<close>

definition pathPlain :: "char \<Rightarrow> bool" where
  "pathPlain c = (unreserved c \<or> c \<in> {CHR ''$'', CHR ''&'', CHR ''+'', CHR '':'', CHR ''='', CHR 0x40})"

definition PathEscape :: "string \<Rightarrow> string" where
  "PathEscape s = concat (map (\<lambda>c. if pathPlain c then [c] else percent c) s)"

fun PathUnescape :: "string \<Rightarrow> string option" where
  "PathUnescape [] = Some []"
| "PathUnescape (c # s) =
     (if c = CHR ''%'' then
        (case s of
           a # b # t \<Rightarrow>
             (case (unhex a, unhex b) of
                (Some x, Some y) \<Rightarrow> map_option ((#) (char_of (16 * x + y))) (PathUnescape t)
              | _ \<Rightarrow> None)
         | _ \<Rightarrow> None)
      else map_option ((#) c) (PathUnescape s))"

text \<open>\<^verbatim>\<open>http.Header\<close>: keys are canonical, the values of a key in the order they were added.\<close>

definition tokenByte :: "char \<Rightarrow> bool" where
  "tokenByte c = (isDigit c \<or> identStart c \<or> c \<in> set ''!#$%&*+-.^`|~'' \<or> c = CHR 0x27)"

definition upperC :: "char \<Rightarrow> char" where
  "upperC c = (let v = byteVal c in if 97 \<le> v \<and> v \<le> 122 then char_of (v - 32) else c)"

definition lowerC :: "char \<Rightarrow> char" where
  "lowerC c = (let v = byteVal c in if 65 \<le> v \<and> v \<le> 90 then char_of (v + 32) else c)"

fun canonLoop :: "bool \<Rightarrow> string \<Rightarrow> string" where
  "canonLoop up [] = []"
| "canonLoop up (c # s) = (if up then upperC c else lowerC c) # canonLoop (c = CHR ''-'') s"

definition canonKey :: "string \<Rightarrow> string" where
  "canonKey k = (if list_all tokenByte k then canonLoop True k else k)"

type_synonym headers = "(string \<times> string) list"

definition hAdd :: "string \<Rightarrow> string \<Rightarrow> headers \<Rightarrow> headers" where
  "hAdd k v h = h @ [(canonKey k, v)]"

definition hSet :: "string \<Rightarrow> string \<Rightarrow> headers \<Rightarrow> headers" where
  "hSet k v h = filter (\<lambda>p. fst p \<noteq> canonKey k) h @ [(canonKey k, v)]"

record client =
  base :: string
  headers :: headers
  clientTimeout :: duration
  insecureTLS :: bool

text \<open>\<^verbatim>\<open>newClient\<close>; \<open>readFile\<close> is the file system.\<close>

definition newClient :: "(nat \<Rightarrow> bool) \<Rightarrow> (string \<Rightarrow> string + string) \<Rightarrow> cliFlags \<Rightarrow> cliErr + client" where
  "newClient ip readFile c =
     (if TrimSpace (fl_url c) = '''' then Inl (CliErr ''--url is required'')
      else if fl_output c \<noteq> ''table'' \<and> fl_output c \<noteq> ''json''
      then Inl (CliErr (''--output must be '' @ [CHR 0x22] @ ''table'' @ [CHR 0x22] @ '' or '' @ [CHR 0x22] @ ''json'' @ [CHR 0x22] @
             '', got '' @ goQuote ip (fl_output c)))
      else if fl_tokenHeader c \<noteq> '''' \<and> fl_tokenFile c = '''' then Inl (CliErr ''--token-header requires --token-file'')
      else
        (let h = fold (\<lambda>raw h. case cutC CHR '':'' raw of (k, v) \<Rightarrow> hAdd (TrimSpace k) (TrimSpace v) h) (fl_headers c) [];
             auth = (if fl_tokenFile c = '''' then Inr h
                else (case readFile (fl_tokenFile c) of
                        Inl e \<Rightarrow> Inl (CliErr (''read token file: '' @ e))
                      | Inr b \<Rightarrow>
                          (let tok = TrimSpace b in
                           if tok = '''' then Inl (CliErr (''token file '' @ fl_tokenFile c @ '' is empty''))
                           else Inr (if fl_tokenHeader c \<noteq> '''' then hSet (fl_tokenHeader c) tok h
                                     else hSet ''Authorization'' (''Bearer '' @ tok) h))))
         in case auth of Inl e \<Rightarrow> Inl e
            | Inr h \<Rightarrow>
                Inr \<lparr>base = rev (dropWhile (\<lambda>x. x = CHR 0x2F) (rev (fl_url c))), headers = h, clientTimeout = fl_timeout c,
                     insecureTLS = fl_insecure c\<rparr>))"

text \<open>
  A response: its status code, status line and body. \<open>send\<close> is the transport, which gives
  an error text when there is no response.
\<close>

type_synonym httpResponse = "int \<times> string \<times> string"

definition requestURL :: "client \<Rightarrow> string \<Rightarrow> url_values \<Rightarrow> string" where
  "requestURL c path q = base c @ path @ (if 0 < length q then ''?'' @ Encode q else '''')"

definition requestHeaders :: "client \<Rightarrow> headers" where
  "requestHeaders c = hSet ''Accept'' ''application/json'' (fold (\<lambda>(k, v). hAdd k v) (headers c) [])"

definition getJSON :: "(string \<Rightarrow> headers \<Rightarrow> string + httpResponse) \<Rightarrow> (string \<Rightarrow> string + 'a) \<Rightarrow> client \<Rightarrow> string \<Rightarrow> url_values \<Rightarrow>
    cliErr + 'a" where
  "getJSON send dec c path q =
     (case send (requestURL c path q) (requestHeaders c) of
        Inl e \<Rightarrow> Inl (CliErr e)
      | Inr (code, status, body) \<Rightarrow>
          if code = 404 then Inl ErrNotFound
          else if goDiv code 100 \<noteq> 2 then
            (let msg = TrimSpace (take 512 body) in
             if msg = '''' then Inl (CliErr (''server returned '' @ status))
             else Inl (CliErr (''server returned '' @ status @ '': '' @ msg)))
          else (case dec (take (64 * 1048576) body) of Inl e \<Rightarrow> Inl (CliErr e) | Inr x \<Rightarrow> Inr x))"

section \<open>Hotspots of a plan\<close>

text \<open>
  A percentage as a fraction; a value too large for a double is infinite, with
  denominator 0. Cross multiplication compares them.
\<close>

type_synonym pct = "nat \<times> nat"

definition pctGreater :: "pct \<Rightarrow> pct \<Rightarrow> bool" where
  "pctGreater a b = (fst b * snd a < fst a * snd b)"

record hotspot =
  Operator :: string
  CPUPct :: pct
  CPU :: string
  hs_Rows :: int

text \<open>\<^verbatim>\<open>\<backslash>s\<close> of a regular expression, and a run of one class of bytes.\<close>

definition reSpace :: "char \<Rightarrow> bool" where
  "reSpace c = (c \<in> {CHR 0x09, CHR 0x0A, CHR 0x0C, CHR 0x0D, CHR 0x20})"

definition skipSpace :: "string \<Rightarrow> string" where "skipSpace s = dropWhile reSpace s"

text \<open>The first position where a matcher succeeds.\<close>

fun findFirst :: "(string \<Rightarrow> 'a option) \<Rightarrow> string \<Rightarrow> 'a option" where
  "findFirst m [] = m []"
| "findFirst m (c # s) = (case m (c # s) of Some x \<Rightarrow> Some x | None \<Rightarrow> findFirst m s)"

text \<open>\<^verbatim>\<open>reOpBranch\<close>: a branch of the tree, blanks, then the rest of the line, at least one rune.\<close>

definition lastRune :: "string \<Rightarrow> string" where "lastRune s = last (runes s)"

definition matchBranch :: "string \<Rightarrow> string option" where
  "matchBranch s =
     (if hasPrefix s [CHR 0xE2, CHR 0x94, CHR 0x9C, CHR 0xE2, CHR 0x94, CHR 0x80] \<or>
         hasPrefix s [CHR 0xE2, CHR 0x94, CHR 0x94, CHR 0xE2, CHR 0x94, CHR 0x80]
      then let rest = drop 6 s in
           if rest = [] then None
           else if skipSpace rest = [] then Some (lastRune rest) else Some (skipSpace rest)
      else None)"

text \<open>\<^verbatim>\<open>reOpTop\<close>: a capitalised name followed by a bracket, from the start of the line.\<close>

definition isUpperC :: "char \<Rightarrow> bool" where "isUpperC c = (65 \<le> byteVal c \<and> byteVal c \<le> 90)"
definition isLowerC :: "char \<Rightarrow> bool" where "isLowerC c = (97 \<le> byteVal c \<and> byteVal c \<le> 122)"

definition matchTop :: "string \<Rightarrow> string option" where
  "matchTop s =
     (case skipSpace s of
        c # t \<Rightarrow>
          if isUpperC c \<and> t \<noteq> [] \<and> (isUpperC (hd t) \<or> isLowerC (hd t)) \<and>
             hasPrefix (dropWhile (\<lambda>x. isUpperC x \<or> isLowerC x) t) ''[''
          then Some (c # t) else None
      | [] \<Rightarrow> None)"

text \<open>\<^verbatim>\<open>reCPUPct\<close> from a given position: the time with its unit, and the percentage.\<close>

definition numDot :: "char \<Rightarrow> bool" where "numDot c = (isDigit c \<or> c = CHR ''.'')"

fun unitRunes :: "string \<Rightarrow> string" where
  "unitRunes (c # d # s) =
     (if isLowerC c then c # unitRunes (d # s)
      else if c = CHR 0xC2 \<and> d = CHR 0xB5 then c # d # unitRunes s else [])"
| "unitRunes (c # s) = (if isLowerC c then c # unitRunes s else [])"
| "unitRunes [] = []"

definition matchCPU :: "string \<Rightarrow> (string \<times> string) option" where
  "matchCPU s =
     (if \<not> hasPrefix s ''CPU:'' then None
      else
        (let a = skipSpace (drop 4 s);
             num = takeWhile numDot a; b = dropWhile numDot a;
             gap = takeWhile reSpace b; c = skipSpace b;
             un = unitRunes c; d = skipSpace (drop (length un) c)
         in if num = [] \<or> un = [] \<or> \<not> hasPrefix d ''('' then None
            else
              (let e = drop 1 d; p = takeWhile numDot e; rest = dropWhile numDot e
               in if p = [] \<or> \<not> hasPrefix rest ''%)'' then None else Some (num @ gap @ un, p))))"

text \<open>\<^verbatim>\<open>reRows\<close> from a given position.\<close>

definition matchRows :: "string \<Rightarrow> string option" where
  "matchRows s =
     (if \<not> hasPrefix s ''Output:'' then None
      else
        (let a = skipSpace (drop 7 s);
             num = takeWhile (\<lambda>c. isDigit c \<or> c = CHR '','') a;
             b = dropWhile (\<lambda>c. isDigit c \<or> c = CHR '','') a
         in if num = [] \<or> b = [] \<or> \<not> reSpace (hd b) \<or> \<not> hasPrefix (skipSpace b) ''row'' then None else Some num))"

definition normSpace :: "string \<Rightarrow> string" where "normSpace s = joinS (Fields s) '' ''"
definition opName :: "string \<Rightarrow> string" where "opName s = trunc (normSpace s) 60"

text \<open>\<^verbatim>\<open>strconv.ParseInt(s, 10, 64)\<close> with its error ignored: a value out of range is the nearest one.\<close>

definition parseCommaInt :: "string \<Rightarrow> int" where
  "parseCommaInt s =
     (let t = filter (\<lambda>c. c \<noteq> CHR '','') s
      in if t = [] \<or> \<not> list_all isDigit t then 0 else min (int (decVal t)) (2 ^ 63 - 1))"

text \<open>\<^verbatim>\<open>strconv.ParseFloat\<close> with its error ignored, on digits and dots.\<close>

definition parsePct :: "string \<Rightarrow> pct" where
  "parsePct s =
     (let whole = takeWhile (\<lambda>c. c \<noteq> CHR ''.'') s; frac = drop 1 (dropWhile (\<lambda>c. c \<noteq> CHR ''.'') s)
      in if list_all isDigit whole \<and> list_all isDigit frac \<and> whole @ frac \<noteq> []
         then (let v = fl (decVal (whole @ frac)) (10 ^ length frac) in if fhuge v then (1, 0) else v)
         else (0, 1))"

fun hotspotLoop :: "string list \<Rightarrow> string \<Rightarrow> hotspot list \<Rightarrow> hotspot list" where
  "hotspotLoop [] lastOp out = out"
| "hotspotLoop (ln # lns) lastOp out =
     (case findFirst matchBranch ln of
        Some m \<Rightarrow> hotspotLoop lns (opName m) out
      | None \<Rightarrow>
          (case matchTop ln of
             Some m \<Rightarrow> hotspotLoop lns (opName m) out
           | None \<Rightarrow>
               (case findFirst matchCPU ln of
                  Some (t, p) \<Rightarrow>
                    hotspotLoop lns lastOp (out @ [\<lparr>Operator = lastOp, CPUPct = parsePct p, CPU = normSpace t,
                      hs_Rows = (case findFirst matchRows ln of Some n \<Rightarrow> parseCommaInt n | None \<Rightarrow> 0)\<rparr>])
                | None \<Rightarrow> hotspotLoop lns lastOp out)))"

text \<open>\<^verbatim>\<open>sort.SliceStable\<close>, highest percentage first: insertion keeps earlier entries before equal ones.\<close>

fun insertHot :: "hotspot \<Rightarrow> hotspot list \<Rightarrow> hotspot list" where
  "insertHot h [] = [h]"
| "insertHot h (g # gs) = (if pctGreater (CPUPct g) (CPUPct h) then g # insertHot h gs else h # g # gs)"

definition sortHot :: "hotspot list \<Rightarrow> hotspot list" where
  "sortHot hs = foldr insertHot hs []"

definition parseHotspots :: "string \<Rightarrow> hotspot list" where
  "parseHotspots plan = sortHot (hotspotLoop (splitOn CHR 0x0A plan) '''' [])"

section \<open>Commands\<close>

text \<open>What a command prints: text, the cells of a table, or a value for the JSON encoder.\<close>

record queryDetail =
  dRow :: Row
  Inputs :: "InputMetadata list"

datatype jsonVal = JEnvelope listResponse | JDetail queryDetail | JHotspots "hotspot list"

datatype outPart = Text string | Cells "string list list" | Json jsonVal

text \<open>The encoder refuses an infinite number and then writes nothing.\<close>

fun encodable :: "jsonVal \<Rightarrow> bool" where
  "encodable (JHotspots hs) = list_all (\<lambda>h. snd (CPUPct h) \<noteq> 0) hs"
| "encodable v = True"

definition renderOut :: "string \<Rightarrow> jsonVal \<Rightarrow> outPart list \<Rightarrow> cliErr + outPart list" where
  "renderOut format v table =
     (if format = ''json''
      then if encodable v then Inr [Json v] else Inl (CliErr ''json: unsupported value: +Inf'')
      else Inr table)"

definition listValues :: "cliFlags \<Rightarrow> url_values" where
  "listValues f =
     (let limit = (if fl_limit f < 1 then 1 else fl_limit f); limit = (if 500 < limit then 500 else limit);
          offset = (if fl_offset f < 0 then 0 else fl_offset f);
          q = setIf ''state'' (fl_state f) (setIf ''catalog'' (fl_catalog f) (setIf ''user'' (fl_user f)
                (vSet ''range'' (fl_range f) [])));
          q = vSet ''dir'' (if fl_desc f then ''desc'' else ''asc'') (vSet ''sort'' (fl_sort f) q)
      in vSet ''offset'' (itoa offset) (vSet ''limit'' (itoa limit) q))"

definition listRow :: "QuerySummary \<Rightarrow> string list" where
  "listRow s = [qs_QueryID s, qs_QueryState s, qs_QueryType s, trunc (qs_UserName s) 20, humanMS (qs_CPUMS s),
     humanMS (qs_WallMS s), humanCount (qs_OutputRows s)]"

definition printList :: "listResponse \<Rightarrow> outPart list" where
  "printList env =
     (if length (Queries env) = 0 then [Text (''no queries'' @ [CHR 0x0A])]
      else [Cells ([''ID'', ''STATE'', ''TYPE'', ''USER'', ''CPU'', ''WALL'', ''ROWS''] # map listRow (Queries env))] @
        (if lr_HasNext env
         then [Text ([CHR 0x0A] @ ellipsis @ '' more results (next: --offset '' @
                 itoa (lr_Offset env + int (length (Queries env))) @ '')'' @ [CHR 0x0A])]
         else []))"

record cliEnv =
  ce_isPrint :: "nat \<Rightarrow> bool"
  ce_readFile :: "string \<Rightarrow> string + string"
  ce_parseInt :: "string \<Rightarrow> int option"
  ce_send :: "string \<Rightarrow> headers \<Rightarrow> string + httpResponse"
  ce_decList :: "string \<Rightarrow> string + listResponse"
  ce_decQuery :: "string \<Rightarrow> string + queryDetail"

definition runList :: "cliEnv \<Rightarrow> string list \<Rightarrow> cliErr + outPart list" where
  "runList ev argv =
     (case parseFlags (listFlags (ce_parseInt ev)) defaultFlags argv of
        Inl e \<Rightarrow> Inl e
      | Inr (f, rest) \<Rightarrow>
          if 0 < length rest then Inl (CliErr (''unexpected argument(s): '' @ joinS rest '' ''))
          else
            (case newClient (ce_isPrint ev) (ce_readFile ev) f of
               Inl e \<Rightarrow> Inl e
             | Inr cl \<Rightarrow>
                 (case getJSON (ce_send ev) (ce_decList ev) cl ''/api/v1/queries'' (listValues f) of
                    Inl e \<Rightarrow> Inl e
                  | Inr env \<Rightarrow> renderOut (fl_output f) (JEnvelope env) (printList env))))"

definition getQuery :: "cliEnv \<Rightarrow> client \<Rightarrow> string \<Rightarrow> cliErr + queryDetail" where
  "getQuery ev cl qid = getJSON (ce_send ev) (ce_decQuery ev) cl (''/api/v1/queries/'' @ PathEscape qid) []"

definition getProjection :: "queryDetail \<Rightarrow> queryDetail" where
  "getProjection d = d\<lparr>dRow := (dRow d)\<lparr>Plan := '''', JSONPlan := ''''\<rparr>\<rparr>"

definition inputRow :: "InputMetadata \<Rightarrow> string list" where
  "inputRow i = [''  '' @ im_CatalogName i @ ''.'' @ im_Schema i @ ''.'' @ im_Table i,
     humanCountPtr (im_PhysicalInputRows i), cliBytesPtr (im_PhysicalInputBytes i)]"

definition line :: "string list \<Rightarrow> outPart" where "line parts = Text (concat parts @ [CHR 0x0A])"

definition printDetail :: "queryDetail \<Rightarrow> outPart list" where
  "printDetail d =
     (let r = dRow d;
          state = QueryState r @ (if RErrorCode r \<noteq> '''' then ''  ('' @ RErrorCode r @ '' / '' @ RErrorType r @ '')'' else '''')
      in [line [''Query    '', QueryID r], line [''State    '', state],
          line [''User     '', UserName r, ''    Source '', Source r, ''    Type '', QueryType r],
          line [''Timings  queued '', humanMS (QueuedMS r), ''  planning '', humanMS (PlanningMS r), ''  exec '',
                humanMS (ExecutionMS r), ''  wall '', humanMS (WallMS r)],
          line [''CPU      '', humanMS (CPUMS r), ''    Peak mem '', cliHumanBytes (PeakUserMemoryBytes r)],
          line [''IO       in '', cliHumanBytes (PhysicalInputBytes r), '' / '', humanCount (PhysicalInputRows r),
                '' rows    out '', humanCount (OutputRows r), '' rows    written '', humanCount (WrittenRows r), '' rows'']] @
         (if ErrorMessage r \<noteq> '''' then [line [''Error    '', trunc (oneLine (ErrorMessage r)) 200]] else []) @
         (if 0 < length (Inputs d)
          then [line [''Inputs:''], Cells ([''  TABLE'', ''ROWS'', ''BYTES''] # map inputRow (Inputs d))] else []) @
         (if Plan r \<noteq> '''' \<or> JSONPlan r \<noteq> ''''
          then [line [[CHR 0x0A], ''Plan     '', cliHumanBytes (int (length (Plan r))), '' text / '',
                  cliHumanBytes (int (length (JSONPlan r))), '' json '', dash, '' run `query plan '', QueryID r,
                  ''` for CPU hotspots'']]
          else []))"

definition runGet :: "cliEnv \<Rightarrow> string list \<Rightarrow> cliErr + outPart list" where
  "runGet ev argv =
     (case parseWithID commonFlags defaultFlags '''' argv of
        Inl e \<Rightarrow> Inl e
      | Inr (f, qid) \<Rightarrow>
          (case newClient (ce_isPrint ev) (ce_readFile ev) f of
             Inl e \<Rightarrow> Inl e
           | Inr cl \<Rightarrow>
               (case getQuery ev cl qid of
                  Inl e \<Rightarrow> Inl e
                | Inr d \<Rightarrow> renderOut (fl_output f) (JDetail (getProjection d)) (printDetail d))))"

definition hotRow :: "hotspot \<Rightarrow> string list" where
  "hotRow h = [(if snd (CPUPct h) = 0 then ''+Inf'' else fmtFixed 1 (CPUPct h)) @ ''%'', CPU h, humanCount (hs_Rows h), Operator h]"

definition printHotspots :: "hotspot list \<Rightarrow> outPart list" where
  "printHotspots hs =
     (if length hs = 0
      then [line [''no per-operator CPU stats found in plan (the query may not have executed)'']]
      else [Cells ([''CPU%'', ''CPU'', ''ROWS'', ''OPERATOR''] # map hotRow hs),
            line [[CHR 0x0A], ''(use --raw for the full text plan)'']])"

definition topHotspots :: "int \<Rightarrow> string \<Rightarrow> hotspot list" where
  "topHotspots n plan =
     (let hs = parseHotspots plan in if 0 < n \<and> n < int (length hs) then take (nat n) hs else hs)"

definition runPlan :: "cliEnv \<Rightarrow> string list \<Rightarrow> cliErr + outPart list" where
  "runPlan ev argv =
     (case parseWithID (planFlags (ce_parseInt ev)) defaultFlags '''' argv of
        Inl e \<Rightarrow> Inl e
      | Inr (f, qid) \<Rightarrow>
          (case newClient (ce_isPrint ev) (ce_readFile ev) f of
             Inl e \<Rightarrow> Inl e
           | Inr cl \<Rightarrow>
               (case getQuery ev cl qid of
                  Inl e \<Rightarrow> Inl e
                | Inr d \<Rightarrow>
                    if fl_raw f then Inr (if Plan (dRow d) = '''' then [] else [line [Plan (dRow d)]])
                    else (let hs = topHotspots (fl_top f) (Plan (dRow d))
                          in renderOut (fl_output f) (JHotspots hs) (printHotspots hs)))))"

text \<open>\<^verbatim>\<open>Main\<close>: the exit code and what goes to standard output.\<close>

definition exitOK :: int where "exitOK = 0"
definition exitError :: int where "exitError = 1"
definition exitNotFound :: int where "exitNotFound = 4"

definition exitCode :: "cliErr + outPart list \<Rightarrow> int \<times> outPart list" where
  "exitCode res =
     (case res of
        Inr out \<Rightarrow> (exitOK, out)
      | Inl ErrHelp \<Rightarrow> (exitOK, [])
      | Inl ErrUsage \<Rightarrow> (exitError, [])
      | Inl ErrNotFound \<Rightarrow> (exitNotFound, [])
      | Inl (CliErr e) \<Rightarrow> (exitError, []))"

definition cliMain :: "cliEnv \<Rightarrow> string list \<Rightarrow> int \<times> outPart list" where
  "cliMain ev argv =
     (case argv of
        [] \<Rightarrow> (exitError, [])
      | sub # rest \<Rightarrow>
          if sub = ''list'' then exitCode (runList ev rest)
          else if sub = ''get'' then exitCode (runGet ev rest)
          else if sub = ''plan'' then exitCode (runPlan ev rest)
          else if sub \<in> {''-h'', ''--help'', ''help''} then (exitOK, [])
          else (exitError, []))"

section \<open>What the client sends\<close>

lemma PathUnescape_escape: "PathUnescape (PathEscape s) = Some s"
proof (induction s)
  case (Cons c s)
  have "16 * (byteVal c div 16) + byteVal c mod 16 = byteVal c" by simp
  moreover have "byteVal c div 16 < 16" by (simp add: less_mult_imp_div_less)
  moreover have "pathPlain c \<Longrightarrow> c \<noteq> CHR ''%''" by (auto simp: pathPlain_def unreserved_def)
  ultimately show ?case using Cons by (auto simp: PathEscape_def percent_def unhex_hexUpper)
qed (simp add: PathEscape_def)

lemma PathEscape_free: "d \<in> {CHR 0x2F, CHR 0x3F} \<Longrightarrow> list_all (\<lambda>x. x \<noteq> d) (PathEscape s)"
proof (induction s)
  case (Cons c s)
  have "unreserved x \<Longrightarrow> x \<noteq> d" for x using Cons.prems by (auto simp: unreserved_def)
  then have "hexUpper n \<noteq> d" if "n < 16" for n using hexUpper_unreserved [OF that] by metis
  moreover have "byteVal c div 16 < 16" by (simp add: less_mult_imp_div_less)
  moreover have "pathPlain c \<Longrightarrow> c \<noteq> d" using Cons.prems by (auto simp: pathPlain_def unreserved_def)
  ultimately show ?case using Cons by (auto simp: PathEscape_def percent_def)
qed (simp add: PathEscape_def)

lemma PathEscape_inject: "PathEscape s = PathEscape t \<longleftrightarrow> s = t"
  using PathUnescape_escape by (metis option.inject)

definition flagLimit :: "cliFlags \<Rightarrow> int" where "flagLimit f = min 500 (max 1 (fl_limit f))"

lemma listValues_get:
  "vGet (listValues f) ''range'' = fl_range f" "vGet (listValues f) ''user'' = fl_user f"
  "vGet (listValues f) ''catalog'' = fl_catalog f" "vGet (listValues f) ''state'' = fl_state f"
  "vGet (listValues f) ''sort'' = fl_sort f" "vGet (listValues f) ''dir'' = (if fl_desc f then ''desc'' else ''asc'')"
  "vGet (listValues f) ''limit'' = itoa (flagLimit f)" "vGet (listValues f) ''offset'' = itoa (max 0 (fl_offset f))"
  by (simp_all add: listValues_def Let_def vGet_setIf flagLimit_def min_def max_def)

lemma listValues_nonempty: "listValues f \<noteq> []"
  by (simp add: listValues_def Let_def vSet_def)

text \<open>The filter the flags of \<^verbatim>\<open>query list\<close> ask for.\<close>

definition flagFilter :: "time \<Rightarrow> cliFlags \<Rightarrow> QueryFilter" where
  "flagFilter now f =
     \<lparr>qf_Since = now - the (rangeDurations (fl_range f)), qf_Until = now, qf_User = TrimSpace (fl_user f),
      qf_Catalog = TrimSpace (fl_catalog f), qf_State = fl_state f, qf_Sort = fl_sort f, qf_Desc = fl_desc f,
      qf_Limit = 0, qf_Offset = 0\<rparr>"

lemma buildQueryFilter_listValues:
  assumes "fl_range f \<in> dom rangeDurations" and "fl_sort f \<in> validSorts"
  shows "buildQueryFilter now (ParseQuery (Encode (listValues f))) = flagFilter now f"
proof -
  obtain d where "rangeDurations (fl_range f) = Some d" using assms(1) by auto
  then show ?thesis using assms(2)
    by (simp add: buildQueryFilter_def flagFilter_def resolveRange_def rangeInfo_def listValues_get Let_def)
qed

section \<open>Hotspots are ranked\<close>

lemma mset_insertHot: "mset (insertHot h hs) = add_mset h (mset hs)"
  by (induction hs) simp_all

lemma mset_sortHot: "mset (sortHot hs) = mset hs"
  by (induction hs) (simp_all add: sortHot_def mset_insertHot)

text \<open>A percentage is a number or infinite, never the fraction 0/0.\<close>

definition pctOk :: "hotspot \<Rightarrow> bool" where
  "pctOk h = (0 < snd (CPUPct h) \<or> 0 < fst (CPUPct h) \<and> snd (CPUPct h) = 0)"

lemma parsePct_ok: "pctOk h" if "CPUPct h = parsePct s"
proof -
  have "0 < snd (fl p q)" for p q using fl_denominator [of p q] by auto
  then show ?thesis using that by (auto simp: pctOk_def parsePct_def Let_def)
qed

lemma pctGreater_trans_le:
  assumes "pctOk a" "pctOk b" "pctOk c" and "\<not> pctGreater (CPUPct b) (CPUPct a)" "\<not> pctGreater (CPUPct c) (CPUPct b)"
  shows "\<not> pctGreater (CPUPct c) (CPUPct a)"
proof -
  obtain a1 a2 b1 b2 c1 c2 where e: "CPUPct a = (a1, a2)" "CPUPct b = (b1, b2)" "CPUPct c = (c1, c2)"
    by (metis surj_pair)
  have ba: "b1 * a2 \<le> a1 * b2" and cb: "c1 * b2 \<le> b1 * c2"
    using assms(4,5) by (simp_all add: pctGreater_def e not_less)
  have "c1 * a2 \<le> a1 * c2"
  proof (cases "b2 = 0")
    case True
    then have "0 < b1" using assms(2) by (simp add: pctOk_def e)
    then have "a2 = 0" using ba True by simp
    then show ?thesis by simp
  next
    case False
    have "c1 * a2 * b2 = c1 * b2 * a2" by simp
    also have "\<dots> \<le> b1 * c2 * a2" using cb by simp
    also have "\<dots> = b1 * a2 * c2" by simp
    also have "\<dots> \<le> a1 * b2 * c2" using ba by simp
    finally show ?thesis using False by (simp add: algebra_simps)
  qed
  then show ?thesis by (simp add: pctGreater_def e not_less)
qed

abbreviation rankedBefore :: "hotspot \<Rightarrow> hotspot \<Rightarrow> bool" where
  "rankedBefore g h \<equiv> \<not> pctGreater (CPUPct h) (CPUPct g)"

definition samePct :: "hotspot \<Rightarrow> hotspot \<Rightarrow> bool" where
  "samePct g h = (rankedBefore g h \<and> rankedBefore h g)"

lemma set_insertHot [simp]: "set (insertHot h hs) = insert h (set hs)"
  by (induction hs) auto

lemma rankedBefore_total: "pctGreater (CPUPct g) (CPUPct h) \<Longrightarrow> rankedBefore g h"
  by (simp add: pctGreater_def)

lemma insertHot_ranked:
  assumes "list_all pctOk (h # hs)" and "sorted_wrt rankedBefore hs"
  shows "sorted_wrt rankedBefore (insertHot h hs)"
  using assms
proof (induction hs)
  case (Cons g gs)
  have gs: "rankedBefore g x" if "x \<in> set gs" for x using Cons.prems(2) that by simp
  show ?case
  proof (cases "pctGreater (CPUPct g) (CPUPct h)")
    case True
    then show ?thesis using Cons gs rankedBefore_total [OF True] by auto
  next
    case False
    have "rankedBefore h x" if "x \<in> set gs" for x
      using pctGreater_trans_le [OF _ _ _ False gs [OF that]] Cons.prems(1) that by (simp add: list_all_iff)
    then show ?thesis using Cons.prems False by auto
  qed
qed simp

lemma insertHot_stable:
  assumes "list_all pctOk (a # h # hs)"
  shows "filter (samePct a) (insertHot h hs) = filter (samePct a) (h # hs)"
  using assms
proof (induction hs)
  case (Cons g gs)
  have "\<not> (samePct a g \<and> samePct a h)" if "pctGreater (CPUPct g) (CPUPct h)"
    using pctGreater_trans_le [of h a g] that Cons.prems by (auto simp: samePct_def)
  then show ?case using Cons by auto
qed simp

lemma sortHot_props:
  assumes "list_all pctOk hs"
  shows "sorted_wrt rankedBefore (sortHot hs)" "set (sortHot hs) = set hs"
    "pctOk a \<Longrightarrow> filter (samePct a) (sortHot hs) = filter (samePct a) hs"
proof -
  have "set (sortHot hs) = set hs \<and> sorted_wrt rankedBefore (sortHot hs) \<and>
      (pctOk a \<longrightarrow> filter (samePct a) (sortHot hs) = filter (samePct a) hs)"
    using assms
  proof (induction hs)
    case (Cons h hs)
    have s: "sortHot (h # hs) = insertHot h (sortHot hs)" by (simp add: sortHot_def)
    have ok: "list_all pctOk (h # sortHot hs)" using Cons by (simp add: list_all_iff)
    then show ?case unfolding s
      using Cons insertHot_ranked [OF ok] insertHot_stable [of a h "sortHot hs"] by auto
  qed (simp add: sortHot_def)
  then show "sorted_wrt rankedBefore (sortHot hs)" "set (sortHot hs) = set hs"
    "pctOk a \<Longrightarrow> filter (samePct a) (sortHot hs) = filter (samePct a) hs" by auto
qed

lemma hotspotLoop_ok: "list_all pctOk out \<Longrightarrow> list_all pctOk (hotspotLoop lns lastOp out)"
  by (induction lns lastOp out rule: hotspotLoop.induct)
    (auto split: option.splits prod.splits simp: list_all_iff parsePct_ok)

abbreviation planEntries :: "string \<Rightarrow> hotspot list" where
  "planEntries plan \<equiv> hotspotLoop (splitOn CHR 0x0A plan) '''' []"


section \<open>Cells have a bounded width\<close>

lemma runes_append_rune:
  "0 < runeLen g \<Longrightarrow> runeLen g = length g \<Longrightarrow> runes (g @ s) = g # runes s"
  by (subst runes_Cons) (auto simp: runeLen_append max_def Suc_le_eq)

definition wholeRune :: "string \<Rightarrow> bool" where
  "wholeRune g = (0 < runeLen g \<and> runeLen g = length g)"

lemma runes_concat_whole: "list_all wholeRune gs \<Longrightarrow> runes (concat gs @ s) = gs @ runes s"
proof (induction gs)
  case (Cons g gs)
  then have "runes (g @ concat gs @ s) = g # runes (concat gs @ s)"
    by (intro runes_append_rune) (auto simp: wholeRune_def)
  then show ?case using Cons by simp
qed simp

lemma wholeRune_marks: "wholeRune [CHR 0xEF, CHR 0xBF, CHR 0xBD]" "wholeRune ellipsis"
  by code_simp+

lemma wholeRune_runeText: "g \<in> set (runes s) \<Longrightarrow> wholeRune (runeText g)"
proof (induction s rule: runes.induct)
  case (1 s)
  show ?case
  proof (cases "s = []")
    case False
    let ?k = "max 1 (runeLen s)"
    have "wholeRune (runeText (take ?k s))"
    proof (cases "runeLen (take ?k s) = 0")
      case True
      then show ?thesis by (simp add: runeText_def wholeRune_marks)
    next
      case f: False
      then have "runeLen (take ?k s) = ?k"
        using runeLen_append [of "take ?k s" "drop ?k s"] by (simp add: max_def split: if_splits)
      then show ?thesis using f runeLen_le [of "take ?k s"] by (simp add: runeText_def wholeRune_def)
    qed
    then show ?thesis using "1.IH" [OF False refl] "1.prems" runes_Cons [OF False] by auto
  qed (use "1.prems" in simp)
qed

text \<open>
  A cell cut by \<^verbatim>\<open>trunc\<close> is at most \<open>n\<close> characters wide, a text that fits is not
  touched, and a cut text ends with the ellipsis when there is room for it; ill-formed bytes
  count as one character each.
\<close>

theorem trunc_width:
  "int (length (runes (trunc s n))) \<le> max 0 n \<and>
   (if int (length (runes s)) \<le> max 0 n then trunc s n = s
    else int (length (runes (trunc s n))) = max 0 n \<and> (n < 2 \<or> last (runes (trunc s n)) = ellipsis))"
proof (cases "int (length (runes s)) \<le> max 0 n")
  case True
  then show ?thesis by (auto simp: trunc_def Let_def max_def split: if_splits)
next
  case False
  consider (none) "n \<le> 0" | (one) "n = 1" | (cut) "2 \<le> n" by linarith
  then show ?thesis
  proof cases
    case none
    then show ?thesis using False by (simp add: trunc_def Let_def runes.simps [of "[]"])
  next
    case one
    then have "runes s \<noteq> []" using False by auto
    then have w: "list_all wholeRune [runeText (hd (runes s))]"
      using wholeRune_runeText [of "hd (runes s)" s] by simp
    show ?thesis using False one runes_concat_whole [OF w, of "[]"]
      by (simp add: trunc_def Let_def runes.simps [of "[]"])
  next
    case cut
    have w: "list_all wholeRune (map runeText (take (nat (n - 1)) (runes s)) @ [ellipsis])"
      using wholeRune_runeText wholeRune_marks(2) by (auto simp: list_all_iff dest: in_set_takeD)
    have t: "trunc s n = concat (map runeText (take (nat (n - 1)) (runes s)) @ [ellipsis])"
      using False cut by (simp add: trunc_def Let_def)
    show ?thesis using False cut runes_concat_whole [OF w, of "[]"]
      by (simp add: t runes.simps [of "[]"])
  qed
qed

end
