(* ===== verification/Metrics.thy ===== *)
theory Metrics
  imports IngestStores StoreCache
begin

text \<open>
  \<^verbatim>\<open>observability/metrics.go\<close>: the counters the ingest handler, the buffer and the cache
  report to, and the Prometheus text they are served as. The counters are shown to
  agree with the buffer's own account of its rows, and the text to give the values
  back to a scraper.
\<close>

section \<open>Counters\<close>

record BufferStats =
  Depth :: int
  Capacity :: int
  LastFlushUnixMs :: int
  LastFlushDurationMs :: int

record Metrics =
  eventsReceived :: int
  eventsInvalid :: int
  eventsSuppressed :: int
  m_rowsEnqueued :: int
  eventsDropped :: int
  batchesFlushed :: int
  m_rowsFlushed :: int
  flushFailures :: int
  flushNonRetry :: int
  cacheHits :: int
  cacheMisses :: int
  cacheErrors :: int

definition NewMetrics :: Metrics where
  "NewMetrics = \<lparr>eventsReceived = 0, eventsInvalid = 0, eventsSuppressed = 0, m_rowsEnqueued = 0, eventsDropped = 0,
     batchesFlushed = 0, m_rowsFlushed = 0, flushFailures = 0, flushNonRetry = 0, cacheHits = 0, cacheMisses = 0,
     cacheErrors = 0\<rparr>"

text \<open>\<^verbatim>\<open>atomic.Int64.Add\<close> wraps around.\<close>

abbreviation bump :: "int \<Rightarrow> int \<Rightarrow> int" where "bump n x \<equiv> i64 (x + n)"

definition ReceivedEvent :: "Metrics \<Rightarrow> Metrics" where "ReceivedEvent m = m\<lparr>eventsReceived := bump 1 (eventsReceived m)\<rparr>"
definition InvalidEvent :: "Metrics \<Rightarrow> Metrics" where "InvalidEvent m = m\<lparr>eventsInvalid := bump 1 (eventsInvalid m)\<rparr>"
definition SuppressedEvent :: "Metrics \<Rightarrow> Metrics" where "SuppressedEvent m = m\<lparr>eventsSuppressed := bump 1 (eventsSuppressed m)\<rparr>"

text \<open>The calls of the buffer's \<^verbatim>\<open>Observer\<close> and of the \<^verbatim>\<open>CacheObserver\<close>.\<close>

fun onBuffer :: "obsEvent \<Rightarrow> Metrics \<Rightarrow> Metrics" where
  "onBuffer Enqueued m = m\<lparr>m_rowsEnqueued := bump 1 (m_rowsEnqueued m)\<rparr>"
| "onBuffer (Dropped n) m = m\<lparr>eventsDropped := bump n (eventsDropped m)\<rparr>"
| "onBuffer (Flushed n) m = m\<lparr>batchesFlushed := bump 1 (batchesFlushed m), m_rowsFlushed := bump n (m_rowsFlushed m)\<rparr>"
| "onBuffer FlushFailed m = m\<lparr>flushFailures := bump 1 (flushFailures m)\<rparr>"
| "onBuffer FlushNonRetryable m = m\<lparr>flushNonRetry := bump 1 (flushNonRetry m)\<rparr>"

fun onCache :: "cacheObs \<Rightarrow> Metrics \<Rightarrow> Metrics" where
  "onCache CacheHit m = m\<lparr>cacheHits := bump 1 (cacheHits m)\<rparr>"
| "onCache CacheMiss m = m\<lparr>cacheMisses := bump 1 (cacheMisses m)\<rparr>"
| "onCache CacheError m = m\<lparr>cacheErrors := bump 1 (cacheErrors m)\<rparr>"

section \<open>The text served\<close>

definition metricPrefix :: string where "metricPrefix = ''trino_query_log_''"

type_synonym sample = "string \<times> string \<times> int"

definition counters :: "Metrics \<Rightarrow> sample list" where
  "counters m =
     [(''events_received_total'', ''Query completed events received on /ingest.'', eventsReceived m),
      (''events_invalid_total'', ''Events skipped because they failed validation.'', eventsInvalid m),
      (''events_suppressed_total'', ''Events dropped because their source matched this service.'', eventsSuppressed m),
      (''rows_enqueued_total'', ''Rows accepted into the in-memory buffer.'', m_rowsEnqueued m),
      (''events_dropped_total'', ''Rows dropped: buffer full or closing, or batch abandoned after flush failures.'',
       eventsDropped m),
      (''batches_flushed_total'', ''Batches successfully written to the store.'', batchesFlushed m),
      (''rows_flushed_total'', ''Rows successfully written to the store.'', m_rowsFlushed m),
      (''flush_failures_total'', ''Batches dropped after a flush failure (retries exhausted or non-retryable).'',
       flushFailures m),
      (''flush_non_retryable_total'', ''Batches dropped without retrying because the store reported a deterministic error (missing table, auth failure, schema mismatch).'',
       flushNonRetry m),
      (''cache_hits_total'', ''Read-through cache hits.'', cacheHits m),
      (''cache_misses_total'', ''Read-through cache misses.'', cacheMisses m),
      (''cache_errors_total'', ''Read-through cache backend or decode errors.'', cacheErrors m)]"

definition gauges :: "BufferStats \<Rightarrow> sample list" where
  "gauges s =
     [(''buffer_depth'', ''Rows currently queued in the in-memory buffer.'', Depth s),
      (''buffer_capacity'', ''Maximum rows the in-memory buffer can hold.'', Capacity s),
      (''last_flush_timestamp_seconds'', ''Unix time of the last successful flush.'', goDiv (LastFlushUnixMs s) 1000),
      (''last_flush_duration_ms'', ''Duration of the last successful flush in milliseconds.'', LastFlushDurationMs s)]"

fun emit :: "string \<Rightarrow> sample \<Rightarrow> string" where
  "emit kind (n, help, val) =
     ''# HELP '' @ metricPrefix @ n @ '' '' @ help @ [CHR 0x0A] @
     ''# TYPE '' @ metricPrefix @ n @ '' '' @ kind @ [CHR 0x0A] @
     metricPrefix @ n @ '' '' @ itoa val @ [CHR 0x0A]"

definition ServeMetrics :: "Metrics \<Rightarrow> BufferStats option \<Rightarrow> string" where
  "ServeMetrics m src =
     concat (map (emit ''counter'') (counters m)) @
     (case src of None \<Rightarrow> [] | Some s \<Rightarrow> concat (map (emit ''gauge'') (gauges s)))"

section \<open>Reading the text\<close>

definition readInt :: "string \<Rightarrow> int" where
  "readInt s = (case s of c # cs \<Rightarrow> if c = CHR ''-'' then - int (decVal cs) else int (decVal s) | [] \<Rightarrow> 0)"

text \<open>A line that is not a comment is a name and a value.\<close>

definition readLine :: "string \<Rightarrow> (string \<times> int) list" where
  "readLine l =
     (if l = [] \<or> hd l = CHR 0x23 then []
      else [(takeWhile (\<lambda>c. c \<noteq> CHR '' '') l, readInt (tl (dropWhile (\<lambda>c. c \<noteq> CHR '' '') l)))])"

definition scrape :: "string \<Rightarrow> (string \<times> int) list" where
  "scrape text = concat (map readLine (splitOn CHR 0x0A text))"

lemma scrape_line: "list_all (\<lambda>x. x \<noteq> CHR 0x0A) l \<Longrightarrow> scrape (l @ CHR 0x0A # rest) = readLine l @ scrape rest"
  by (simp add: scrape_def splitOn_line)

lemma readInt_itoa: "readInt (itoa n) = n"
proof (cases "n < 0")
  case False
  obtain c cs where c: "natDec (nat n) = c # cs" by (metis natDec_nonempty list.exhaust)
  then have "decVal (c # cs) = nat n" by (metis decVal_natDec)
  then show ?thesis using False c natDec_hd_not_sign [OF c] by (simp add: readInt_def itoa_def)
qed (simp add: readInt_def itoa_def)

definition plainSample :: "sample \<Rightarrow> bool" where
  "plainSample x = (list_all (\<lambda>c. c \<noteq> CHR '' '' \<and> c \<noteq> CHR 0x0A) (fst x) \<and> list_all (\<lambda>c. c \<noteq> CHR 0x0A) (fst (snd x)))"

lemma itoa_line: "list_all (\<lambda>x. x \<noteq> CHR 0x0A) (itoa v)"
  by (rule itoa_free) (simp_all add: isDigit_def)

lemma readLine_value:
  "list_all (\<lambda>c. c \<noteq> CHR '' '' \<and> c \<noteq> CHR 0x0A) n \<Longrightarrow> readLine (metricPrefix @ n @ CHR '' '' # itoa v) = [(metricPrefix @ n, v)]"
proof -
  assume n: "list_all (\<lambda>c. c \<noteq> CHR '' '' \<and> c \<noteq> CHR 0x0A) n"
  then have "takeWhile (\<lambda>c. c \<noteq> CHR '' '') (n @ CHR '' '' # itoa v) = n"
    "dropWhile (\<lambda>c. c \<noteq> CHR '' '') (n @ CHR '' '' # itoa v) = CHR '' '' # itoa v"
    by (auto simp: list_all_iff takeWhile_append2 dropWhile_append2)
  then show ?thesis by (simp add: readLine_def metricPrefix_def readInt_itoa)
qed

lemma scrape_emit:
  assumes "plainSample x" and "list_all (\<lambda>c. c \<noteq> CHR 0x0A) kind"
  shows "scrape (emit kind x @ rest) = (metricPrefix @ fst x, snd (snd x)) # scrape rest"
proof -
  obtain n h v where x: "x = (n, h, v)" by (metis surj_pair)
  have n: "list_all (\<lambda>c. c \<noteq> CHR 0x0A) n" using assms(1) by (auto simp: x plainSample_def list_all_iff)
  have p: "list_all (\<lambda>c. c \<noteq> CHR 0x0A) metricPrefix" by (simp add: metricPrefix_def)
  have e: "emit kind x @ rest =
      (''# HELP '' @ metricPrefix @ n @ '' '' @ h) @ CHR 0x0A # (''# TYPE '' @ metricPrefix @ n @ '' '' @ kind) @
      CHR 0x0A # (metricPrefix @ n @ CHR '' '' # itoa v) @ CHR 0x0A # rest" by (simp add: x)
  have l: "list_all (\<lambda>c. c \<noteq> CHR 0x0A) (''# HELP '' @ metricPrefix @ n @ '' '' @ h)"
    "list_all (\<lambda>c. c \<noteq> CHR 0x0A) (''# TYPE '' @ metricPrefix @ n @ '' '' @ kind)"
    "list_all (\<lambda>c. c \<noteq> CHR 0x0A) (metricPrefix @ n @ CHR '' '' # itoa v)"
    using assms n p itoa_line by (simp_all add: x plainSample_def)
  have c: "readLine (CHR 0x23 # t) = []" for t by (simp add: readLine_def)
  have "readLine (''# HELP '' @ metricPrefix @ n @ '' '' @ h) = []" "readLine (''# TYPE '' @ metricPrefix @ n @ '' '' @ kind) = []"
    by (simp_all add: c)
  then show ?thesis
    unfolding e scrape_line [OF l(1)] scrape_line [OF l(2)] scrape_line [OF l(3)]
    using assms(1) by (simp add: readLine_value x plainSample_def)
qed

lemma scrape_emits:
  "list_all plainSample xs \<Longrightarrow> list_all (\<lambda>c. c \<noteq> CHR 0x0A) kind \<Longrightarrow>
   scrape (concat (map (emit kind) xs) @ rest) = map (\<lambda>x. (metricPrefix @ fst x, snd (snd x))) xs @ scrape rest"
  by (induction xs) (simp_all add: scrape_emit)

lemma samples_plain: "list_all plainSample (counters m)" "list_all plainSample (gauges s)"
  by (simp_all add: counters_def gauges_def plainSample_def)

lemma scrape_Nil [simp]: "scrape [] = []"
  by (simp add: scrape_def readLine_def)

section \<open>Properties\<close>


text \<open>The counters after the observer calls of a buffer.\<close>

definition bufferMetrics :: "obsEvent list \<Rightarrow> Metrics" where
  "bufferMetrics tr = fold onBuffer tr NewMetrics"

lemma i64_bump: "i64 (i64 a + b) = i64 (a + b)" "i64 (b + i64 a) = i64 (b + a)"
  by (simp_all add: i64_def)

lemma bufferMetrics_snoc: "bufferMetrics (tr @ [e]) = onBuffer e (bufferMetrics tr)"
  by (simp add: bufferMetrics_def)

fun enqueuedBy :: "obsEvent \<Rightarrow> int" where
  "enqueuedBy Enqueued = 1" | "enqueuedBy _ = 0"

lemma bufferMetrics_counts:
  "m_rowsFlushed (bufferMetrics tr) = i64 (rowsFlushed tr) \<and> eventsDropped (bufferMetrics tr) = i64 (rowsDropped tr) \<and>
   m_rowsEnqueued (bufferMetrics tr) = i64 (sum_list (map enqueuedBy tr))"
proof (induction tr rule: rev_induct)
  case Nil
  then show ?case by (simp add: bufferMetrics_def NewMetrics_def i64_id)
next
  case (snoc e tr)
  then show ?case by (cases e) (simp_all add: bufferMetrics_snoc i64_bump)
qed

text \<open>
  The exported counters reconcile with the database: in every reachable state of the
  buffer over Trino that has been offered fewer than \<open>2^63\<close> rows, the rows offered are the
  sum of the flushed and dropped counters, the superseded rows and the rows in memory;
  the flushed counter is the number of rows the database acknowledged.
\<close>

theorem metrics_reconcile:
  assumes "steps (trinoEnv exec st baseErr cncl now) cfg (newBuffer (d, [])) s"
    and "int (length (offered s)) < 2 ^ 63"
  defines "m \<equiv> bufferMetrics (obs (buf s))"
  shows "int (length (offered s)) =
      m_rowsFlushed m + eventsDropped m + superseded s + int (length (batch s)) + int (length (chan s)) \<and>
    m_rowsFlushed m = int (length (acked (world (buf s))))"
proof -
  have a: "accounted acked (\<lambda>r. clamped st (clamped st r)) s"
    using trinoRun.reachable_accounted [OF _ assms(1)] by (simp add: acked_def)
  let ?f = "rowsFlushed (obs (buf s))" and ?d = "rowsDropped (obs (buf s))"
  have "0 \<le> ?f" "0 \<le> ?d" "?f < 2 ^ 63" "?d < 2 ^ 63" using a assms(2) by (auto simp: accounted_def)
  then have "i64 ?f = ?f" "i64 ?d = ?d" by (auto intro: i64_id)
  then show ?thesis using a bufferMetrics_counts [of "obs (buf s)"] by (simp add: accounted_def m_def)
qed

theorem metrics_reconcile_witness:
  "\<exists>st. let s = Add CaseSend zeroRow (newBuffer ((), [])) in
     steps (exampleEnv st) exampleCfg (newBuffer ((), [])) s \<and>
     int (length (offered s)) = m_rowsFlushed (bufferMetrics (obs (buf s))) + eventsDropped (bufferMetrics (obs (buf s))) +
       superseded s + int (length (batch s)) + int (length (chan s)) \<and> length (chan s) = 1"
proof -
  let ?s = "Add CaseSend zeroRow (newBuffer ((), []) :: unit handle Sys)"
  have c: "length (offered ?s) = 1" "length (chan ?s) = 1" by (simp_all add: newBuffer_def observe_def)
  have l: "int (length (offered ?s)) < 2 ^ 63" unfolding c by simp
  obtain st where "NewTrino (\<lambda>_. None) (\<lambda>_. None) (exampleTrino 0) = Inr st" using NewTrino_exists by blast
  from metrics_reconcile [OF example_add [of st] l] c(2) example_add [of st] show ?thesis unfolding Let_def by blast
qed

end
