(* ===== verification/ServerIngest.thy ===== *)
theory ServerIngest
  imports Metrics RowBuild
begin

text \<open>
  \<^verbatim>\<open>server/ingest.go\<close>: the handler that turns a request body into a row for the buffer.
  \<^verbatim>\<open>encoding/json\<close> is a parameter. Together with the running buffer it makes the whole write
  path, for which every event received is accounted for, up to the database.
\<close>

section \<open>The handler\<close>

definition maxIngestBytes :: nat where "maxIngestBytes = 32 * 1048576"

text \<open>A response: its status and the text \<^verbatim>\<open>http.Error\<close> writes, if any.\<close>

type_synonym reply = "int \<times> string"

definition httpError :: "string \<Rightarrow> int \<Rightarrow> reply" where
  "httpError msg code = (code, msg @ [CHR 0x0A])"

definition ingestRow :: "Config \<Rightarrow> Event \<Rightarrow> Row" where
  "ingestRow cfg e =
     TruncateFields
       (WithPreview
         (ApplyPlanPolicy (RowFromEvent e) \<lparr>Capture = PlanCapture cfg, MinWall = PlanCaptureMinWall cfg\<rparr>)
         (PreviewBytes cfg))
       (MaxFieldBytes cfg)"

text \<open>
  \<^verbatim>\<open>dec\<close> is the decoding of the first JSON value of a body into an event. \<^verbatim>\<open>MaxBytesReader\<close>
  lets it see the first \<open>maxIngestBytes\<close> bytes: a value that does not end there is an
  error. The buffer's \<^verbatim>\<open>Add\<close> takes the case \<open>c\<close> of its \<^verbatim>\<open>select\<close>.
\<close>

definition handleIngest :: "(string \<Rightarrow> Event option) \<Rightarrow> Config \<Rightarrow> addCase \<Rightarrow> Metrics \<Rightarrow> 's Sys \<Rightarrow> string \<Rightarrow>
    Metrics \<times> 's Sys \<times> reply" where
  "handleIngest dec cfg c m s body =
     (let m = ReceivedEvent m in
      case dec (take maxIngestBytes body) of
        None \<Rightarrow> (InvalidEvent m, s, httpError ''invalid JSON'' 400)
      | Some e \<Rightarrow>
          if Event.Validate e \<noteq> None then (InvalidEvent m, s, (202, ''''))
          else if SourceValue e = tr_Source (cfgTrino cfg) then (SuppressedEvent m, s, (202, ''''))
          else (m, Add c (ingestRow cfg e) s, (202, '''')))"

section \<open>The write path\<close>

text \<open>
  The service as it runs: requests arrive, and the buffer's flusher and shutdown take
  their own steps, in any order.
\<close>

inductive serveStep :: "(string \<Rightarrow> Event option) \<Rightarrow> Config \<Rightarrow> 's Env \<Rightarrow> BufferCfg \<Rightarrow> Metrics \<times> 's Sys \<Rightarrow> Metrics \<times> 's Sys \<Rightarrow> bool"
  for dec cfg env bcfg where
  request: "addReady bcfg s c \<Longrightarrow> handleIngest dec cfg c m s body = (m', s', resp) \<Longrightarrow>
     serveStep dec cfg env bcfg (m, s) (m', s')"
| background: "step env bcfg s s' \<Longrightarrow> offered s' = offered s \<Longrightarrow> serveStep dec cfg env bcfg (m, s) (m, s')"

inductive serves :: "(string \<Rightarrow> Event option) \<Rightarrow> Config \<Rightarrow> 's Env \<Rightarrow> BufferCfg \<Rightarrow> Metrics \<times> 's Sys \<Rightarrow> Metrics \<times> 's Sys \<Rightarrow> bool"
  for dec cfg env bcfg where
  serves_refl: "serves dec cfg env bcfg st st"
| serves_step: "serves dec cfg env bcfg st st1 \<Longrightarrow> serveStep dec cfg env bcfg st1 st2 \<Longrightarrow> serves dec cfg env bcfg st st2"

lemma handleIngest_cases [consumes 1, case_names malformed invalid suppressed accepted]:
  assumes "handleIngest dec cfg c m s body = (m', s', resp)"
    and "dec (take maxIngestBytes body) = None \<Longrightarrow> m' = InvalidEvent (ReceivedEvent m) \<Longrightarrow> s' = s \<Longrightarrow>
      resp = httpError ''invalid JSON'' 400 \<Longrightarrow> P"
    and "\<And>e. dec (take maxIngestBytes body) = Some e \<Longrightarrow> Event.Validate e \<noteq> None \<Longrightarrow>
      m' = InvalidEvent (ReceivedEvent m) \<Longrightarrow> s' = s \<Longrightarrow> resp = (202, '''') \<Longrightarrow> P"
    and "\<And>e. dec (take maxIngestBytes body) = Some e \<Longrightarrow> Event.Validate e = None \<Longrightarrow>
      SourceValue e = tr_Source (cfgTrino cfg) \<Longrightarrow> m' = SuppressedEvent (ReceivedEvent m) \<Longrightarrow> s' = s \<Longrightarrow> resp = (202, '''') \<Longrightarrow> P"
    and "\<And>e. dec (take maxIngestBytes body) = Some e \<Longrightarrow> Event.Validate e = None \<Longrightarrow>
      SourceValue e \<noteq> tr_Source (cfgTrino cfg) \<Longrightarrow> m' = ReceivedEvent m \<Longrightarrow> s' = Add c (ingestRow cfg e) s \<Longrightarrow>
      resp = (202, '''') \<Longrightarrow> P"
  shows P
  using assms unfolding handleIngest_def Let_def by (auto split: option.splits if_splits)

lemma serveStep_step:
  assumes "serveStep dec cfg env bcfg st st'"
  shows "steps env bcfg (snd st) (snd st')"
  using assms
proof cases
  case (request s c m body m' s' resp)
  from request(4) show ?thesis
    by (cases rule: handleIngest_cases) (use request in \<open>auto intro: steps_refl step_steps produce\<close>)
qed (auto intro: step_steps)

lemma serves_steps: "serves dec cfg env bcfg st st' \<Longrightarrow> steps env bcfg (snd st) (snd st')"
proof (induction rule: serves.induct)
  case (serves_step st st1 st2)
  then show ?case using serveStep_step steps_trans by blast
qed (rule steps_refl)

text \<open>
  Counted as received: counted as invalid or suppressed, or offered to the buffer, where
  every row offered comes from a valid event of another source.
\<close>

definition ingestCounts :: "Metrics \<Rightarrow> nat \<Rightarrow> int \<Rightarrow> int \<Rightarrow> bool" where
  "ingestCounts m n i u \<longleftrightarrow> 0 \<le> i \<and> 0 \<le> u \<and> eventsInvalid m = i64 i \<and> eventsSuppressed m = i64 u \<and>
     eventsReceived m = i64 (i + u + int n) \<and> m_rowsFlushed m = 0 \<and> eventsDropped m = 0"

definition othersEvents :: "Config \<Rightarrow> Event set" where
  "othersEvents cfg = {e. Event.Validate e = None \<and> SourceValue e \<noteq> tr_Source (cfgTrino cfg)}"

definition ingested :: "Config \<Rightarrow> Metrics \<times> 's Sys \<Rightarrow> bool" where
  "ingested cfg st \<longleftrightarrow>
     (\<exists>i u. ingestCounts (fst st) (length (offered (snd st))) i u) \<and>
     set (offered (snd st)) \<subseteq> ingestRow cfg ` othersEvents cfg"

lemma ingestCounts_step:
  assumes "ingestCounts m n i u"
  shows "ingestCounts (InvalidEvent (ReceivedEvent m)) n (i + 1) u" "ingestCounts (SuppressedEvent (ReceivedEvent m)) n i (u + 1)"
    "ingestCounts (ReceivedEvent m) (Suc n) i u"
  using assms by (simp_all add: ingestCounts_def InvalidEvent_def SuppressedEvent_def ReceivedEvent_def i64_bump ac_simps)

lemma ingested_step:
  assumes "serveStep dec cfg env bcfg st st'" and "ingested cfg st"
  shows "ingested cfg st'"
  using assms(1)
proof cases
  case (request s c m body m' s' resp)
  from assms(2) request obtain i u where iu: "ingestCounts m (length (offered s)) i u"
    and o: "set (offered s) \<subseteq> ingestRow cfg ` othersEvents cfg" by (auto simp: ingested_def)
  note n = ingestCounts_step [OF iu]
  from request(4) show ?thesis
  proof (cases rule: handleIngest_cases)
    case (accepted e)
    then have "ingestRow cfg e \<in> ingestRow cfg ` othersEvents cfg" by (auto simp: othersEvents_def)
    then show ?thesis using accepted request n(3) o by (auto simp: ingested_def buf_simps)
  qed (use request n(1,2) o in \<open>auto simp: ingested_def\<close>)
qed (use assms(2) in \<open>simp add: ingested_def\<close>)

lemma serves_ingested: "serves dec cfg env bcfg st st' \<Longrightarrow> ingested cfg st \<Longrightarrow> ingested cfg st'"
  by (induction rule: serves.induct) (auto intro: ingested_step)

section \<open>Over either backend\<close>

text \<open>A buffer that writes to one of the two stores.\<close>

definition storeEnv :: "'w handle Env \<Rightarrow> bool" where
  "storeEnv env \<longleftrightarrow> (\<exists>exec st b c n. env = trinoEnv exec st b c n) \<or> (\<exists>conn st b c n. env = clickhouseEnv conn st b c n)"

lemma storeEnv_accounted:
  assumes "storeEnv env" and "steps env bcfg (newBuffer (d, [])) s"
  shows "\<exists>stored. accounted acked stored s"
  using assms(1) unfolding storeEnv_def
proof (elim disjE exE)
  fix exec st b c n assume e: "env = trinoEnv exec st b c n"
  show ?thesis using trinoRun.reachable_accounted [OF _ assms(2) [unfolded e]] by (auto simp: acked_def)
next
  fix conn st b c n assume e: "env = clickhouseEnv conn st b c n"
  show ?thesis using clickhouseRun.reachable_accounted [OF _ assms(2) [unfolded e]] by (auto simp: acked_def)
qed

text \<open>The counters when the buffer's calls are added to those of the handler.\<close>

definition serviceMetrics :: "Metrics \<times> 's Sys \<Rightarrow> Metrics" where
  "serviceMetrics st = fold onBuffer (obs (buf (snd st))) (fst st)"

lemma fold_onBuffer_frame:
  "eventsReceived (fold onBuffer tr m) = eventsReceived m" "eventsInvalid (fold onBuffer tr m) = eventsInvalid m"
  "eventsSuppressed (fold onBuffer tr m) = eventsSuppressed m"
proof (induction tr arbitrary: m)
  case (Cons e tr)
  { case 1 then show ?case using Cons(1) by (cases e) simp_all }
  { case 2 then show ?case using Cons(2) by (cases e) simp_all }
  { case 3 then show ?case using Cons(3) by (cases e) simp_all }
qed simp_all

lemma fold_onBuffer_counts:
  "m_rowsFlushed m = 0 \<Longrightarrow> eventsDropped m = 0 \<Longrightarrow>
   m_rowsFlushed (fold onBuffer tr m) = i64 (rowsFlushed tr) \<and> eventsDropped (fold onBuffer tr m) = i64 (rowsDropped tr)"
proof (induction tr rule: rev_induct)
  case (snoc e tr)
  then show ?case by (cases e) (simp_all add: i64_bump)
qed (simp add: i64_id)

lemma initially_ingested: "ingested cfg (NewMetrics, newBuffer w)"
  by (auto simp: ingested_def ingestCounts_def NewMetrics_def newBuffer_def i64_id intro!: exI [of _ 0])

text \<open>The balance of the counters in every state the service reaches.\<close>

lemma service_counts:
  assumes "storeEnv env" and "serves dec cfg env bcfg (NewMetrics, newBuffer (d, [])) (m, s)"
  defines "t \<equiv> serviceMetrics (m, s)"
  shows "eventsReceived t = i64 (eventsInvalid t + eventsSuppressed t + m_rowsFlushed t + eventsDropped t +
      superseded s + int (length (batch s)) + int (length (chan s))) \<and>
    m_rowsFlushed t = i64 (int (length (acked (world (buf s)))))"
proof -
  let ?f = "rowsFlushed (obs (buf s))" and ?d = "rowsDropped (obs (buf s))"
  have "ingested cfg (m, s)" using assms(2) initially_ingested by (rule serves_ingested)
  then obtain i u where iu: "eventsInvalid m = i64 i" "eventsSuppressed m = i64 u"
    "eventsReceived m = i64 (i + u + int (length (offered s)))" "m_rowsFlushed m = 0" "eventsDropped m = 0"
    by (auto simp: ingested_def ingestCounts_def)
  have "steps env bcfg (newBuffer (d, [])) s" using serves_steps [OF assms(2)] by simp
  from storeEnv_accounted [OF assms(1) this]
  have a: "int (length (offered s)) = ?f + ?d + superseded s + int (length (batch s)) + int (length (chan s))"
    "int (length (acked (world (buf s)))) = ?f" by (auto simp: accounted_def)
  have t: "eventsReceived t = eventsReceived m" "eventsInvalid t = i64 i" "eventsSuppressed t = i64 u"
    "m_rowsFlushed t = i64 ?f" "eventsDropped t = i64 ?d"
    using fold_onBuffer_counts [OF iu(4,5), of "obs (buf s)"] iu
    by (simp_all add: t_def serviceMetrics_def fold_onBuffer_frame)
  show ?thesis unfolding t iu(3) a by (simp add: i64_def algebra_simps)
qed

text \<open>
  C1. No event is lost without trace on the whole write path: in every state the service can
  reach, over either backend and whatever the database does, the events received are
  those counted as invalid, suppressed, flushed and dropped, the rows a newer row of
  the same query replaced, and the rows still in memory; the flushed counter is the
  number of rows the database acknowledged. The counters are compared modulo the
  wrap-around of a 64-bit counter.
\<close>

theorem pipeline_conserves_events:
  assumes "storeEnv env" and "serves dec cfg env bcfg (NewMetrics, newBuffer (d, [])) (m, s)"
  defines "t \<equiv> serviceMetrics (m, s)"
  shows "eventsReceived t = i64 (eventsInvalid t + eventsSuppressed t + m_rowsFlushed t + eventsDropped t +
      superseded s + int (length (batch s)) + int (length (chan s))) \<and>
    m_rowsFlushed t = i64 (int (length (acked (world (buf s)))))"
  unfolding t_def by (rule service_counts [OF assms(1,2)])

text \<open>An event and a decoder for the examples: every body is this event.\<close>

definition exampleEvent :: Event where
  "exampleEvent =
     \<lparr>ev_Metadata = \<lparr>md_QueryID = ''20240229_120000_00001_abcde'', md_TransactionID = None, md_Query = ''SELECT 1'',
        md_UpdateType = None, md_PreparedQuery = None, md_QueryState = ''FINISHED'', md_URI = '''', md_Plan = None,
        md_JSONPlan = None\<rparr>,
      ev_Statistics = \<lparr>st_CPUTime = 0, st_WallTime = 0, st_QueuedTime = 0, st_AnalysisTime = 0, st_PlanningTime = 0,
        st_ExecutionTime = 0, st_PeakUserMemoryBytes = 0, st_PeakTaskTotalMemory = 0, st_PhysicalInputBytes = 0,
        st_PhysicalInputRows = 0, st_ProcessedInputBytes = 0, st_ProcessedInputRows = 0, st_OutputBytes = 0,
        st_OutputRows = 0, st_WrittenBytes = 0, st_WrittenRows = 0, st_CompletedSplits = 0\<rparr>,
      ev_Context = \<lparr>cx_User = ''ann'', cx_Principal = None, cx_Source = Some ''cli'', cx_Catalog = None, cx_Schema = None,
        cx_ClientTags = [], cx_ResourceGroupID = [], cx_QueryType = None, cx_ServerVersion = '''', cx_Environment = ''''\<rparr>,
      ev_IOMetadata = \<lparr>io_Inputs = []\<rparr>, ev_FailureInfo = None, ev_CreateTime = Some 0,
      ev_ExecutionStartTime = None, ev_EndTime = None\<rparr>"

lemma exampleEvent_valid: "Event.Validate exampleEvent = None" "SourceValue exampleEvent = ''cli''"
  by (simp_all add: exampleEvent_def Validate_def SourceValue_def)

lemma default_source: "tr_Source (cfgTrino (loadConfig (\<lambda>_. None))) \<noteq> ''cli''"
  by (simp add: loadConfig_def str_def)

lemma exampleServes:
  assumes "tr_Source (cfgTrino cfg) \<noteq> ''cli''"
  shows "serves (\<lambda>b. Some exampleEvent) cfg env exampleCfg (NewMetrics, newBuffer w)
    (ReceivedEvent NewMetrics, Add CaseSend (ingestRow cfg exampleEvent) (newBuffer w))"
proof -
  have "handleIngest (\<lambda>b. Some exampleEvent) cfg CaseSend NewMetrics (newBuffer w) '''' =
      (ReceivedEvent NewMetrics, Add CaseSend (ingestRow cfg exampleEvent) (newBuffer w), (202, ''''))"
    using assms by (simp add: handleIngest_def exampleEvent_valid)
  then show ?thesis
    by (intro serves_step [OF serves_refl] request [rotated])
      (auto simp: hasRoom_def newBuffer_def exampleCfg_def)
qed

theorem pipeline_conserves_events_witness:
  "\<exists>env :: unit handle Env. \<exists>cfg s. storeEnv env \<and>
     serves (\<lambda>b. Some exampleEvent) cfg env exampleCfg (NewMetrics, newBuffer ((), [])) (ReceivedEvent NewMetrics, s) \<and>
     eventsReceived (serviceMetrics (ReceivedEvent NewMetrics, s)) = 1 \<and> length (chan s) = 1 \<and>
     m_rowsFlushed (serviceMetrics (ReceivedEvent NewMetrics, s)) = i64 (int (length (acked (world (buf s)))))"
proof -
  obtain st where "NewTrino (\<lambda>_. None) (\<lambda>_. None) (exampleTrino 0) = Inr st" using NewTrino_exists by blast
  let ?cfg = "loadConfig (\<lambda>_. None)"
  note src = default_source
  let ?s = "Add CaseSend (ingestRow ?cfg exampleEvent) (newBuffer ((), []) :: unit handle Sys)"
  have e: "storeEnv (exampleEnv st)" unfolding storeEnv_def by blast
  note run = exampleServes [OF src, of "exampleEnv st" "((), [])"]
  from pipeline_conserves_events [OF e run] run e show ?thesis
    by (intro exI [of _ "exampleEnv st"] exI [of _ ?cfg] exI [of _ ?s])
      (auto simp: serviceMetrics_def fold_onBuffer_frame ReceivedEvent_def NewMetrics_def newBuffer_def observe_def i64_id)
qed


text \<open>A server that accepts every batch, and a state where a row has been stored: one event, taken and flushed.\<close>

definition upConn :: "unit chConn" where
  "upConn = \<lparr>chExec = \<lambda>w q. (w, None), chQuery = \<lambda>w q p. (w, Inr ([], None)),
     prepareBatch = \<lambda>w q t. (w, None), batchAppend = \<lambda>w as. (w, None), batchAbort = \<lambda>w. w,
     batchSend = \<lambda>w. (w, None)\<rparr>"

abbreviation upEnv :: "ClickHouseStore \<Rightarrow> unit handle Env" where
  "upEnv st \<equiv> clickhouseEnv upConn st (\<lambda>w. False) (\<lambda>w. w) (\<lambda>w. 0)"

lemma upConn_insert: "chInsertBatch upConn st ((), []) [r] = (((), [r]), None)"
  by (simp add: chInsertBatch_def chSplitBatch_def chunkRows_def chInsertChunk_def upConn_def)

lemma upEnv_flush:
  assumes "world b = ((), [])"
  shows "acked (world (flush (upEnv st) exampleCfg b [r])) = [r]"
proof -
  have d: "dedupe [r] = [r]" by (simp add: dedupe_def)
  have s: "splitRows (upEnv st) [r] = [[r]]"
    by (simp add: splitRows_def clickhouseEnv_def chSplitBatch_def chunkRows_def)
  have n: "nat (MaxRetries exampleCfg + 1) = Suc 3" by (simp add: exampleCfg_def)
  have a: "insertRows (upEnv st) ((), []) [r] = (((), [r]), 1, None)"
    unfolding insertRows_def s by (simp add: clickhouseEnv_def upConn_insert)
  show ?thesis unfolding flush_def d n flushLoop.simps(2) attempt_def assms a
    by (simp add: Let_def acked_def)
qed


end
