(* ===== verification/Readiness.thy ===== *)
theory Readiness
  imports Config StoreErrors
begin

text \<open>
  Readiness of \<^verbatim>\<open>server/server.go\<close>: the background checker \<^verbatim>\<open>RunReadiness\<close>, the flag it keeps,
  \<^verbatim>\<open>MarkNotReady\<close> of the shutdown, and the probes \<^verbatim>\<open>/readyz\<close> and \<^verbatim>\<open>/healthz\<close>. The store's two
  validations are parameters. Checker and shutdown run concurrently on the atomic
  flag, so the check is split where another goroutine can run in between.
\<close>

section \<open>State and operations\<close>

text \<open>
  Where the checker is: about to validate, holding a result, at the head of its loop,
  waiting for its timer, or returned.
\<close>

datatype checker = Validating | Holding "err option" | AtLoop | Waiting duration | Returned

record 'w Readiness =
  rworld :: 'w
  ready :: bool
  checkerAt :: checker
  ctxDone :: bool
  marked :: bool
  lastCheck :: "err option option"

text \<open>\<^verbatim>\<open>marked\<close> and \<^verbatim>\<open>lastCheck\<close> are history: whether \<^verbatim>\<open>MarkNotReady\<close> was called, the last result stored.\<close>

definition startReadiness :: "'w \<Rightarrow> 'w Readiness" where
  "startReadiness w = \<lparr>rworld = w, ready = False, checkerAt = Validating, ctxDone = False, marked = False, lastCheck = None\<rparr>"

definition chooseValidate :: "ReadinessCfg \<Rightarrow> ('w \<Rightarrow> 'w \<times> err option) \<Rightarrow> ('w \<Rightarrow> 'w \<times> err option) \<Rightarrow> 'w \<Rightarrow> 'w \<times> err option" where
  "chooseValidate cfg val valTable = (if rd_Mode cfg = ''table'' then valTable else val)"

definition runValidate :: "('w \<Rightarrow> 'w \<times> err option) \<Rightarrow> 'w Readiness \<Rightarrow> 'w Readiness" where
  "runValidate v s = (case v (rworld s) of (w, e) \<Rightarrow> s\<lparr>rworld := w, checkerAt := Holding e\<rparr>)"

text \<open>The rest of \<^verbatim>\<open>check\<close>: the flag is swapped to the result.\<close>

definition storeResult :: "err option \<Rightarrow> 'w Readiness \<Rightarrow> 'w Readiness" where
  "storeResult e s = s\<lparr>ready := (e = None), lastCheck := Some e, checkerAt := AtLoop\<rparr>"

text \<open>The head of the loop: the time to the next check depends on the flag read there.\<close>

definition armTimer :: "ReadinessCfg \<Rightarrow> 'w Readiness \<Rightarrow> 'w Readiness" where
  "armTimer cfg s = s\<lparr>checkerAt := Waiting (if ready s then rd_Interval cfg else rd_FailInterval cfg)\<rparr>"

definition MarkNotReady :: "'w Readiness \<Rightarrow> 'w Readiness" where
  "MarkNotReady s = s\<lparr>ready := False, marked := True\<rparr>"

definition handleHealthz :: "int \<times> string" where "handleHealthz = (200, ''ok'')"

definition handleReadyz :: "'w Readiness \<Rightarrow> int \<times> string" where
  "handleReadyz s = (if ready s then (200, ''ok'') else (503, ''not ready: store unreachable''))"

section \<open>Steps\<close>

inductive readyStep :: "ReadinessCfg \<Rightarrow> ('w \<Rightarrow> 'w \<times> err option) \<Rightarrow> 'w Readiness \<Rightarrow> 'w Readiness \<Rightarrow> bool" for cfg v where
  validate: "checkerAt s = Validating \<Longrightarrow> readyStep cfg v s (runValidate v s)"
| store: "checkerAt s = Holding e \<Longrightarrow> readyStep cfg v s (storeResult e s)"
| arm: "checkerAt s = AtLoop \<Longrightarrow> readyStep cfg v s (armTimer cfg s)"
| timer: "checkerAt s = Waiting d \<Longrightarrow> readyStep cfg v s (s\<lparr>checkerAt := Validating\<rparr>)"
| leave: "checkerAt s = Waiting d \<Longrightarrow> ctxDone s \<Longrightarrow> readyStep cfg v s (s\<lparr>checkerAt := Returned\<rparr>)"
| cancel: "readyStep cfg v s (s\<lparr>ctxDone := True\<rparr>)"
| mark: "readyStep cfg v s (MarkNotReady s)"

abbreviation readySteps :: "ReadinessCfg \<Rightarrow> ('w \<Rightarrow> 'w \<times> err option) \<Rightarrow> 'w Readiness \<Rightarrow> 'w Readiness \<Rightarrow> bool" where
  "readySteps cfg v \<equiv> (readyStep cfg v)\<^sup>*\<^sup>*"

inductive_cases readyStep_elim: "readyStep cfg v s t"

lemmas ready_defs = runValidate_def storeResult_def armTimer_def MarkNotReady_def

text \<open>
  The flag is up only after a successful check; until the shutdown it is exactly the last
  stored result, and an armed timer was set from it.
\<close>

definition readyInv :: "ReadinessCfg \<Rightarrow> 'w Readiness \<Rightarrow> bool" where
  "readyInv cfg s \<longleftrightarrow>
     (ready s \<longrightarrow> lastCheck s = Some None) \<and>
     (\<not> marked s \<longrightarrow> (lastCheck s = Some None \<longrightarrow> ready s) \<and>
        (\<forall>d. checkerAt s = Waiting d \<longrightarrow> d = (if ready s then rd_Interval cfg else rd_FailInterval cfg)))"

lemma readyInv_step: "readyStep cfg v s t \<Longrightarrow> readyInv cfg s \<Longrightarrow> readyInv cfg t"
  by (erule readyStep_elim) (auto simp: readyInv_def ready_defs split: prod.splits)

lemma readySteps_inv: "readySteps cfg v s t \<Longrightarrow> readyInv cfg s \<Longrightarrow> readyInv cfg t"
  by (induction rule: rtranclp_induct) (auto intro: readyInv_step)

lemma returned_stays_down:
  assumes "readySteps cfg v s t" and "checkerAt s = Returned" and "\<not> ready s"
  shows "checkerAt t = Returned \<and> \<not> ready t"
  using assms by (induction rule: rtranclp_induct) (auto elim!: readyStep_elim simp: ready_defs)

section \<open>Properties\<close>

text \<open>
  C25. Readiness tells the truth: in every interleaving, until the shutdown marks the service
  not ready, \<^verbatim>\<open>/readyz\<close> answers 200 exactly when the last finished check succeeded, and
  503 otherwise; the next check then follows after \<^verbatim>\<open>Interval\<close>, or \<^verbatim>\<open>FailInterval\<close> after a
  failure. A service marked after its checker returned answers 503 for good.
\<close>

theorem readyz_reflects_last_check:
  assumes "readySteps cfg v (startReadiness w) s"
  shows "(\<not> marked s \<longrightarrow>
      fst (handleReadyz s) = (if lastCheck s = Some None then 200 else 503) \<and>
      (\<forall>d. checkerAt s = Waiting d \<longrightarrow> d = (if lastCheck s = Some None then rd_Interval cfg else rd_FailInterval cfg))) \<and>
    (checkerAt s = Returned \<and> readySteps cfg v (MarkNotReady s) t \<longrightarrow> fst (handleReadyz t) = 503)"
proof -
  have "readyInv cfg s"
    using readySteps_inv [OF assms] by (simp add: readyInv_def startReadiness_def)
  moreover have "fst (handleReadyz t) = 503" if "checkerAt s = Returned" "readySteps cfg v (MarkNotReady s) t"
    using returned_stays_down [OF that(2)] that(1) by (simp add: MarkNotReady_def handleReadyz_def)
  ultimately show ?thesis by (auto simp: readyInv_def handleReadyz_def)
qed

definition exampleReadiness :: ReadinessCfg where
  "exampleReadiness = \<lparr>rd_Mode = ''connection'', rd_Interval = 30 * second, rd_FailInterval = 5 * second, rd_Timeout = second\<rparr>"

text \<open>The states of a first successful check.\<close>

lemma check_runs:
  assumes "v w = (w, None)"
  shows "readyStep cfg v (startReadiness w) ((startReadiness w)\<lparr>checkerAt := Holding None\<rparr>)"
    "readyStep cfg v ((startReadiness w)\<lparr>checkerAt := Holding None\<rparr>)
       ((startReadiness w)\<lparr>ready := True, lastCheck := Some None, checkerAt := AtLoop\<rparr>)"
  using readyStep.validate [of "startReadiness w" cfg v]
    readyStep.store [of "(startReadiness w)\<lparr>checkerAt := Holding None\<rparr>" None cfg v] assms
  by (simp_all add: startReadiness_def runValidate_def storeResult_def)

theorem readyz_reflects_last_check_witness:
  "\<exists>s. readySteps exampleReadiness (\<lambda>w. (w, None)) (startReadiness ()) s \<and> \<not> marked s \<and> fst (handleReadyz s) = 200"
proof -
  let ?s = "(startReadiness ())\<lparr>ready := True, lastCheck := Some None, checkerAt := AtLoop\<rparr>"
  have "readySteps exampleReadiness (\<lambda>w. (w, None)) (startReadiness ()) ?s"
    using check_runs [of "\<lambda>w. (w, None)" "()" exampleReadiness] by (meson converse_rtranclp_into_rtranclp r_into_rtranclp)
  moreover from this have "fst (handleReadyz ?s) = 200"
    using readyz_reflects_last_check by (fastforce simp: startReadiness_def)
  ultimately show ?thesis by (intro exI [of _ ?s]) (simp add: startReadiness_def)
qed

text \<open>
  C26. The shutdown can be undone by a check in flight: when a validation that succeeded is
  still held by the checker while \<^verbatim>\<open>MarkNotReady\<close> runs, storing it raises the flag again, and
  \<^verbatim>\<open>/readyz\<close> answers 200 although the service is shutting down.
\<close>

theorem ready_again_after_mark:
  assumes "v w = (w, None)"
  shows "\<exists>s. readySteps cfg v (startReadiness w) s \<and> marked s \<and> ctxDone s \<and> fst (handleReadyz s) = 200"
proof -
  let ?h = "(startReadiness w)\<lparr>checkerAt := Holding None\<rparr>"
  let ?m = "MarkNotReady (?h\<lparr>ctxDone := True\<rparr>)"
  have "readySteps cfg v (startReadiness w) ?h" by (rule r_into_rtranclp, rule check_runs(1), rule assms)
  also have "readySteps cfg v ?h (?h\<lparr>ctxDone := True\<rparr>)" by (intro r_into_rtranclp readyStep.cancel)
  also have "readySteps cfg v (?h\<lparr>ctxDone := True\<rparr>) ?m" by (intro r_into_rtranclp readyStep.mark)
  also have "readySteps cfg v ?m (storeResult None ?m)"
    by (intro r_into_rtranclp readyStep.store) (simp add: MarkNotReady_def)
  finally have "readySteps cfg v (startReadiness w) (storeResult None ?m)" .
  then show ?thesis by (intro exI [of _ "storeResult None ?m"]) (simp add: ready_defs handleReadyz_def)
qed

theorem ready_again_after_mark_witness:
  "\<exists>s. readySteps exampleReadiness (\<lambda>w. (w, None)) (startReadiness ()) s \<and> marked s \<and> ctxDone s \<and> fst (handleReadyz s) = 200"
  by (rule ready_again_after_mark) simp

end
