(* ===== verification/HttpServer.thy ===== *)
theory HttpServer
  imports QueryCli ServerIngest Readiness
begin

text \<open>
  \<^verbatim>\<open>Server.Handler\<close> of \<^verbatim>\<open>server/server.go\<close>: the route table the roles of a process enable, the
  matching of \<^verbatim>\<open>http.ServeMux\<close>, the wrappers around it and the handlers of the other
  theories behind it. With the client of \<^verbatim>\<open>querycli\<close> at the other end of the connection this
  is the read path from a command line to a store. Template execution, the embedded files,
  and JSON are parameters.
\<close>

section \<open>Routes\<close>

record Options =
  Ingest :: bool
  UI :: bool

datatype handlerId = Healthz | Readyz | IngestH | Dashboard | QueriesPartial | QueryDetail string
  | APIList | APIGet string | Static | MetricsH

text \<open>
  The segments of a pattern: a literal, a wildcard for one segment, \<^verbatim>\<open>{$}\<close> for the end after
  a slash, and the trailing slash that matches every path below it.
\<close>

datatype patSeg = Lit string | Wild | EndSlash | Below

type_synonym route = "string \<times> patSeg list \<times> (string list \<Rightarrow> handlerId)"

definition routes :: "Options \<Rightarrow> bool \<Rightarrow> route list" where
  "routes opts metricsEnabled =
     [(''GET'', [Lit ''healthz''], \<lambda>_. Healthz), (''GET'', [Lit ''readyz''], \<lambda>_. Readyz)] @
     (if Ingest opts then [(''POST'', [Lit ''ingest''], \<lambda>_. IngestH)] else []) @
     (if UI opts
      then [(''GET'', [EndSlash], \<lambda>_. Dashboard),
            (''GET'', [Lit ''partials'', Lit ''queries''], \<lambda>_. QueriesPartial),
            (''GET'', [Lit ''query'', Wild], \<lambda>m. QueryDetail (hd m)),
            (''GET'', [Lit ''api'', Lit ''v1'', Lit ''queries''], \<lambda>_. APIList),
            (''GET'', [Lit ''api'', Lit ''v1'', Lit ''queries'', Wild], \<lambda>m. APIGet (hd m)),
            (''GET'', [Lit ''static'', Below], \<lambda>_. Static)]
      else []) @
     (if metricsEnabled then [(''GET'', [Lit ''metrics''], \<lambda>_. MetricsH)] else [])"

section \<open>Matching a request\<close>

text \<open>\<^verbatim>\<open>path.Clean\<close> of a rooted path, segment by segment, and the trailing slash put back.\<close>

fun cleanSegs :: "string list \<Rightarrow> string list \<Rightarrow> string list" where
  "cleanSegs st [] = rev st"
| "cleanSegs st (s # ss) =
     cleanSegs (if s = '''' \<or> s = ''.'' then st else if s = ''..'' then drop 1 st else s # st) ss"

definition cleanPath :: "string \<Rightarrow> string" where
  "cleanPath p =
     (let p = (if p = '''' \<or> hd p \<noteq> CHR 0x2F then CHR 0x2F # p else p);
          np = CHR 0x2F # joinS (cleanSegs [] (splitOn CHR 0x2F (tl p))) [CHR 0x2F]
      in if last p = CHR 0x2F \<and> np \<noteq> [CHR 0x2F] then np @ [CHR 0x2F] else np)"

text \<open>
  The names the multiplexer compares: unescaped segments (as they are when they do not
  unescape), and a slash for the empty segment at the end of a path.
\<close>

definition segName :: "string \<Rightarrow> string" where
  "segName s = (if s = '''' then [CHR 0x2F] else (case PathUnescape s of Some t \<Rightarrow> t | None \<Rightarrow> s))"

definition segNames :: "string \<Rightarrow> string list" where
  "segNames path = map segName (splitOn CHR 0x2F (drop 1 path))"

fun matchSegs :: "patSeg list \<Rightarrow> string list \<Rightarrow> string list option" where
  "matchSegs [] [] = Some []"
| "matchSegs (Lit l # ps) (s # ss) = (if s = l then matchSegs ps ss else None)"
| "matchSegs (Wild # ps) (s # ss) = (if s \<noteq> [CHR 0x2F] then map_option ((#) s) (matchSegs ps ss) else None)"
| "matchSegs (EndSlash # ps) (s # ss) = (if s = [CHR 0x2F] then matchSegs ps ss else None)"
| "matchSegs (Below # ps) (s # ss) = Some []"
| "matchSegs _ _ = None"

definition methodFits :: "string \<Rightarrow> string \<Rightarrow> bool" where
  "methodFits pm m = (pm = m \<or> pm = ''GET'' \<and> m = ''HEAD'')"

fun findRoute :: "route list \<Rightarrow> (string \<Rightarrow> bool) \<Rightarrow> string \<Rightarrow> (patSeg list \<times> handlerId) option" where
  "findRoute [] ok path = None"
| "findRoute ((m, pat, h) # rs) ok path =
     (case (if ok m then matchSegs pat (segNames path) else None) of
        Some ms \<Rightarrow> Some (pat, h ms)
      | None \<Rightarrow> findRoute rs ok path)"

definition exactMatch :: "(patSeg list \<times> handlerId) option \<Rightarrow> string \<Rightarrow> bool" where
  "exactMatch n path =
     (case n of
        None \<Rightarrow> False
      | Some (pat, h) \<Rightarrow>
          last pat \<noteq> Below \<or> (last path = CHR 0x2F \<and> length pat = length (filter (\<lambda>c. c = CHR 0x2F) path)))"

datatype routed = ToHandler handlerId | ToRedirect string | ToMethodNotAllowed | ToNotFound

text \<open>\<^verbatim>\<open>ServeMux.findHandler\<close> on an escaped path.\<close>

definition findHandler :: "route list \<Rightarrow> string \<Rightarrow> string \<Rightarrow> routed" where
  "findHandler rs m escapedPath =
     (let path = (if m = ''CONNECT'' then escapedPath else cleanPath escapedPath);
          ok = (\<lambda>pm. methodFits pm m);
          n = findRoute rs ok path;
          slashed = path @ [CHR 0x2F]
      in if \<not> exactMatch n path \<and> last path \<noteq> CHR 0x2F \<and> exactMatch (findRoute rs ok slashed) slashed then ToRedirect slashed
         else if path \<noteq> escapedPath then ToRedirect path
         else case n of
                Some (pat, h) \<Rightarrow> ToHandler h
              | None \<Rightarrow>
                  if findRoute rs (\<lambda>_. True) path \<noteq> None \<or>
                     last path \<noteq> CHR 0x2F \<and> findRoute rs (\<lambda>_. True) slashed \<noteq> None
                  then ToMethodNotAllowed else ToNotFound)"

section \<open>The handler of a process\<close>

record request =
  rq_method :: string
  rq_path :: string      \<comment> \<open>the escaped path\<close>
  rq_query :: string     \<comment> \<open>the raw query\<close>
  rq_body :: string

text \<open>What the process has besides its state: the library code and the store it reads.\<close>

record 'w webEnv =
  we_templateOk :: "payload \<Rightarrow> bool"
  we_decInputs :: "string \<Rightarrow> InputMetadata list"
  we_decEvent :: "string \<Rightarrow> Event option"
  we_serveFile :: "string \<Rightarrow> response"
  we_redirectCode :: int
  we_reader :: "'w readStore"
  we_cacheObs :: "'w \<Rightarrow> cacheObs list"   \<comment> \<open>what the cache in front of the store has counted\<close>

text \<open>Its state: the write path, readiness, and the world the store reads from.\<close>

record ('w, 's) webState =
  ws_metrics :: Metrics
  ws_sys :: "'s Sys"
  ws_ready :: "'w Readiness"
  ws_world :: 'w

definition securityHeaders :: headers where
  "securityHeaders = fold (\<lambda>(k, v). hSet k v)
     [(''Content-Security-Policy'', ''default-src '' @ [CHR 0x27] @ ''self'' @ [CHR 0x27] @ ''; frame-ancestors '' @ [CHR 0x27] @
         ''none'' @ [CHR 0x27] @ ''; base-uri '' @ [CHR 0x27] @ ''self'' @ [CHR 0x27]),
      (''X-Content-Type-Options'', ''nosniff''), (''X-Frame-Options'', ''DENY''), (''Referrer-Policy'', ''same-origin'')] []"

definition notFound :: response where "notFound = plainError ''404 page not found'' 404"

definition noDirListing :: "(string \<Rightarrow> response) \<Rightarrow> string \<Rightarrow> response" where
  "noDirListing next path = (if path \<noteq> '''' \<and> last path = CHR 0x2F then notFound else next path)"

definition urlPath :: "request \<Rightarrow> string" where
  "urlPath r = (case PathUnescape (rq_path r) of Some p \<Rightarrow> p | None \<Rightarrow> rq_path r)"

definition textReply :: "int \<times> string \<Rightarrow> response" where "textReply x = (fst x, PlainText (snd x))"

text \<open>What \<^verbatim>\<open>SetBufferSource\<close> installs when the process ingests.\<close>

definition bufferSource :: "Options \<Rightarrow> BufferCfg \<Rightarrow> 's Sys \<Rightarrow> BufferStats option" where
  "bufferSource opts bcfg s =
     (if Ingest opts then (case Stats bcfg s of (depth, capacity, lastMs, durMs) \<Rightarrow>
        Some \<lparr>Depth = depth, Capacity = capacity, LastFlushUnixMs = lastMs, LastFlushDurationMs = durMs\<rparr>) else None)"

definition runHandler :: "'w webEnv \<Rightarrow> Config \<Rightarrow> Options \<Rightarrow> BufferCfg \<Rightarrow> addCase \<Rightarrow> time \<Rightarrow> handlerId \<Rightarrow> request \<Rightarrow>
    ('w, 's) webState \<Rightarrow> ('w, 's) webState \<times> response" where
  "runHandler ev cfg opts bcfg c now h r s =
     (let q = ParseQuery (rq_query r);
          reads = (\<lambda>(w, resp). (s\<lparr>ws_world := w\<rparr>, resp))
      in case h of
           Healthz \<Rightarrow> (s, textReply handleHealthz)
         | Readyz \<Rightarrow> (s, textReply (handleReadyz (ws_ready s)))
         | IngestH \<Rightarrow>
             (case handleIngest (we_decEvent ev) cfg c (ws_metrics s) (ws_sys s) (rq_body r) of (m, b, resp) \<Rightarrow>
                (s\<lparr>ws_metrics := m, ws_sys := b\<rparr>, textReply resp))
         | Dashboard \<Rightarrow> reads (handleDashboard (we_templateOk ev) (we_reader ev) now (ws_world s) q)
         | QueriesPartial \<Rightarrow> reads (handleQueriesPartial (we_templateOk ev) (we_reader ev) now (ws_world s) q)
         | QueryDetail qid \<Rightarrow> reads (handleQueryDetail (we_templateOk ev) (we_decInputs ev) (we_reader ev) (ws_world s) qid)
         | APIList \<Rightarrow> reads (handleAPIListQueries (we_reader ev) now (ws_world s) q)
         | APIGet qid \<Rightarrow> reads (handleAPIGetQuery (we_decInputs ev) (we_reader ev) (ws_world s) qid)
         | Static \<Rightarrow> (s, noDirListing (we_serveFile ev) (urlPath r))
         | MetricsH \<Rightarrow> 
             (s, (200, PlainText (ServeMetrics
                (fold onCache (we_cacheObs ev (ws_world s)) (serviceMetrics (ws_metrics s, ws_sys s)))
                (bufferSource opts bcfg (ws_sys s))))))"

definition serveHTTP :: "'w webEnv \<Rightarrow> Config \<Rightarrow> Options \<Rightarrow> BufferCfg \<Rightarrow> addCase \<Rightarrow> time \<Rightarrow> request \<Rightarrow>
    ('w, 's) webState \<Rightarrow> ('w, 's) webState \<times> headers \<times> response" where
  "serveHTTP ev cfg opts bcfg c now r s =
     (case (case findHandler (routes opts (MetricsEnabled cfg)) (rq_method r) (rq_path r) of
              ToHandler h \<Rightarrow> runHandler ev cfg opts bcfg c now h r s
            | ToRedirect p \<Rightarrow> (s, (we_redirectCode ev, PlainText p))
            | ToMethodNotAllowed \<Rightarrow> (s, plainError ''Method Not Allowed'' 405)
            | ToNotFound \<Rightarrow> (s, notFound)) of
        (s, resp) \<Rightarrow> (s, securityHeaders, resp))"

section \<open>Roles\<close>

lemma findRoute_in:
  "findRoute rs ok path = Some (pat, h) \<Longrightarrow> \<exists>m mk ms. (m, pat, mk) \<in> set rs \<and> ok m \<and> h = mk ms"
  by (induction rs ok path rule: findRoute.induct) (auto split: option.splits if_splits)

lemma findHandler_in:
  assumes "findHandler rs m p = ToHandler h"
  shows "\<exists>pm pat mk ms. (pm, pat, mk) \<in> set rs \<and> methodFits pm m \<and> h = mk ms"
  using assms findRoute_in [of rs "\<lambda>pm. methodFits pm m"]
  by (auto simp: findHandler_def Let_def split: if_splits option.splits prod.splits) metis+

definition readsStore :: "handlerId \<Rightarrow> bool" where
  "readsStore h = (case h of Dashboard \<Rightarrow> True | QueriesPartial \<Rightarrow> True | QueryDetail _ \<Rightarrow> True | APIList \<Rightarrow> True
     | APIGet _ \<Rightarrow> True | _ \<Rightarrow> False)"

lemma route_roles:
  assumes "(pm, pat, mk) \<in> set (routes opts me)"
  shows "mk ms = IngestH \<Longrightarrow> Ingest opts \<and> pm = ''POST''" "readsStore (mk ms) \<Longrightarrow> UI opts \<and> pm = ''GET''"
  using assms by (auto simp: routes_def readsStore_def split: if_splits)

lemma runHandler_frame:
  "h \<noteq> IngestH \<Longrightarrow> ws_metrics (fst (runHandler ev cfg opts bcfg c now h r s)) = ws_metrics s \<and>
     ws_sys (fst (runHandler ev cfg opts bcfg c now h r s)) = ws_sys s"
  "\<not> readsStore h \<Longrightarrow> ws_world (fst (runHandler ev cfg opts bcfg c now h r s)) = ws_world s"
  "ws_ready (fst (runHandler ev cfg opts bcfg c now h r s)) = ws_ready s"
  by (cases h; simp add: runHandler_def Let_def readsStore_def split: prod.splits)+

text \<open>
  C24. The roles of a process hold at its HTTP surface, whatever is requested: the ingest
  counters and the buffer change only under the ingest role and only on a \<^verbatim>\<open>POST\<close>, the store is
  read only under the UI role and never on a \<^verbatim>\<open>POST\<close>, no request touches readiness, and the
  security headers are on every response, errors and redirects included.
\<close>

theorem serveHTTP_roles:
  "(ws_metrics (fst (serveHTTP ev cfg opts bcfg c now r s)) = ws_metrics s \<and>
      ws_sys (fst (serveHTTP ev cfg opts bcfg c now r s)) = ws_sys s \<or> Ingest opts \<and> rq_method r = ''POST'') \<and>
   (ws_world (fst (serveHTTP ev cfg opts bcfg c now r s)) = ws_world s \<or>
      UI opts \<and> (rq_method r = ''GET'' \<or> rq_method r = ''HEAD'')) \<and>
   ws_ready (fst (serveHTTP ev cfg opts bcfg c now r s)) = ws_ready s \<and>
   fst (snd (serveHTTP ev cfg opts bcfg c now r s)) = securityHeaders"
proof (cases "findHandler (routes opts (MetricsEnabled cfg)) (rq_method r) (rq_path r)")
  case (ToHandler h)
  then have e: "fst (serveHTTP ev cfg opts bcfg c now r s) = fst (runHandler ev cfg opts bcfg c now h r s)"
    "fst (snd (serveHTTP ev cfg opts bcfg c now r s)) = securityHeaders"
    by (simp_all add: serveHTTP_def split: prod.split)
  from findHandler_in [OF ToHandler] obtain pm pat mk ms where m: "(pm, pat, mk) \<in> set (routes opts (MetricsEnabled cfg))"
    "methodFits pm (rq_method r)" "h = mk ms" by blast
  have "h = IngestH \<Longrightarrow> Ingest opts \<and> rq_method r = ''POST''"
    using route_roles(1) [OF m(1), of ms] m by (simp add: methodFits_def)
  moreover have "readsStore h \<Longrightarrow> UI opts \<and> (rq_method r = ''GET'' \<or> rq_method r = ''HEAD'')"
    using route_roles(2) [OF m(1), of ms] m by (auto simp: methodFits_def)
  ultimately show ?thesis unfolding e using runHandler_frame by metis
qed (simp_all add: serveHTTP_def)

section \<open>A client at the other end\<close>

text \<open>
  The connection between a client whose base URL names this server and its handler:
  \<^verbatim>\<open>enc\<close> is what the response writers put on the wire, \<^verbatim>\<open>statusLine\<close> the text of a status.
\<close>

definition overWire :: "string \<Rightarrow> (int \<Rightarrow> string) \<Rightarrow> (payload \<Rightarrow> string) \<Rightarrow> (request \<Rightarrow> response) \<Rightarrow> string \<Rightarrow> headers \<Rightarrow>
    string + httpResponse" where
  "overWire srvBase statusLine enc srv url hdrs =
     (if hasPrefix url srvBase then
        (case cutC CHR 0x3F (drop (length srvBase) url) of (p, q) \<Rightarrow>
           (case srv \<lparr>rq_method = ''GET'', rq_path = p, rq_query = q, rq_body = ''''\<rparr> of
              (code, pl) \<Rightarrow> Inr (code, statusLine code, enc pl)))
      else Inl ''no such host'')"

abbreviation answers :: "'w webEnv \<Rightarrow> Config \<Rightarrow> Options \<Rightarrow> BufferCfg \<Rightarrow> addCase \<Rightarrow> time \<Rightarrow> ('w, 's) webState \<Rightarrow> request \<Rightarrow> response" where
  "answers ev cfg opts bcfg c now s \<equiv> \<lambda>r. snd (snd (serveHTTP ev cfg opts bcfg c now r s))"

definition apiPath :: string where
  "apiPath = CHR 0x2F # ''api'' @ CHR 0x2F # ''v1'' @ CHR 0x2F # ''queries''"

lemma apiPath_eq: "''/api/v1/queries'' = apiPath" "''/api/v1/queries/'' = apiPath @ [CHR 0x2F]"
  by (simp_all add: apiPath_def)

lemma splitOn_api: "splitOn CHR 0x2F (drop 1 apiPath) = [''api'', ''v1'', ''queries'']"
  "list_all (\<lambda>x. x \<noteq> CHR 0x2F) e \<Longrightarrow> splitOn CHR 0x2F (drop 1 apiPath @ CHR 0x2F # e) = [''api'', ''v1'', ''queries'', e]"
  by (simp_all add: apiPath_def splitOn_last)

lemma findHandler_api_list: "UI opts \<Longrightarrow> findHandler (routes opts me) ''GET'' apiPath = ToHandler APIList"
proof -
  have "cleanPath apiPath = apiPath" "segNames apiPath = [''api'', ''v1'', ''queries'']" "last apiPath \<noteq> CHR 0x2F" by code_simp+
  moreover assume "UI opts"
  ultimately show ?thesis by (simp add: findHandler_def exactMatch_def methodFits_def routes_def Let_def)
qed

lemma PathEscape_dots: "PathEscape qid = ''.'' \<longleftrightarrow> qid = ''.''" "PathEscape qid = ''..'' \<longleftrightarrow> qid = ''..''" "PathEscape qid = [] \<longleftrightarrow> qid = []"
proof -
  have "PathEscape ''.'' = ''.''" "PathEscape ''..'' = ''..''" "PathEscape [] = []"
    by (simp_all add: PathEscape_def pathPlain_def unreserved_def)
  then show "PathEscape qid = ''.'' \<longleftrightarrow> qid = ''.''" "PathEscape qid = ''..'' \<longleftrightarrow> qid = ''..''" "PathEscape qid = [] \<longleftrightarrow> qid = []"
    by (metis PathEscape_inject)+
qed

lemma findHandler_api_get:
  assumes "UI opts" and "qid \<notin> {'''', ''.'', ''..'', [CHR 0x2F]}"
  shows "findHandler (routes opts me) ''GET'' (apiPath @ CHR 0x2F # PathEscape qid) = ToHandler (APIGet qid)"
proof -
  let ?e = "PathEscape qid" and ?p = "apiPath @ CHR 0x2F # PathEscape qid"
  have free: "list_all (\<lambda>x. x \<noteq> CHR 0x2F) ?e" by (rule PathEscape_free) simp
  have e: "?e \<noteq> []" "?e \<noteq> ''.''" "?e \<noteq> ''..''" using assms(2) PathEscape_dots by auto
  have "last ?e \<noteq> CHR 0x2F" using free e(1) by (simp add: list_all_iff)
  then have last: "last ?p \<noteq> CHR 0x2F" using e(1) by simp
  have split: "splitOn CHR 0x2F (drop 1 ?p) = [''api'', ''v1'', ''queries'', ?e]"
    using splitOn_api(2) [OF free] by (simp add: apiPath_def)
  have clean: "cleanPath ?p = ?p"
    using split e last by (simp add: cleanPath_def Let_def apiPath_def)
  have segs: "segNames ?p = [''api'', ''v1'', ''queries'', qid]"
    using split e by (simp add: segNames_def segName_def PathUnescape_escape PathUnescape.simps)
  show ?thesis using assms last
    by (simp add: findHandler_def clean segs Let_def routes_def methodFits_def exactMatch_def)
qed

lemma cutC_none: "list_all (\<lambda>x. x \<noteq> c) p \<Longrightarrow> cutC c p = (p, [])"
  by (induction p) (simp_all add: cutC_def)

lemma overWire_get:
  assumes "UI opts" and "qid \<notin> {'''', ''.'', ''..'', [CHR 0x2F]}"
  shows "overWire b sl enc (answers ev cfg opts bcfg c now s) (b @ apiPath @ CHR 0x2F # PathEscape qid) hdrs =
    (case snd (handleAPIGetQuery (we_decInputs ev) (we_reader ev) (ws_world s) qid) of (code, pl) \<Rightarrow> Inr (code, sl code, enc pl))"
proof -
  have "list_all (\<lambda>x. x \<noteq> CHR 0x3F) (apiPath @ CHR 0x2F # PathEscape qid)"
    using PathEscape_free [of "CHR 0x3F" qid] by (simp add: apiPath_def)
  then have "cutC CHR 0x3F (apiPath @ CHR 0x2F # PathEscape qid) = (apiPath @ CHR 0x2F # PathEscape qid, '''')"
    by (rule cutC_none)
  then show ?thesis
    by (simp add: overWire_def hasPrefix_def serveHTTP_def findHandler_api_get [OF assms] runHandler_def Let_def split: prod.splits)
qed

lemma overWire_list:
  assumes "UI opts"
  shows "overWire b sl enc (answers ev cfg opts bcfg c now s) (b @ apiPath @ CHR 0x3F # q) hdrs =
    (case snd (handleAPIListQueries (we_reader ev) now (ws_world s) (ParseQuery q)) of (code, pl) \<Rightarrow> Inr (code, sl code, enc pl))"
proof -
  have "cutC CHR 0x3F (apiPath @ CHR 0x3F # q) = (apiPath, q)" by (rule cutC_sep) (simp add: apiPath_def)
  then show ?thesis
    by (simp add: overWire_def hasPrefix_def serveHTTP_def findHandler_api_list [OF assms] runHandler_def Let_def split: prod.splits)
qed

lemma parseWithID_nonempty: "parseWithID defs f i rem = Inr (f', qid) \<Longrightarrow> qid \<noteq> ''''"
proof (induction defs f i rem rule: parseWithID.induct)
  case (1 defs f i rem)
  show ?case
    using "1.prems" "1.IH" [OF _ refl]
    unfolding parseWithID.simps [of defs f i rem] by (auto split: sum.splits prod.splits list.splits if_splits)
qed

text \<open>
  C9. \<^verbatim>\<open>query get\<close> shows what the store behind the server has. For any id but a dot
  segment or a lone slash, whatever bytes it has, the request reaches the lookup of exactly that id;
  a row found is printed without its plans and exits with 0, an id the store does not have
  exits with 4, and a failing store with 1.
\<close>

theorem client_get_reads_store:
  assumes "parseWithID commonFlags defaultFlags '''' argv = Inr (f, qid)" and "qid \<notin> {''.'', ''..'', [CHR 0x2F]}"
    and "newClient (ce_isPrint cl) (ce_readFile cl) f = Inr http" and "fl_output f = ''json''"
    and "UI opts" and "ce_send cl = overWire (base http) statusLine enc (answers ev cfg opts bcfg c now s)"
    and "\<And>row. snd (s_GetQuery (we_reader ev) (ws_world s) qid) = Inr (Some row) \<Longrightarrow>
      ce_decQuery cl (take (64 * 1048576) (enc (JsonQuery row (rowInputs (we_decInputs ev) row)))) =
        Inr \<lparr>dRow = row, Inputs = rowInputs (we_decInputs ev) row\<rparr>"
  shows "cliMain cl (''get'' # argv) =
    (case snd (s_GetQuery (we_reader ev) (ws_world s) qid) of
       Inl e \<Rightarrow> (exitError, [])
     | Inr None \<Rightarrow> (exitNotFound, [])
     | Inr (Some row) \<Rightarrow> (exitOK, [Json (JDetail \<lparr>dRow = row\<lparr>Plan := '''', JSONPlan := ''''\<rparr>,
         Inputs = rowInputs (we_decInputs ev) row\<rparr>)]))"
proof -
  let ?ans = "snd (s_GetQuery (we_reader ev) (ws_world s) qid)"
  have "qid \<notin> {'''', ''.'', ''..'', [CHR 0x2F]}" using assms(2) parseWithID_nonempty [OF assms(1)] by simp
  note wire = overWire_get [OF assms(5) this]
  note get = getQuery_def getJSON_def requestURL_def apiPath_eq assms(6) wire handleAPIGetQuery_def goDiv_def Let_def
  note run = cliMain_def runGet_def renderOut_def getProjection_def exitCode_def assms(1,3,4)
  obtain w' where ans: "s_GetQuery (we_reader ev) (ws_world s) qid = (w', ?ans)" by (metis prod.collapse)
  show ?thesis
  proof (cases ?ans)
    case (Inl e)
    then obtain m where "getQuery cl http qid = Inl (CliErr m)" using ans by (simp add: get) metis
    then show ?thesis using Inl by (simp add: run)
  next
    case (Inr found)
    show ?thesis
    proof (cases found)
      case None
      then have "getQuery cl http qid = Inl ErrNotFound" using ans Inr by (simp add: get)
      then show ?thesis using Inr None by (simp add: run)
    next
      case (Some row)
      then have "getQuery cl http qid = Inr \<lparr>dRow = row, Inputs = rowInputs (we_decInputs ev) row\<rparr>"
        using ans Inr assms(7) by (simp add: get)
      then show ?thesis using Inr Some by (simp add: run)
    qed
  qed
qed


section \<open>A service and a client\<close>

text \<open>
  The codec stands for JSON on the values it meets: it writes a fixed mark for the one value the
  store holds, which is all the examples send.
\<close>

definition oneRow :: Row where "oneRow = ingestRow (loadConfig (\<lambda>_. None)) exampleEvent"

definition oneStore :: "unit readStore" where
  "oneStore = \<lparr>s_ListQueries = \<lambda>w f. (w, Inr (take (nat (pageLimit f)) (drop (nat (qf_Offset f)) [exampleSummary]))),
     s_GetQuery = \<lambda>w q. (w, Inr (if q = ''a b'' then Some oneRow else None))\<rparr>"

definition exampleWeb :: "unit webEnv" where
  "exampleWeb = \<lparr>we_templateOk = \<lambda>_. True, we_decInputs = \<lambda>_. [], we_decEvent = \<lambda>_. Some exampleEvent,
     we_serveFile = \<lambda>_. notFound, we_redirectCode = 301, we_reader = oneStore, we_cacheObs = \<lambda>_. []\<rparr>"

definition exampleState :: "(unit, unit) webState" where
  "exampleState = \<lparr>ws_metrics = NewMetrics, ws_sys = newBuffer (), ws_ready = startReadiness (), ws_world = ()\<rparr>"

definition exampleFlags :: cliFlags where "exampleFlags = defaultFlags\<lparr>fl_url := ''http://h'', fl_output := ''json''\<rparr>"

definition examplePage :: listResponse where
  "examplePage = \<lparr>Queries = [exampleSummary], lr_Count = 1, lr_Limit = 20, lr_Offset = 0, lr_HasNext = False\<rparr>"

definition wiredClient :: cliEnv where
  "wiredClient = \<lparr>ce_isPrint = \<lambda>_. True, ce_readFile = \<lambda>_. Inl '''', ce_parseInt = atoi,
     ce_send = overWire ''http://h'' (\<lambda>_. '''') (\<lambda>_. '''')
       (answers exampleWeb (loadConfig (\<lambda>_. None)) \<lparr>Ingest = False, UI = True\<rparr> exampleCfg CaseSend 0 exampleState),
     ce_decList = \<lambda>_. Inr examplePage, ce_decQuery = \<lambda>_. Inr \<lparr>dRow = oneRow, Inputs = []\<rparr>\<rparr>"

lemma example_args:
  "parseWithID commonFlags defaultFlags '''' [''--url'', ''http://h'', ''-o'', ''json'', qid] =
     parseWithID commonFlags exampleFlags '''' [qid]"
  "parseFlags (listFlags atoi) defaultFlags [''--url'', ''http://h'', ''-o'', ''json''] = Inr (exampleFlags, [])"
proof -
  have url: "parseOne (commonFlags @ more) defaultFlags (''--url'' # ''http://h'' # rest) = Seen (defaultFlags\<lparr>fl_url := ''http://h''\<rparr>) rest"
    and out: "parseOne (commonFlags @ more) (defaultFlags\<lparr>fl_url := ''http://h''\<rparr>) (''-o'' # ''json'' # rest) = Seen exampleFlags rest"
    for more rest
    by (simp_all add: parseOne_def applyFlag_def commonFlags_def strFlag_def headerFlag_def exampleFlags_def)
  note steps = url [of "[]", simplified] out [of "[]", simplified]
  have "parseFlags commonFlags defaultFlags (''--url'' # ''http://h'' # ''-o'' # ''json'' # rest) = parseFlags commonFlags exampleFlags rest" for rest
    by (subst parseFlags.simps, simp only: steps parsed.case, subst parseFlags.simps, simp only: steps parsed.case)
  then show "parseWithID commonFlags defaultFlags '''' [''--url'', ''http://h'', ''-o'', ''json'', qid] =
      parseWithID commonFlags exampleFlags '''' [qid]"
    by (simp add: parseWithID.simps [of _ defaultFlags] parseWithID.simps [of _ exampleFlags "[]" "[qid]"])
  show "parseFlags (listFlags atoi) defaultFlags [''--url'', ''http://h'', ''-o'', ''json''] = Inr (exampleFlags, [])"
    unfolding listFlags_def
    by (subst parseFlags.simps, simp only: url parsed.case, subst parseFlags.simps, simp only: out parsed.case, subst parseFlags.simps)
      (simp add: parseOne_def)
qed

lemma example_http: "newClient ip rf exampleFlags =
    Inr \<lparr>base = ''http://h'', headers = [], clientTimeout = 30 * second, insecureTLS = False\<rparr>"
proof -
  have "TrimSpace ''http://h'' \<noteq> ''''" by code_simp
  then show ?thesis by (simp add: newClient_def exampleFlags_def defaultFlags_def)
qed

theorem client_get_reads_store_witness:
  "cliMain wiredClient [''get'', ''--url'', ''http://h'', ''-o'', ''json'', ''a b''] =
     (exitOK, [Json (JDetail \<lparr>dRow = oneRow\<lparr>Plan := '''', JSONPlan := ''''\<rparr>, Inputs = []\<rparr>)]) \<and>
   fst (cliMain wiredClient [''get'', ''--url'', ''http://h'', ''-o'', ''json'', ''nope'']) = exitNotFound"
proof -
  have p: "parseWithID commonFlags exampleFlags '''' [qid] = Inr (exampleFlags, qid)" if "qid \<noteq> ''''" "hd qid \<noteq> CHR ''-''" for qid
    using that by (simp add: parseWithID.simps parseFlags.simps parseOne_def)
  have get: "cliMain wiredClient (''get'' # [''--url'', ''http://h'', ''-o'', ''json'', qid]) =
      (case snd (s_GetQuery oneStore () qid) of Inl e \<Rightarrow> (exitError, []) | Inr None \<Rightarrow> (exitNotFound, [])
       | Inr (Some row) \<Rightarrow> (exitOK, [Json (JDetail \<lparr>dRow = row\<lparr>Plan := '''', JSONPlan := ''''\<rparr>, Inputs = []\<rparr>)]))"
    if "qid \<in> {''a b'', ''nope''}" for qid
  proof -
    have "parseWithID commonFlags defaultFlags '''' [''--url'', ''http://h'', ''-o'', ''json'', qid] = Inr (exampleFlags, qid)"
      unfolding example_args using that by (intro p) auto
    from client_get_reads_store [OF this _ example_http, where cl = wiredClient and ev = exampleWeb and s = exampleState
        and opts = "\<lparr>Ingest = False, UI = True\<rparr>" and cfg = "loadConfig (\<lambda>_. None)" and bcfg = exampleCfg and c = CaseSend
        and now = 0 and statusLine = "\<lambda>_. ''''" and enc = "\<lambda>_. ''''"]
    show ?thesis using that
      by (auto simp: wiredClient_def exampleWeb_def exampleState_def oneStore_def rowInputs_def exampleFlags_def split: if_splits)
  qed
  show ?thesis using get [of "''a b''"] get [of "''nope''"] by (simp add: oneStore_def)
qed


end
