(* ===== verification/Program.thy ===== *)
theory Program
  imports Backend HttpServer
begin

text \<open>
  \<^verbatim>\<open>cmd/trino-query-log-sink/main.go\<close>: the subcommands, the wiring of a server from its
  configuration, and the life of a serving process from listening to exit. The process is a
  step relation over the parts of the other theories: requests, the buffer's flusher, the
  readiness checker and the main goroutine run interleaved.
\<close>

section \<open>Subcommands\<close>

datatype fatal = LoadErr "cfg_error list" | StoreErr err | UnknownSubcommand string

definition openStore :: "(nat \<Rightarrow> bool) \<Rightarrow> 'w drivers \<Rightarrow> Config \<Rightarrow> err + 'w Backend" where
  "openStore ip dr cfg = Open ip dr (StoreBackend cfg) (cfgTrino cfg) (cfgClickHouse cfg)"

text \<open>The warnings logged by \<^verbatim>\<open>warnInsecureStore\<close>.\<close>

definition warnInsecureStore :: "Config \<Rightarrow> string list" where
  "warnInsecureStore cfg =
     (if StoreBackend cfg \<noteq> ''clickhouse'' then []
      else (if ch_Password (cfgClickHouse cfg) \<noteq> '''' \<and> \<not> ch_TLS (cfgClickHouse cfg)
            then [''CLICKHOUSE_PASSWORD is set but CLICKHOUSE_TLS is off; credentials travel in cleartext''] else []) @
           (if ch_TLS (cfgClickHouse cfg) \<and> ch_TLSInsecure (cfgClickHouse cfg)
            then [''CLICKHOUSE_TLS_INSECURE is on; the server certificate is not verified''] else []))"

definition withStore :: "(nat \<Rightarrow> bool) \<Rightarrow> 'w drivers \<Rightarrow> Config \<Rightarrow> 'w \<Rightarrow> ('w Backend \<Rightarrow> 'w \<times> err option) \<Rightarrow> 'w \<times> err option" where
  "withStore ip dr cfg w act = (case openStore ip dr cfg of Inl e \<Rightarrow> (w, Some e) | Inr b \<Rightarrow> act b)"

definition initDDL :: "(nat \<Rightarrow> bool) \<Rightarrow> 'w drivers \<Rightarrow> Config \<Rightarrow> 'w \<Rightarrow> 'w \<times> err option" where
  "initDDL ip dr cfg w = withStore ip dr cfg w (\<lambda>b. bk_Init b w)"

definition runPrune :: "(nat \<Rightarrow> bool) \<Rightarrow> 'w drivers \<Rightarrow> Config \<Rightarrow> time \<Rightarrow> 'w \<Rightarrow> 'w \<times> err option" where
  "runPrune ip dr cfg now w = withStore ip dr cfg w (\<lambda>b. Run (bk_Prune b) w (RetentionDays cfg) now)"

definition runMaintain :: "(nat \<Rightarrow> bool) \<Rightarrow> 'w drivers \<Rightarrow> Config \<Rightarrow> 'w \<Rightarrow> 'w \<times> err option" where
  "runMaintain ip dr cfg w =
     (if StoreBackend cfg \<noteq> ''trino'' then (w, None)
      else withStore ip dr cfg w (\<lambda>b. bk_Maintain b w (MaintainRetention cfg)))"

definition runOptimize :: "(nat \<Rightarrow> bool) \<Rightarrow> 'w drivers \<Rightarrow> Config \<Rightarrow> time \<Rightarrow> 'w \<Rightarrow> 'w \<times> err option" where
  "runOptimize ip dr cfg now w =
     (if StoreBackend cfg \<noteq> ''trino'' then (w, None)
      else withStore ip dr cfg w (\<lambda>b. bk_Optimize b w (optimizeWindowStart now (OptimizeDays cfg))))"

definition printDDL :: "(nat \<Rightarrow> bool) \<Rightarrow> 'w drivers \<Rightarrow> Config \<Rightarrow> err + string" where
  "printDDL ip dr cfg = (case openStore ip dr cfg of Inl e \<Rightarrow> Inl e | Inr b \<Rightarrow> Inr (bk_DDLScript b))"

text \<open>
  What \<^verbatim>\<open>run\<close> comes to: it is done, with an error or not and what it printed, or it serves with
  a configuration and roles.
\<close>

datatype 'w ran = Done 'w "fatal option" string | Serves Config Options

definition ranDone :: "'w \<times> err option \<Rightarrow> 'w ran" where
  "ranDone r = Done (fst r) (map_option StoreErr (snd r)) ''''"

definition run :: "(nat \<Rightarrow> bool) \<Rightarrow> 'w drivers \<Rightarrow> environment \<Rightarrow> time \<Rightarrow> 'w \<Rightarrow> string list \<Rightarrow> 'w ran" where
  "run ip dr e now w argv =
     (let cmd = (case argv of [] \<Rightarrow> ''serve'' | c # _ \<Rightarrow> c) in
      if cmd \<in> {''-h'', ''--help'', ''help''} then Done w None ''''
      else
        (case Load e of
           Inl errs \<Rightarrow> Done w (Some (LoadErr errs)) ''''
         | Inr cfg \<Rightarrow>
             if cmd = ''serve'' then Serves cfg \<lparr>Ingest = True, UI = True\<rparr>
             else if cmd = ''ingest'' then Serves cfg \<lparr>Ingest = True, UI = False\<rparr>
             else if cmd = ''ui'' then Serves cfg \<lparr>Ingest = False, UI = True\<rparr>
             else if cmd = ''init'' then ranDone (initDDL ip dr cfg w)
             else if cmd = ''prune'' then ranDone (runPrune ip dr cfg now w)
             else if cmd = ''optimize'' then ranDone (runOptimize ip dr cfg now w)
             else if cmd = ''maintain'' then ranDone (runMaintain ip dr cfg w)
             else if cmd = ''ddl'' then
               (case printDDL ip dr cfg of Inl err \<Rightarrow> Done w (Some (StoreErr err)) '''' | Inr out \<Rightarrow> Done w None out)
             else Done w (Some (UnknownSubcommand cmd)) ''''))"

text \<open>
  \<^verbatim>\<open>main\<close>: the exit code and output of a command that ends, with the world it leaves; a server's
  exit code follows from how it leaves, below.
\<close>

datatype 'w mainRun = Exit 'w int "outPart list" | MainServes Config Options

definition mainProgram :: "(nat \<Rightarrow> bool) \<Rightarrow> 'w drivers \<Rightarrow> cliEnv \<Rightarrow> environment \<Rightarrow> time \<Rightarrow> 'w \<Rightarrow> string list \<Rightarrow> 'w mainRun" where
  "mainProgram ip dr cl e now w argv =
     (if argv \<noteq> [] \<and> hd argv = ''query'' then (case cliMain cl (tl argv) of (code, out) \<Rightarrow> Exit w code out)
      else (case run ip dr e now w argv of
              Done w' None out \<Rightarrow> Exit w' 0 [Text out]
            | Done w' (Some f) out \<Rightarrow> Exit w' 1 [Text out]
            | Serves cfg opts \<Rightarrow> MainServes cfg opts))"

section \<open>Wiring a server\<close>

definition rolesLabel :: "Options \<Rightarrow> string" where
  "rolesLabel opts = (if Ingest opts \<and> UI opts then ''ingest,ui'' else if Ingest opts then ''ingest'' else ''ui'')"

definition bufferConfig :: "Config \<Rightarrow> BufferCfg" where
  "bufferConfig cfg =
     \<lparr>BatchSize = Config.BatchSize cfg, FlushInterval = Config.FlushInterval cfg, BufferCapacity = Config.BufferCapacity cfg,
      MaxRetries = FlushMaxRetries cfg, FlushTimeout = StoreQueryTimeout cfg, RetryBackoff = FlushRetryBackoff cfg,
      RetryMaxBackoff = FlushRetryMaxBackoff cfg\<rparr>"

text \<open>The reader of the server: the store itself, or the cache in front of it. Both carry the cache's observations.\<close>

definition plainReader :: "'w readStore \<Rightarrow> 'w observed readStore" where
  "plainReader st =
     \<lparr>s_ListQueries = \<lambda>w f. (case s_ListQueries st (fst w) f of (w', r) \<Rightarrow> ((w', snd w), r)),
      s_GetQuery = \<lambda>w q. (case s_GetQuery st (fst w) q of (w', r) \<Rightarrow> ((w', snd w), r))\<rparr>"

definition cachedReader :: "'w cachedStore \<Rightarrow> 'w observed readStore" where
  "cachedReader c = \<lparr>s_ListQueries = cachedListQueries c, s_GetQuery = cachedGetQuery c\<rparr>"

definition chooseReader :: "(nat \<Rightarrow> bool) \<Rightarrow> 'w redisClient \<Rightarrow> QuerySummary list codec \<Rightarrow> Row codec \<Rightarrow> Config \<Rightarrow> Options \<Rightarrow>
    'w Backend \<Rightarrow> 'w observed readStore" where
  "chooseReader ip redis rc qc cfg opts b =
     (if UI opts \<and> Enabled (cfgCache cfg)
      then cachedReader (NewCached (bk_Reader b) (redisCache redis) rc qc ip (cfgCache cfg))
      else plainReader (bk_Reader b))"

text \<open>
  The set-up of \<^verbatim>\<open>runServer\<close>: the store is opened, the buffer gets its configuration and writer, the handler
  its reader. \<open>lib\<close> holds the library code of the handlers; the context and clock of the buffer are parameters.
\<close>

definition setupServer :: "(nat \<Rightarrow> bool) \<Rightarrow> 'w drivers \<Rightarrow> 'w redisClient \<Rightarrow> QuerySummary list codec \<Rightarrow> Row codec \<Rightarrow>
    'w observed webEnv \<Rightarrow> ('w \<Rightarrow> bool) \<Rightarrow> ('w \<Rightarrow> 'w) \<Rightarrow> ('w \<Rightarrow> time) \<Rightarrow> Config \<Rightarrow> Options \<Rightarrow>
    err + 'w observed webEnv \<times> 'w handle Env \<times> BufferCfg" where
  "setupServer ip dr redis rc qc lib baseErr cncl now cfg opts =
     (case openStore ip dr cfg of
        Inl e \<Rightarrow> Inl e
      | Inr b \<Rightarrow> Inr (lib\<lparr>we_reader := chooseReader ip redis rc qc cfg opts b, we_cacheObs := snd\<rparr>,
                     backendEnv b baseErr cncl now, newCfg (bufferConfig cfg)))"

section \<open>The life of a serving process\<close>

text \<open>
  Where \<^verbatim>\<open>runServer\<close> is after its set-up: in its \<^verbatim>\<open>select\<close>, past it, after \<^verbatim>\<open>MarkNotReady\<close>, after
  \<^verbatim>\<open>httpSrv.Shutdown\<close>, in \<^verbatim>\<open>buf.Close\<close>, or returned with an error text or none.
\<close>

datatype stage = Listening | Leaving | MarkedDown | HttpStopped | ClosingBuffer | Exited "string option"

record 'w process =
  pr_stage :: stage
  pr_live :: bool        \<comment> \<open>handlers may be running\<close>
  pr_metrics :: Metrics
  pr_sys :: "'w handle Sys"
  pr_ready :: "unit Readiness"

definition startProcess :: "'w \<Rightarrow> 'w process" where
  "startProcess w = \<lparr>pr_stage = Listening, pr_live = True, pr_metrics = NewMetrics, pr_sys = newBuffer (w, []),
     pr_ready = startReadiness ()\<rparr>"

fun exited :: "stage \<Rightarrow> bool" where
  "exited (Exited e) = True"
| "exited _ = False"

text \<open>
  The goroutines of the process. \<^verbatim>\<open>request\<close> is an ingest handler, alive until \<^verbatim>\<open>Shutdown\<close> has waited
  for it; \<^verbatim>\<open>flusher\<close> the buffer's own steps, and the cancellation by an expired \<^verbatim>\<open>Close\<close>;
  \<^verbatim>\<open>checker\<close> the readiness goroutine, with any answer of the store; the rest is \<^verbatim>\<open>main\<close>.
  \<^verbatim>\<open>Shutdown\<close> returns when every handler has, or when its 25 seconds are over.
\<close>

inductive procStep :: "(string \<Rightarrow> Event option) \<Rightarrow> Config \<Rightarrow> Options \<Rightarrow> 'w handle Env \<Rightarrow> BufferCfg \<Rightarrow> 'w process \<Rightarrow> 'w process \<Rightarrow> bool"
  for dec cfg opts env bcfg where
  request: "\<not> exited (pr_stage p) \<Longrightarrow> pr_live p \<Longrightarrow> Ingest opts \<Longrightarrow> addReady bcfg (pr_sys p) c \<Longrightarrow>
     handleIngest dec cfg c (pr_metrics p) (pr_sys p) body = (m, s, resp) \<Longrightarrow>
     procStep dec cfg opts env bcfg p (p\<lparr>pr_metrics := m, pr_sys := s\<rparr>)"
| flusher: "\<not> exited (pr_stage p) \<Longrightarrow> Ingest opts \<Longrightarrow> step env bcfg (pr_sys p) s \<Longrightarrow> offered s = offered (pr_sys p) \<Longrightarrow>
     stopped s = stopped (pr_sys p) \<Longrightarrow> procStep dec cfg opts env bcfg p (p\<lparr>pr_sys := s\<rparr>)"
| checker: "\<not> exited (pr_stage p) \<Longrightarrow> readyStep (cfgReadiness cfg) v (pr_ready p) r \<Longrightarrow> marked r = marked (pr_ready p) \<Longrightarrow>
     ctxDone r = ctxDone (pr_ready p) \<Longrightarrow> procStep dec cfg opts env bcfg p (p\<lparr>pr_ready := r\<rparr>)"
| signal: "\<not> exited (pr_stage p) \<Longrightarrow> procStep dec cfg opts env bcfg p (p\<lparr>pr_ready := (pr_ready p)\<lparr>ctxDone := True\<rparr>\<rparr>)"
| noticed: "pr_stage p = Listening \<Longrightarrow> ctxDone (pr_ready p) \<Longrightarrow> procStep dec cfg opts env bcfg p (p\<lparr>pr_stage := Leaving\<rparr>)"
| serverClosed: "pr_stage p = Listening \<Longrightarrow> procStep dec cfg opts env bcfg p (p\<lparr>pr_stage := Leaving\<rparr>)"
| serverFailed: "pr_stage p = Listening \<Longrightarrow>
     procStep dec cfg opts env bcfg p (p\<lparr>pr_stage := Exited (Some (''http server: '' @ e))\<rparr>)"
| mark: "pr_stage p = Leaving \<Longrightarrow>
     procStep dec cfg opts env bcfg p (p\<lparr>pr_stage := MarkedDown, pr_ready := MarkNotReady (pr_ready p)\<rparr>)"
| httpDone: "pr_stage p = MarkedDown \<Longrightarrow> procStep dec cfg opts env bcfg p (p\<lparr>pr_stage := HttpStopped, pr_live := False\<rparr>)"
| httpTimeout: "pr_stage p = MarkedDown \<Longrightarrow> procStep dec cfg opts env bcfg p (p\<lparr>pr_stage := HttpStopped\<rparr>)"
| closeBuffer: "pr_stage p = HttpStopped \<Longrightarrow> Ingest opts \<Longrightarrow>
     procStep dec cfg opts env bcfg p (p\<lparr>pr_stage := ClosingBuffer, pr_sys := closeStop (pr_sys p)\<rparr>)"
| noBuffer: "pr_stage p = HttpStopped \<Longrightarrow> \<not> Ingest opts \<Longrightarrow> procStep dec cfg opts env bcfg p (p\<lparr>pr_stage := Exited None\<rparr>)"
| closed: "pr_stage p = ClosingBuffer \<Longrightarrow> phase (pr_sys p) = Finished \<Longrightarrow>
     procStep dec cfg opts env bcfg p (p\<lparr>pr_stage := Exited None\<rparr>)"

abbreviation procSteps :: "(string \<Rightarrow> Event option) \<Rightarrow> Config \<Rightarrow> Options \<Rightarrow> 'w handle Env \<Rightarrow> BufferCfg \<Rightarrow> 'w process \<Rightarrow> 'w process \<Rightarrow> bool" where
  "procSteps dec cfg opts env bcfg \<equiv> (procStep dec cfg opts env bcfg)\<^sup>*\<^sup>*"

inductive_cases procStep_elim: "procStep dec cfg opts env bcfg p q"

text \<open>A process that has exited takes no step.\<close>

lemma exited_final: "exited (pr_stage p) \<Longrightarrow> \<not> procStep dec cfg opts env bcfg p q"
  by (auto elim!: procStep_elim)

section \<open>Invariants of a process\<close>

text \<open>The write path inside the process is a run of the service.\<close>

lemma procStep_serves:
  assumes "procStep dec cfg opts env bcfg p q"
  shows "serves dec cfg env bcfg (pr_metrics p, pr_sys p) (pr_metrics q, pr_sys q)"
  using assms
proof cases
  case (request c body m s resp)
  then show ?thesis by (auto intro: serves_step [OF serves_refl] serveStep.request)
next
  case (flusher s)
  then show ?thesis by (auto intro: serves_step [OF serves_refl] serveStep.background)
next
  case closeBuffer
  have "serveStep dec cfg env bcfg (pr_metrics p, pr_sys p) (pr_metrics p, closeStop (pr_sys p))"
    by (rule serveStep.background [OF step.close]) (simp add: closeStop_def)
  then show ?thesis using closeBuffer by (auto intro: serves_step [OF serves_refl])
qed (auto intro: serves_refl)

lemma serves_trans:
  assumes "serves dec cfg env bcfg t u" and "serves dec cfg env bcfg s t"
  shows "serves dec cfg env bcfg s u"
  using assms by (induction rule: serves.induct) (auto intro: serves_step)

lemma procSteps_serves:
  "procSteps dec cfg opts env bcfg p q \<Longrightarrow> serves dec cfg env bcfg (pr_metrics p, pr_sys p) (pr_metrics q, pr_sys q)"
  by (induction rule: rtranclp_induct) (auto intro: serves_refl serves_trans procStep_serves)

text \<open>
  The stop signal is given only by \<^verbatim>\<open>Close\<close>, and only it ends the flusher. Once the handlers have
  returned nothing enters the channel, so a flusher that has finished left nothing behind.
\<close>

definition orderly :: "'w process \<Rightarrow> bool" where
  "orderly p \<longleftrightarrow>
     (stopped (pr_sys p) \<longrightarrow> pr_stage p = ClosingBuffer \<or> pr_stage p = Exited None) \<and>
     (phase (pr_sys p) \<noteq> Running \<longrightarrow> stopped (pr_sys p)) \<and>
     (pr_stage p \<in> {Listening, Leaving, MarkedDown} \<longrightarrow> pr_live p) \<and>
     (pr_stage p = ClosingBuffer \<longrightarrow> stopped (pr_sys p)) \<and>
     (phase (pr_sys p) = Finished \<longrightarrow> batch (pr_sys p) = [] \<and> (pr_live p \<or> chan (pr_sys p) = []))"

text \<open>What the buffer's own steps keep of it.\<close>

lemma flusher_orderly:
  assumes "step env bcfg s t" and "offered t = offered s" and "phase s \<noteq> Running \<longrightarrow> stopped s"
    and "phase s = Finished \<longrightarrow> batch s = [] \<and> (live \<or> chan s = [])"
  shows "(phase t \<noteq> Running \<longrightarrow> stopped t) \<and> (phase t = Finished \<longrightarrow> batch t = [] \<and> (live \<or> chan t = []))"
  using assms(1)
  by cases (use assms(2-4) in \<open>auto simp: buf_simps closeStop_def finish_def\<close>)

lemma handleIngest_frame:
  assumes "handleIngest dec cfg c m s body = (m', s', resp)"
  shows "stopped s' = stopped s" "phase s' = phase s" "batch s' = batch s"
  using assms by (cases rule: handleIngest_cases; simp add: buf_simps)+

lemma procStep_orderly:
  assumes "procStep dec cfg opts env bcfg p q" and "orderly p"
  shows "orderly q"
  using assms(1)
proof cases
  case (request c body m s resp)
  then show ?thesis using assms(2) handleIngest_frame [OF request(6)] by (auto simp: orderly_def)
next
  case (flusher s)
  then show ?thesis using assms(2) flusher_orderly [OF flusher(4,5), of "pr_live p"] by (auto simp: orderly_def)
qed (use assms(2) in \<open>auto simp: orderly_def closeStop_def\<close>)

lemma start_orderly: "orderly (startProcess w)"
  by (simp add: orderly_def startProcess_def newBuffer_def)

lemma procSteps_orderly: "procSteps dec cfg opts env bcfg p q \<Longrightarrow> orderly p \<Longrightarrow> orderly q"
  by (induction rule: rtranclp_induct) (auto intro: procStep_orderly)

lemma exit_finished:
  assumes "procSteps dec cfg opts env bcfg (startProcess w) p" and "Ingest opts" and "pr_stage p = Exited None"
  shows "phase (pr_sys p) = Finished"
proof -
  have "pr_stage p = Exited None \<longrightarrow> phase (pr_sys p) = Finished"
    using assms(1)
  proof (induction rule: rtranclp_induct)
    case (step p q)
    then show ?case using assms(2) by (auto elim!: procStep_elim)
  qed (simp add: startProcess_def)
  then show ?thesis using assms(3) by simp
qed

section \<open>Leaving in order\<close>

lemma opened_storeEnv:
  assumes "openStore ip dr cfg = Inr b"
  shows "storeEnv (backendEnv b baseErr cncl now)"
  using assms unfolding openStore_def
proof (rule Open_cases)
  fix s assume "b = trinoBackend dr s"
  then have "backendEnv b baseErr cncl now = trinoEnv (dr_exec dr) s baseErr cncl now"
    by (simp add: backendEnv_def trinoBackend_def trinoEnv_def)
  then show ?thesis unfolding storeEnv_def by blast
next
  assume "b = clickhouseBackend ip dr (newClickHouseStore (cfgClickHouse cfg))"
  then have "backendEnv b baseErr cncl now =
      clickhouseEnv (dr_conn dr) (newClickHouseStore (cfgClickHouse cfg)) baseErr cncl now"
    by (simp add: backendEnv_def clickhouseBackend_def clickhouseEnv_def)
  then show ?thesis unfolding storeEnv_def by blast
qed

text \<open>
  C2. A clean exit loses nothing. When a process that ingests, over the store its configuration opens,
  has returned without an error and its HTTP shutdown waited for all handlers, then nothing is left
  in memory: every event it ever received is counted as invalid, suppressed, flushed, dropped or replaced
  by a newer row of the same query, and the database acknowledged exactly the rows counted as flushed. This
  holds for every interleaving of requests, flusher, readiness checks and shutdown, and whatever the database answers.
\<close>

theorem clean_exit_loses_nothing:
  assumes "openStore ip dr cfg = Inr b" and "Ingest opts"
    and "procSteps dec cfg opts (backendEnv b baseErr cncl now) (newCfg (bufferConfig cfg)) (startProcess w) p"
    and "pr_stage p = Exited None" and "\<not> pr_live p"
  defines "t \<equiv> serviceMetrics (pr_metrics p, pr_sys p)"
  shows "chan (pr_sys p) = [] \<and> batch (pr_sys p) = [] \<and>
    eventsReceived t = i64 (eventsInvalid t + eventsSuppressed t + m_rowsFlushed t + eventsDropped t + superseded (pr_sys p)) \<and>
    m_rowsFlushed t = i64 (int (length (acked (world (buf (pr_sys p))))))"
proof -
  have "orderly p" using procSteps_orderly [OF assms(3) start_orderly] .
  then have "chan (pr_sys p) = []" "batch (pr_sys p) = []"
    using exit_finished [OF assms(3,2,4)] assms(5) by (simp_all add: orderly_def)
  moreover have "serves dec cfg (backendEnv b baseErr cncl now) (newCfg (bufferConfig cfg)) (NewMetrics, newBuffer (w, []))
      (pr_metrics p, pr_sys p)"
    using procSteps_serves [OF assms(3)] by (simp add: startProcess_def)
  ultimately show ?thesis
    using service_counts [OF opened_storeEnv [OF assms(1)]] by (simp add: t_def)
qed

lemma flusher_run:
  assumes "\<not> exited (pr_stage p)" and "Ingest opts" and "phase (pr_sys p) = Draining" and "stopped (pr_sys p)"
  shows "procSteps dec cfg opts env bcfg p (p\<lparr>pr_sys := finish env bcfg (drain env bcfg (pr_sys p))\<rparr>)"
proof -
  have "procSteps dec cfg opts env bcfg p (p\<lparr>pr_sys := drain env bcfg (pr_sys p)\<rparr>)"
    using assms
  proof (induction env bcfg "pr_sys p" arbitrary: p rule: drain.induct)
    case (1 env bcfg)
    show ?case
    proof (cases "chan (pr_sys p) = []")
      case True
      then show ?thesis by (simp add: drain.simps [of env bcfg "pr_sys p"])
    next
      case False
      let ?q = "p\<lparr>pr_sys := recv env bcfg (pr_sys p)\<rparr>"
      have "step env bcfg (pr_sys p) (recv env bcfg (pr_sys p))" using False "1.prems" by (intro receive) auto
      then have "procStep dec cfg opts env bcfg p ?q" using "1.prems" by (intro flusher) (auto simp: buf_simps)
      moreover have "procSteps dec cfg opts env bcfg ?q (?q\<lparr>pr_sys := drain env bcfg (pr_sys ?q)\<rparr>)"
        using "1.hyps" [OF False, of ?q] "1.prems" by (simp add: buf_simps)
      ultimately show ?thesis using False by (simp add: drain.simps [of env bcfg "pr_sys p"] converse_rtranclp_into_rtranclp)
    qed
  qed
  moreover have "procStep dec cfg opts env bcfg (p\<lparr>pr_sys := drain env bcfg (pr_sys p)\<rparr>)
      ((p\<lparr>pr_sys := drain env bcfg (pr_sys p)\<rparr>)\<lparr>pr_sys := finish env bcfg (drain env bcfg (pr_sys p))\<rparr>)"
    using assms by (intro flusher) (auto simp: buf_simps finish_def intro: drained [unfolded finish_def])
  ultimately show ?thesis by simp
qed

text \<open>A first step, then a run.\<close>

lemma first_step:
  "procStep dec cfg opts env bcfg p r \<Longrightarrow> \<exists>q. procSteps dec cfg opts env bcfg r q \<and> P q \<Longrightarrow>
   \<exists>q. procSteps dec cfg opts env bcfg p q \<and> P q"
  by (meson converse_rtranclp_into_rtranclp)

lemma last_step: "procStep dec cfg opts env bcfg p q \<Longrightarrow> P q \<Longrightarrow> \<exists>q. procSteps dec cfg opts env bcfg p q \<and> P q"
  by blast

text \<open>Closing the buffer leads to the exit, from wherever the flusher is.\<close>

lemma draining_exits:
  assumes "pr_stage p = ClosingBuffer" and "Ingest opts" and "phase (pr_sys p) = Draining" and "stopped (pr_sys p)"
  shows "\<exists>q. procSteps dec cfg opts env bcfg p q \<and> pr_stage q = Exited None \<and> pr_live q = pr_live p"
proof -
  let ?q = "p\<lparr>pr_sys := finish env bcfg (drain env bcfg (pr_sys p))\<rparr>"
  have "procSteps dec cfg opts env bcfg p ?q" using assms by (intro flusher_run) simp_all
  moreover have "procStep dec cfg opts env bcfg ?q (?q\<lparr>pr_stage := Exited None\<rparr>)"
    using assms by (intro closed) (simp_all add: finish_def)
  ultimately show ?thesis by (intro exI [of _ "?q\<lparr>pr_stage := Exited None\<rparr>"]) simp
qed

lemma closing_exits:
  assumes "pr_stage p = ClosingBuffer" and "Ingest opts" and "stopped (pr_sys p)"
  shows "\<exists>q. procSteps dec cfg opts env bcfg p q \<and> pr_stage q = Exited None \<and> pr_live q = pr_live p"
proof (cases "phase (pr_sys p)")
  case Running
  have "step env bcfg (pr_sys p) ((pr_sys p)\<lparr>phase := Draining\<rparr>)" using Running assms(3) by (rule stop)
  then have s: "procStep dec cfg opts env bcfg p (p\<lparr>pr_sys := (pr_sys p)\<lparr>phase := Draining\<rparr>\<rparr>)"
    using assms by (intro flusher) auto
  show ?thesis
    by (rule first_step [OF s])
      (use draining_exits [of "p\<lparr>pr_sys := (pr_sys p)\<lparr>phase := Draining\<rparr>\<rparr>" opts dec cfg env bcfg] assms in simp)
next
  case Draining
  then show ?thesis using draining_exits assms by blast
next
  case Finished
  then have s: "procStep dec cfg opts env bcfg p (p\<lparr>pr_stage := Exited None\<rparr>)" using assms(1) by (intro closed)
  show ?thesis by (rule last_step [OF s]) simp
qed

lemma stopped_http_exits:
  assumes "pr_stage p = HttpStopped"
  shows "\<exists>q. procSteps dec cfg opts env bcfg p q \<and> pr_stage q = Exited None \<and> pr_live q = pr_live p"
proof (cases "Ingest opts")
  case True
  have s: "procStep dec cfg opts env bcfg p (p\<lparr>pr_stage := ClosingBuffer, pr_sys := closeStop (pr_sys p)\<rparr>)"
    using assms True by (intro closeBuffer)
  show ?thesis
    by (rule first_step [OF s])
      (use closing_exits [of "p\<lparr>pr_stage := ClosingBuffer, pr_sys := closeStop (pr_sys p)\<rparr>" opts dec cfg env bcfg] True
       in \<open>simp add: closeStop_def\<close>)
next
  case False
  then have s: "procStep dec cfg opts env bcfg p (p\<lparr>pr_stage := Exited None\<rparr>)" using assms by (intro noBuffer)
  show ?thesis by (rule last_step [OF s]) simp
qed

lemma marked_exits:
  assumes "pr_stage p = MarkedDown"
  shows "\<exists>q. procSteps dec cfg opts env bcfg p q \<and> pr_stage q = Exited None \<and> \<not> pr_live q"
  by (rule first_step [OF httpDone [OF assms]])
    (use stopped_http_exits [of "p\<lparr>pr_stage := HttpStopped, pr_live := False\<rparr>" dec cfg opts env bcfg] in simp)

lemma leaving_exits:
  assumes "pr_stage p = Leaving"
  shows "\<exists>q. procSteps dec cfg opts env bcfg p q \<and> pr_stage q = Exited None \<and> \<not> pr_live q"
  by (rule first_step [OF mark [OF assms]])
    (use marked_exits [of "p\<lparr>pr_stage := MarkedDown, pr_ready := MarkNotReady (pr_ready p)\<rparr>" dec cfg opts env bcfg] in simp)

lemma listening_exits:
  assumes "pr_stage p = Listening"
  shows "\<exists>q. procSteps dec cfg opts env bcfg p q \<and> pr_stage q = Exited None \<and> \<not> pr_live q"
proof -
  let ?r = "p\<lparr>pr_ready := (pr_ready p)\<lparr>ctxDone := True\<rparr>\<rparr>"
  have s: "procStep dec cfg opts env bcfg p ?r" using assms by (intro signal) simp
  have n: "procStep dec cfg opts env bcfg ?r (?r\<lparr>pr_stage := Leaving\<rparr>)" using assms by (intro noticed) simp_all
  show ?thesis
    by (rule first_step [OF s], rule first_step [OF n])
      (use leaving_exits [of "?r\<lparr>pr_stage := Leaving\<rparr>" dec cfg opts env bcfg] in simp)
qed


section \<open>Leaving on a server error\<close>

text \<open>
  C33. If the HTTP server fails, \<^verbatim>\<open>runServer\<close> returns at once: whatever is in the channel and in the batch then
  was received and reported as enqueued, is in no counter of stored or dropped rows, and nothing in the
  process can write it any more, since a process that has exited takes no step. Readiness is not taken back either.
\<close>

theorem server_failure_abandons_rows:
  assumes "procSteps dec cfg opts env bcfg (startProcess w) p" and "pr_stage p = Listening"
  shows "\<exists>q. procSteps dec cfg opts env bcfg (startProcess w) q \<and> pr_stage q = Exited (Some (''http server: '' @ e)) \<and>
    pr_sys q = pr_sys p \<and> pr_ready q = pr_ready p \<and> \<not> stopped (pr_sys q) \<and> (\<forall>r. \<not> procStep dec cfg opts env bcfg q r)"
proof -
  let ?q = "p\<lparr>pr_stage := Exited (Some (''http server: '' @ e))\<rparr>"
  have "procStep dec cfg opts env bcfg p ?q" using assms(2) by (rule serverFailed)
  with assms(1) have "procSteps dec cfg opts env bcfg (startProcess w) ?q" by simp
  moreover have "\<not> stopped (pr_sys p)"
    using procSteps_orderly [OF assms(1) start_orderly] assms(2) by (auto simp: orderly_def)
  ultimately show ?thesis by (intro exI [of _ ?q]) (simp add: exited_final)
qed

section \<open>A configured process\<close>

lemma loaded_bufferConfig:
  assumes "Load e = Inr cfg"
  shows "1 \<le> BatchSize (newCfg (bufferConfig cfg))" "BatchSize (newCfg (bufferConfig cfg)) = Config.BatchSize cfg"
    "1 \<le> BufferCapacity (newCfg (bufferConfig cfg))" "BufferCapacity (newCfg (bufferConfig cfg)) = Config.BufferCapacity cfg"
    "0 < RetryBackoff (newCfg (bufferConfig cfg))" "RetryBackoff (newCfg (bufferConfig cfg)) \<le> RetryMaxBackoff (newCfg (bufferConfig cfg))"
    "0 < FlushTimeout (newCfg (bufferConfig cfg))" "RetryBackoff (newCfg (bufferConfig cfg)) = FlushRetryBackoff cfg"
    "RetryMaxBackoff (newCfg (bufferConfig cfg)) = FlushRetryMaxBackoff cfg"
  using validate_bounds [of cfg] Load_Inr [OF assms] by (auto simp: newCfg_def bufferConfig_def Let_def)

text \<open>
  C13. What was validated is what runs. With a configuration \<^verbatim>\<open>Load\<close> accepts, the buffer \<^verbatim>\<open>runServer\<close> makes keeps the
  configured sizes and delays, and in every state of the process at most \<^verbatim>\<open>BUFFER_CAPACITY\<close> rows wait in the channel
  and fewer than \<^verbatim>\<open>BATCH_SIZE\<close> in the batch.
\<close>

theorem loaded_process_bounded:
  assumes "Load e = Inr cfg"
    and "procSteps dec cfg opts env (newCfg (bufferConfig cfg)) (startProcess w) p"
  shows "int (length (chan (pr_sys p))) \<le> Config.BufferCapacity cfg \<and> int (length (batch (pr_sys p))) < Config.BatchSize cfg \<and>
    RetryBackoff (newCfg (bufferConfig cfg)) = FlushRetryBackoff cfg \<and>
    RetryMaxBackoff (newCfg (bufferConfig cfg)) = FlushRetryMaxBackoff cfg \<and> 0 < FlushTimeout (newCfg (bufferConfig cfg))"
proof -
  let ?b = "newCfg (bufferConfig cfg)"
  note c = loaded_bufferConfig [OF assms(1)]
  have "steps env ?b (newBuffer (w, [])) (pr_sys p)"
    using serves_steps [OF procSteps_serves [OF assms(2)]] by (simp add: startProcess_def)
  moreover have "bounded ?b (newBuffer (w, []))" using c(1,3) by (simp add: bounded_def newBuffer_def)
  ultimately have "bounded ?b (pr_sys p)" using steps_invariant step_bounded [OF c(1)] by blast
  then show ?thesis using c by (simp add: bounded_def)
qed

section \<open>Pruning from the command line\<close>

text \<open>
  What the database behind a configuration promises of the statements a prune sends, in terms of
  the rows \<open>tbl w\<close> it holds: row-wise deletion in Trino, listing and dropping of partitions in ClickHouse.
\<close>

definition databasePrunes :: "'w drivers \<Rightarrow> Config \<Rightarrow> ('w \<Rightarrow> Row list) \<Rightarrow> bool" where
  "databasePrunes dr cfg tbl \<longleftrightarrow>
     (let ch = newClickHouseStore (cfgClickHouse cfg) in
      if StoreBackend cfg = ''clickhouse'' then clickhouseLists (dr_conn dr) ch tbl \<and> clickhouseDrops (dr_conn dr) ch tbl
      else \<forall>s. NewTrino (dr_formatDSN dr) (dr_sqlOpen dr) (cfgTrino cfg) = Inr s \<longrightarrow> trinoDeletes (dr_exec dr) s tbl)"


section \<open>Examples\<close>

text \<open>Drivers of a Trino that holds a list of rows and understands the delete; nothing else is asked of it.\<close>

definition rowsDrivers :: "Row list drivers" where
  "rowsDrivers = \<lparr>dr_exec = \<lambda>w stmt as. (case as of [ATime t] \<Rightarrow> (filter (\<lambda>r. \<not> CreateTime r < t) w, None) | _ \<Rightarrow> (w, None)),
     dr_query = \<lambda>w q as. (w, Inr ([], None)),
     dr_conn = rowsConn (newClickHouseStore (cfgClickHouse (loadConfig (\<lambda>_. None)))), dr_scanErr = \<lambda>_. EOther ''scan'',
     dr_formatDSN = \<lambda>_. None, dr_sqlOpen = \<lambda>_. None, dr_addrErr = EOther, dr_readFile = \<lambda>_. Inr '''', dr_hasCerts = \<lambda>_. True,
     dr_chOpen = \<lambda>_. None\<rparr>"

lemma rowsDrivers_open: "\<exists>b. openStore ip rowsDrivers (loadConfig (\<lambda>_. None)) = Inr b"
  by (simp add: openStore_def Open_def NewTrino_def rowsDrivers_def loadConfig_def str_def)

abbreviation defaultCfg :: Config where "defaultCfg \<equiv> loadConfig (\<lambda>_. None)"
abbreviation defaultBuf :: BufferCfg where "defaultBuf \<equiv> newCfg (bufferConfig defaultCfg)"
abbreviation bothRoles :: Options where "bothRoles \<equiv> \<lparr>Ingest = True, UI = True\<rparr>"

text \<open>A process that has received one event.\<close>

definition eventIn :: "Event \<Rightarrow> 'w \<Rightarrow> 'w process" where
  "eventIn e w = (startProcess w)\<lparr>pr_metrics := ReceivedEvent NewMetrics,
     pr_sys := Add CaseSend (ingestRow defaultCfg e) (newBuffer (w, []))\<rparr>"

lemma eventIn_reached:
  assumes "Event.Validate e = None" and "SourceValue e = ''cli''"
  shows "procSteps (\<lambda>_. Some e) defaultCfg bothRoles env defaultBuf (startProcess w) (eventIn e w)"
proof -
  have "handleIngest (\<lambda>_. Some e) defaultCfg CaseSend NewMetrics (newBuffer (w, [])) '''' =
      (ReceivedEvent NewMetrics, Add CaseSend (ingestRow defaultCfg e) (newBuffer (w, [])), (202, ''''))"
    using default_source assms by (simp add: handleIngest_def)
  moreover have "addReady defaultBuf (newBuffer (w, [])) CaseSend"
    using loaded_bufferConfig(3) [OF Load_empty] by (simp add: hasRoom_def newBuffer_def)
  ultimately have "procStep (\<lambda>_. Some e) defaultCfg bothRoles env defaultBuf (startProcess w)
      ((startProcess w)\<lparr>pr_metrics := ReceivedEvent NewMetrics,
        pr_sys := Add CaseSend (ingestRow defaultCfg e) (newBuffer (w, []))\<rparr>)"
    by (intro request [of _ _ _ CaseSend _ _ "''''" _ _ "(202, '''')"]) (simp_all add: startProcess_def)
  then show ?thesis unfolding eventIn_def by blast
qed

abbreviation oneEvent :: "'w \<Rightarrow> 'w process" where "oneEvent \<equiv> eventIn exampleEvent"

lemmas oneEvent_reached = eventIn_reached [OF exampleEvent_valid]

lemma eventIn_sel: "pr_stage (eventIn e w) = Listening" "length (chan (pr_sys (eventIn e w))) = 1"
  by (simp_all add: eventIn_def startProcess_def observe_def newBuffer_def)

lemmas oneEvent_sel = eventIn_sel [where e = exampleEvent]

abbreviation rowsEnv :: "Row list Backend \<Rightarrow> Row list handle Env" where
  "rowsEnv b \<equiv> backendEnv b (\<lambda>_. False) (\<lambda>w. w) (\<lambda>_. 0)"

theorem clean_exit_loses_nothing_witness:
  "\<exists>b p. openStore (\<lambda>_. True) rowsDrivers defaultCfg = Inr b \<and>
     procSteps (\<lambda>_. Some exampleEvent) defaultCfg bothRoles (rowsEnv b) defaultBuf (oneEvent []) p \<and>
     pr_stage p = Exited None \<and> chan (pr_sys p) = [] \<and> batch (pr_sys p) = [] \<and>
     m_rowsFlushed (serviceMetrics (pr_metrics p, pr_sys p)) = i64 (int (length (acked (world (buf (pr_sys p))))))"
proof -
  obtain b where b: "openStore (\<lambda>_. True) rowsDrivers defaultCfg = Inr b" using rowsDrivers_open by blast
  obtain p where p: "procSteps (\<lambda>_. Some exampleEvent) defaultCfg bothRoles (rowsEnv b) defaultBuf (oneEvent []) p"
    "pr_stage p = Exited None" "\<not> pr_live p"
    using listening_exits [OF oneEvent_sel(1) [of "[]"], of "\<lambda>_. Some exampleEvent" defaultCfg bothRoles "rowsEnv b" defaultBuf] by metis
  have "procSteps (\<lambda>_. Some exampleEvent) defaultCfg bothRoles (rowsEnv b) defaultBuf (startProcess []) p"
    using oneEvent_reached p(1) by (rule rtranclp_trans)
  from clean_exit_loses_nothing [OF b _ this p(2,3)] b p show ?thesis by auto
qed


theorem server_failure_abandons_rows_witness:
  "\<exists>b q. openStore (\<lambda>_. True) rowsDrivers defaultCfg = Inr b \<and>
     procSteps (\<lambda>_. Some exampleEvent) defaultCfg bothRoles (rowsEnv b) defaultBuf (startProcess []) q \<and>
     pr_stage q = Exited (Some ''http server: accept failed'') \<and> length (chan (pr_sys q)) = 1"
proof -
  obtain b where "openStore (\<lambda>_. True) rowsDrivers defaultCfg = Inr b" using rowsDrivers_open by blast
  moreover obtain q where
    "procSteps (\<lambda>_. Some exampleEvent) defaultCfg bothRoles (rowsEnv b) defaultBuf (startProcess []) q"
    "pr_stage q = Exited (Some (''http server: '' @ ''accept failed''))" "pr_sys q = pr_sys (oneEvent [])"
    using server_failure_abandons_rows [OF oneEvent_reached oneEvent_sel(1), of "rowsEnv b" "[]" "''accept failed''"] by blast
  ultimately show ?thesis using oneEvent_sel(2) by (intro exI [of _ b] exI [of _ q]) simp
qed

theorem loaded_process_bounded_witness:
  "length (chan (pr_sys (oneEvent ()))) = 1 \<and> int (length (chan (pr_sys (oneEvent ())))) \<le> Config.BufferCapacity defaultCfg"
  using loaded_process_bounded [OF Load_empty oneEvent_reached, of "()"] oneEvent_sel(2) [of "()"] by simp


end
