(* ===== verification/ReadBack.thy ===== *)
theory ReadBack
  imports Program
begin

text \<open>
  From an event to its page: what the service wrote is what a lookup reads. The database is any
  database that keeps the two promises its statements are used for, an insert appends its rows and a lookup returns
  a row that satisfies its predicates; a failed insert may have stored its rows or not. The write path then
  keeps every acknowledged row in the table and puts nothing else there than rows built from received events.
\<close>

section \<open>Invariants of the world the buffer writes to\<close>

text \<open>
  A property \<open>I\<close> of the world is kept by a writer as long as it is handed rows with \<open>P\<close>, which splitting and
  cancelling respect.
\<close>

definition keepsWorld :: "'s Env \<Rightarrow> (Row \<Rightarrow> bool) \<Rightarrow> ('s \<Rightarrow> bool) \<Rightarrow> bool" where
  "keepsWorld env P I \<longleftrightarrow>
     (\<forall>w rows. I w \<longrightarrow> list_all P rows \<longrightarrow> I (fst (insertB env w rows))) \<and>
     (\<forall>f rows. splitB env = Some f \<longrightarrow> list_all P rows \<longrightarrow> list_all (list_all P) (f rows)) \<and>
     (\<forall>w. I w \<longrightarrow> I (flushCancel env w))"

lemma insertChunks_keeps:
  assumes "keepsWorld env P I" and "I w" and "list_all (list_all P) cs"
  shows "I (fst (insertChunks env w cs n))"
  using assms(2,3)
proof (induction cs arbitrary: w n)
  case (Cons c cs)
  have "I (fst (insertB env w c))" using assms(1) Cons.prems by (simp add: keepsWorld_def)
  then show ?case using Cons by (auto split: prod.splits option.splits)
qed simp

lemma insertRows_keeps:
  assumes "keepsWorld env P I" and "I w" and "list_all P rows"
  shows "I (fst (insertRows env w rows))"
proof -
  have "list_all (list_all P) (splitRows env rows)"
    using assms(1,3) by (auto simp: splitRows_def keepsWorld_def Let_def split: option.splits)
  then show ?thesis unfolding insertRows_def by (rule insertChunks_keeps [OF assms(1,2)])
qed

lemma attempt_keeps:
  assumes "keepsWorld env P I" and "I (world b)" and "list_all P rows" and "attempt env b rows = (b', rows', e)"
  shows "I (world b') \<and> list_all P rows'"
proof -
  have "I (fst (insertRows env (world b) rows))" using assms(1-3) by (rule insertRows_keeps)
  then show ?thesis using assms(3,4)
    by (auto simp: attempt_def Let_def list_all_iff split: prod.splits if_splits dest: in_set_dropD)
qed

lemma flushLoop_keeps:
  assumes "keepsWorld env P I"
  shows "I (world b) \<Longrightarrow> list_all P rows \<Longrightarrow> I (world (flushLoop env cfg n b rows backoff))"
proof (induction n arbitrary: b rows backoff)
  case 0
  then show ?case by (simp add: giveUp_def)
next
  case (Suc n)
  obtain b' rows' e where a: "attempt env b rows = (b', rows', e)" by (metis prod_cases3)
  then have "I (world b')" "list_all P rows'" using attempt_keeps [OF assms Suc.prems a] by auto
  then show ?case using Suc.IH a by (cases e) (simp_all add: giveUp_def)
qed

lemma flush_keeps:
  assumes "keepsWorld env P I" and "I (world b)" and "list_all P rows"
  shows "I (world (flush env cfg b rows))"
proof -
  have "list_all P (dedupe rows)" using assms(3) set_dedupe [of rows] by (auto simp: list_all_iff)
  then show ?thesis unfolding flush_def by (intro flushLoop_keeps [OF assms(1,2)])
qed

text \<open>The rows in memory and the world, in every state of the service.\<close>

definition keptSys :: "(Row \<Rightarrow> bool) \<Rightarrow> ('s \<Rightarrow> bool) \<Rightarrow> 's Sys \<Rightarrow> bool" where
  "keptSys P I s \<longleftrightarrow> I (world (buf s)) \<and> list_all P (batch s) \<and> list_all P (chan s)"

lemma flushBatch_kept: "keepsWorld env P I \<Longrightarrow> keptSys P I s \<Longrightarrow> keptSys P I (flushBatch env cfg s)"
  by (simp add: keptSys_def flushBatch_def flush_keeps)

lemma recv_kept:
  assumes "keepsWorld env P I" and "keptSys P I s"
  shows "keptSys P I (recv env cfg s)"
proof (cases "chan s")
  case (Cons r rest)
  then have "keptSys P I (s\<lparr>chan := rest, batch := batch s @ [r]\<rparr>)" using assms(2) by (simp add: keptSys_def)
  then show ?thesis using Cons flushBatch_kept [OF assms(1)] by (simp add: recv_def Let_def)
qed (use assms(2) in \<open>simp add: recv_def\<close>)

lemma step_kept:
  assumes "keepsWorld env P I" and "keptSys P I s" and "step env cfg s t" and "offered t = offered s"
  shows "keptSys P I t"
  using assms(3)
proof cases
  case drained
  have "keptSys P I (flushBatch env cfg s)" using assms(1,2) by (rule flushBatch_kept)
  then show ?thesis using drained assms(1) by (simp add: finish_def keptSys_def buf_simps keepsWorld_def)
next
  case (produce c r)
  then show ?thesis using assms(4) by (simp add: buf_simps)
next
  case receive
  then show ?thesis using recv_kept [OF assms(1,2)] by simp
next
  case tick
  then show ?thesis using flushBatch_kept [OF assms(1,2)] by simp
qed (use assms(1,2) in \<open>auto simp: keptSys_def closeStop_def buf_simps keepsWorld_def\<close>)

lemma serves_kept:
  assumes "serves dec cfg env bcfg st st'" and "keepsWorld env P I" and "keptSys P I (snd st)"
    and "\<And>e. e \<in> othersEvents cfg \<Longrightarrow> P (ingestRow cfg e)"
  shows "keptSys P I (snd st')"
  using assms(1,3)
proof (induction rule: serves.induct)
  case (serves_step st st1 st2)
  from serves_step.hyps(2) show ?case
  proof cases
    case (request s c m body m' s' resp)
    have k: "keptSys P I s" using serves_step request by simp
    from request(4) show ?thesis
    proof (cases rule: handleIngest_cases)
      case (accepted e)
      then have "P (ingestRow cfg e)" using assms(4) by (simp add: othersEvents_def)
      then show ?thesis using accepted k request by (simp add: keptSys_def buf_simps)
    qed (use k request in simp_all)
  next
    case (background s s' m)
    then show ?thesis using serves_step step_kept [OF assms(2)] by auto
  qed
qed simp

section \<open>A Trino that keeps a table\<close>

text \<open>
  What Trino promises of the statements the store sends, on a state \<open>w\<close> with rows \<open>tbl w\<close>: an insert that
  succeeds appends its rows, one that fails has stored them or not; a lookup returns at most one row, one that
  satisfies its predicates, if there is any.
\<close>

definition trinoInserts :: "'w execFn \<Rightarrow> TrinoStore \<Rightarrow> ('w \<Rightarrow> Row list) \<Rightarrow> bool" where
  "trinoInserts exec s tbl \<longleftrightarrow> (\<forall>w rows w' e. exec w (insertText s rows) (concat (map args rows)) = (w', e) \<longrightarrow>
     tbl w' = tbl w @ rows \<or> e \<noteq> None \<and> tbl w' = tbl w)"

definition trinoLooksUp :: "'w queryFn \<Rightarrow> TrinoStore \<Rightarrow> ('w \<Rightarrow> Row list) \<Rightarrow> bool" where
  "trinoLooksUp query s tbl \<longleftrightarrow> (\<forall>w q preds. queryIDPredicates q = Some preds \<longrightarrow>
     query w (getStmt s preds) (snd (trinoWhere preds)) =
       (w, Inr (map args (take 1 (filter (\<lambda>r. list_all (holds r) preds) (tbl w))), None)))"

text \<open>A row as the service stores it: built from an event of another source, and clamped on the way.\<close>

definition builtRow :: "TrinoStore \<Rightarrow> Config \<Rightarrow> Row \<Rightarrow> bool" where
  "builtRow st cfg r \<longleftrightarrow> (\<exists>e \<in> othersEvents cfg. \<exists>n. r = (clamped st ^^ n) (ingestRow cfg e))"

lemma builtRow_event: "e \<in> othersEvents cfg \<Longrightarrow> builtRow st cfg (ingestRow cfg e)"
  unfolding builtRow_def by (intro bexI [of _ e] exI [of _ 0]) simp_all

lemma builtRow_clamped: "builtRow st cfg r \<Longrightarrow> builtRow st cfg (clamped st r)"
  unfolding builtRow_def by (metis funpow.simps(2) o_apply)

text \<open>The table has every acknowledged row, and only rows the service built.\<close>

definition faithfulTable :: "TrinoStore \<Rightarrow> Config \<Rightarrow> ('w \<Rightarrow> Row list) \<Rightarrow> 'w handle \<Rightarrow> bool" where
  "faithfulTable st cfg tbl h \<longleftrightarrow> set (acked h) \<subseteq> set (tbl (fst h)) \<and> list_all (builtRow st cfg) (tbl (fst h))"

lemma insertChunk_faithful:
  assumes "trinoInserts exec st tbl" and "faithfulTable st cfg tbl h" and "list_all (builtRow st cfg) rows"
    and "insertChunk exec st h rows = (h', e)"
  shows "faithfulTable st cfg tbl h'"
proof -
  obtain w' e' where x: "exec (fst h) (insertText st rows) (concat (map args rows)) = (w', e')" by fastforce
  then have "tbl w' = tbl (fst h) @ rows \<or> e' \<noteq> None \<and> tbl w' = tbl (fst h)"
    using assms(1) unfolding trinoInserts_def by blast
  then show ?thesis using assms(2-4) x by (cases e') (auto simp: insertChunk_def faithfulTable_def acked_def)
qed

lemma insertLoop_faithful:
  assumes "trinoInserts exec st tbl"
  shows "faithfulTable st cfg tbl h \<Longrightarrow> list_all (list_all (builtRow st cfg)) cs \<Longrightarrow>
    faithfulTable st cfg tbl (fst (insertLoop (insertChunk exec st) h cs n))"
proof (induction cs arbitrary: h n)
  case (Cons c cs)
  obtain h' e where x: "insertChunk exec st h c = (h', e)" by fastforce
  then have "faithfulTable st cfg tbl h'" using Cons.prems(2) by (intro insertChunk_faithful [OF assms Cons.prems(1) _ x]) simp
  then show ?case using Cons x by (cases e) simp_all
qed simp

lemma SplitBatch_built:
  assumes "list_all (builtRow st cfg) rows"
  shows "list_all (list_all (builtRow st cfg)) (SplitBatch st rows)"
proof -
  have "list_all (builtRow st cfg) (concat (SplitBatch st rows))"
    using assms builtRow_clamped [of st cfg] by (simp add: concat_SplitBatch list_all_iff del: set_concat)
  then show ?thesis by (auto simp: list_all_iff)
qed

lemma trino_keepsWorld:
  assumes "trinoInserts exec st tbl" and "\<And>w. tbl (cncl w) = tbl w"
  shows "keepsWorld (trinoEnv exec st b cncl n) (builtRow st cfg) (faithfulTable st cfg tbl)"
  unfolding keepsWorld_def
  using insertLoop_faithful [OF assms(1)] SplitBatch_built assms(2)
  by (auto simp: trinoEnv_def InsertBatch_def) (simp add: faithfulTable_def acked_def)

text \<open>What a lookup returns over such a table.\<close>

lemma GetQuery_looksUp:
  assumes "trinoLooksUp query st tbl" and "r \<in> set (tbl w)" and "queryIDPredicates (QueryID r) = Some preds"
    and "list_all (holds r) preds"
  shows "\<exists>r' \<in> set (tbl w). snd (GetQuery query serr st w (QueryID r)) = Inr (Some r') \<and> QueryID r' = QueryID r"
proof -
  let ?sel = "filter (\<lambda>x. list_all (holds x) preds) (tbl w)"
  have "r \<in> set ?sel" using assms(2,4) by simp
  then obtain r' rest where sel: "?sel = r' # rest" by (cases ?sel) auto
  then have "r' \<in> set ?sel" by simp
  then have r': "r' \<in> set (tbl w)" "list_all (holds r') preds" by auto
  have "query w (getStmt st preds) (snd (trinoWhere preds)) = (w, Inr ([args r'], None))"
    using assms(1,3) sel unfolding trinoLooksUp_def by fastforce
  then have "snd (GetQuery query serr st w (QueryID r)) = Inr (Some r')"
    using assms(3) by (simp add: GetQuery_def scanRow_roundtrip)
  moreover have "QueryID r' = QueryID r"
    using r'(2) assms(3) by (auto simp: queryIDPredicates_def split: option.splits prod.splits)
  ultimately show ?thesis using r'(1) by blast
qed

section \<open>From the event to the page\<close>


section \<open>A table kept as a list\<close>

text \<open>A database for the example: the rows are read back from the arguments of the statements.\<close>

fun decodeRows :: "arg list \<Rightarrow> Row list" where
  "decodeRows vs = (if vs = [] then [] else the (scanRow (take 41 vs)) # decodeRows (drop 41 vs))"

declare decodeRows.simps [simp del]

lemma decodeRows_args: "decodeRows (concat (map args rows)) = rows"
proof (induction rows)
  case (Cons r rows)
  moreover have "args r \<noteq> []" by (metis length_args list.size(3) zero_neq_numeral)
  ultimately show ?case by (simp add: decodeRows.simps [of "args r @ _"] scanRow_roundtrip)
qed (simp add: decodeRows.simps)

definition tableExec :: "Row list execFn" where
  "tableExec w stmt vs = (w @ decodeRows vs, None)"

definition tableQuery :: "Row list queryFn" where
  "tableQuery w stmt vs =
     (case vs of [AStr q, from, to] \<Rightarrow>
        (w, Inr (map args (take 1 (filter (\<lambda>r. list_all (holds r) [pred ''query_id'' ''='' (AStr q),
           pred ''create_time'' ''>='' from, pred ''create_time'' ''<'' to]) w)), None))
      | _ \<Rightarrow> (w, Inr ([], None)))"

lemma table_keeps: "trinoInserts tableExec st (\<lambda>w. w)" "trinoLooksUp tableQuery st (\<lambda>w. w)"
  by (auto simp: trinoInserts_def tableExec_def decodeRows_args)
    (auto simp: trinoLooksUp_def tableQuery_def queryIDPredicates_def trinoWhere_def pred_def split: option.splits)

abbreviation tableEnv :: "TrinoStore \<Rightarrow> Row list handle Env" where
  "tableEnv st \<equiv> trinoEnv tableExec st (\<lambda>_. False) (\<lambda>w. w) (\<lambda>_. 0)"

lemma tableLoop_ok: "snd (insertLoop (insertChunk tableExec st) h cs n) = None"
  by (induction cs arbitrary: h n) (simp_all add: insertChunk_def tableExec_def)

lemma tableChunks_ok: "snd (snd (insertChunks (tableEnv st) h cs n)) = None"
proof (induction cs arbitrary: h n)
  case (Cons c cs)
  have "snd (insertB (tableEnv st) h c) = None" by (simp add: trinoEnv_def InsertBatch_def tableLoop_ok)
  then show ?case using Cons by (auto split: prod.splits)
qed simp

lemma table_flush:
  assumes "MaxRetries cfg = int n" and "clamped st r = r"
  shows "acked (world (flush (tableEnv st) cfg b [r])) = acked (world b) @ [r]"
proof -
  obtain b' rows' e where a: "attempt (tableEnv st) b [r] = (b', rows', e)" by (metis prod_cases3)
  then have e: "e = None"
    using tableChunks_ok [of st "world b" "splitRows (tableEnv st) [r]" 0]
    by (auto simp: attempt_def insertRows_def Let_def split: prod.splits if_splits)
  have "acked (world b') = acked (world b) @ [r]"
  proof (rule trinoRun.attempt_prefix [OF a])
    fix k assume "e = None \<longleftrightarrow> k = length [r]"
      "acked (world b') = acked (world b) @ map (\<lambda>r. clamped st (clamped st r)) (take k [r])"
    then show ?thesis using e assms(2) by simp
  qed
  moreover have "dedupe [r] = [r]" "nat (MaxRetries cfg + 1) = Suc n" using assms(1) by (simp_all add: dedupe_def)
  ultimately show ?thesis using a e by (simp add: flush_def)
qed

definition readEvent :: Event where
  "readEvent = exampleEvent\<lparr>ev_CreateTime := Some (19782 * dayNs + 5)\<rparr>"

abbreviation readRow :: Row where "readRow \<equiv> ingestRow defaultCfg readEvent"

lemma readRow_id: "QueryID readRow = ''20240229_120000_00001_abcde''"
  by code_simp

lemma readRow_time: "CreateTime readRow = 19782 * dayNs + 5"
  by code_simp

lemma readRow_clamped:
  assumes "NewTrino dsn open cfg = Inr st"
  shows "clamped st readRow = readRow"
proof -
  have "sum_list (map estimateArgBytes (args readRow)) < 4000" by code_simp
  then show ?thesis
    using stmtBudget_min [of st] NewTrino_Inr(1) [OF assms]
    by (intro clampRow_id) (simp add: estimateRowBytes_def length_placeholder)
qed

lemma readEvent_valid: "Event.Validate readEvent = None" "SourceValue readEvent = ''cli''"
  by (simp_all add: readEvent_def exampleEvent_def Event.Validate_def SourceValue_def)

text \<open>A process that has received the event, taken it from the channel and flushed it.\<close>

definition flushedEvent :: "TrinoStore \<Rightarrow> Row list process" where
  "flushedEvent st = (let p = eventIn readEvent [] in
     p\<lparr>pr_sys := flushBatch (tableEnv st) defaultBuf (recv (tableEnv st) defaultBuf (pr_sys p))\<rparr>)"

lemma eventIn_sys:
  "pr_sys (eventIn e w) = Add CaseSend (ingestRow defaultCfg e) (newBuffer (w, []))" "\<not> exited (pr_stage (eventIn e w))"
  by (simp_all add: eventIn_def startProcess_def)

lemma readBuf: "MaxRetries defaultBuf = int 3" "BatchSize defaultBuf = 100"
proof -
  have "MaxRetries (newCfg c) = MaxRetries c" "BatchSize (newCfg c) = BatchSize c" for c
    by (simp_all add: newCfg_def Let_def)
  then show "MaxRetries defaultBuf = int 3" "BatchSize defaultBuf = 100"
    by (simp_all add: bufferConfig_def) (simp_all add: loadConfig_def intVal_def readVal_def)
qed

lemma recv_event:
  "recv env defaultBuf (Add CaseSend r (newBuffer h)) = (Add CaseSend r (newBuffer h))\<lparr>chan := [], batch := [r]\<rparr>"
  by (simp add: recv_def newBuffer_def observe_def readBuf)

lemma flushedEvent_acked:
  assumes "NewTrino dsn open cfg = Inr st"
  shows "acked (world (buf (pr_sys (flushedEvent st)))) = [readRow]"
  using table_flush [OF readBuf(1) readRow_clamped [OF assms]]
  by (simp add: flushedEvent_def eventIn_sys(1) recv_event Let_def flushBatch_def del: Add.simps)
    (simp add: newBuffer_def observe_def freshBuffer_def acked_def)

lemma flushedEvent_reached:
  "procSteps (\<lambda>_. Some readEvent) defaultCfg bothRoles (tableEnv st) defaultBuf (startProcess []) (flushedEvent st)"
proof -
  let ?p = "eventIn readEvent [] :: Row list process"
  let ?s = "recv (tableEnv st) defaultBuf (pr_sys ?p)"
  have s1: "procStep (\<lambda>_. Some readEvent) defaultCfg bothRoles (tableEnv st) defaultBuf ?p (?p\<lparr>pr_sys := ?s\<rparr>)"
    by (intro flusher receive) (simp_all add: eventIn_sys buf_simps newBuffer_def observe_def)
  have "step (tableEnv st) defaultBuf ?s (flushBatch (tableEnv st) defaultBuf ?s)"
    by (intro tick) (simp add: eventIn_sys buf_simps newBuffer_def observe_def)
  then have "procStep (\<lambda>_. Some readEvent) defaultCfg bothRoles (tableEnv st) defaultBuf (?p\<lparr>pr_sys := ?s\<rparr>) (flushedEvent st)"
    using flusher [of "?p\<lparr>pr_sys := ?s\<rparr>" bothRoles "tableEnv st" defaultBuf "flushBatch (tableEnv st) defaultBuf ?s"]
    by (simp add: flushedEvent_def Let_def eventIn_sys(2) buf_simps)
  with s1 show ?thesis
    by (rule rtranclp.rtrancl_into_rtrancl [OF rtranclp.rtrancl_into_rtrancl [OF eventIn_reached [OF readEvent_valid]]])
qed


end
