(* ===== verification/Spec2Isabelle.thy ===== *)
theory Spec2Isabelle
  imports IsoDuration ReadBack
begin

text \<open>
  \<^bold>\<open>The Trino query-log sink\<close>

  The program receives Trino's query-completed events over HTTP, turns each into a row, batches the
  rows in memory and writes them to a store, an Iceberg table behind Trino or a ClickHouse table. It also serves a
  browse UI and a JSON API over the stored rows, optionally through a Redis cache, has maintenance commands,
  and comes with a command-line client of its API. This library models that program, file by file, and proves what makes
  it correct; every model function is named after the Go function it translates.

  \<^bold>\<open>The parts and their theories\<close> (paths are below \<^verbatim>\<open>src/internal\<close>, and \<^verbatim>\<open>cmd\<close> is \<^verbatim>\<open>src/cmd/trino-query-log-sink\<close>)

  \<^item> Language: \<open>Prelude\<close> (integers with 64-bit wrap-around, Go division, named collections of facts), \<open>GoStrings\<close>
    (strings as byte lists, UTF-8, decimal numbers, \<^verbatim>\<open>strings\<close> and \<^verbatim>\<open>strconv\<close>), \<open>GoQuote\<close> (\<^verbatim>\<open>%q\<close>), \<open>GoFloat\<close> (float64 rounding on
    non-negative rationals), \<open>GoTime\<close> (civil dates and UTC formatting over nanoseconds), \<open>GoUrl\<close> (\<^verbatim>\<open>url.Values\<close>, query escaping,
    HTML escaping), \<open>Sha256\<close>.
  \<^item> Events and rows: \<open>Event\<close> (\<^verbatim>\<open>event/event.go\<close>), \<open>IsoDuration\<close> (\<^verbatim>\<open>event/duration.go\<close>), \<open>StoreRow\<close> (the schema and
    \<^verbatim>\<open>Row\<close> of \<^verbatim>\<open>store/store.go\<close>), \<open>Truncate\<close>, \<open>RowBuild\<close> (\<^verbatim>\<open>store/truncate.go\<close>, \<^verbatim>\<open>store/row.go\<close>).
  \<^item> Stores: \<open>StoreErrors\<close>, \<open>Chunk\<close>, \<open>SqlText\<close>, \<open>StoreQuery\<close> (errors, chunking, identifiers, predicates), \<open>StoreContract\<close> (the write
    contract as locales), \<open>TrinoStore\<close> and \<open>TrinoRead\<close> (\<^verbatim>\<open>store/trino.go\<close>), \<open>ClickHouse\<close> and \<open>ClickHouseRead\<close>
    (\<^verbatim>\<open>store/clickhouse.go\<close>), \<open>Retention\<close> (\<^verbatim>\<open>prune/prune.go\<close>), \<open>StoreCache\<close> (\<^verbatim>\<open>cache/*.go\<close>, \<^verbatim>\<open>store/cache.go\<close>), \<open>Backend\<close>
    (the interfaces of \<^verbatim>\<open>store/store.go\<close> and \<^verbatim>\<open>store/factory.go\<close>).
  \<^item> Writing: \<open>IngestBuffer\<close> (flush, retries, deduplication), \<open>IngestRun\<close> (producers, flusher and shutdown as a step relation),
    \<open>IngestStores\<close> (the buffer over both stores), \<open>Metrics\<close> (\<^verbatim>\<open>observability/metrics.go\<close>), \<open>ServerIngest\<close> (\<^verbatim>\<open>server/ingest.go\<close>).
  \<^item> Reading: \<open>WebQuery\<close> (\<^verbatim>\<open>server/ui.go\<close>, \<^verbatim>\<open>server/api.go\<close>), \<open>WebText\<close> (\<^verbatim>\<open>server/format.go\<close>), \<open>QueryCli\<close> (\<^verbatim>\<open>querycli/*.go\<close>).
  \<^item> The process: \<open>Config\<close> (\<^verbatim>\<open>config/config.go\<close>), \<open>Readiness\<close> and \<open>HttpServer\<close> (\<^verbatim>\<open>server/server.go\<close>), \<open>Program\<close>
    (\<^verbatim>\<open>cmd/main.go\<close>), \<open>ReadBack\<close> (write and read path together, over a database that keeps a table).

  \<^bold>\<open>How the state corresponds\<close>

  A Go struct is a record with the same fields; an \<^verbatim>\<open>int\<close> or \<^verbatim>\<open>int64\<close> is an \<^typ>\<open>int\<close>, wrapped by \<open>i64\<close> where the code can
  overflow; a string is its bytes. Errors are values of \<open>err\<close>, trees that \<^verbatim>\<open>errors.Is\<close> and \<^verbatim>\<open>errors.As\<close> walk. What
  the program calls outside itself (database drivers, Redis, JSON, the file system, HTML templates, the network) are function
  parameters over a world type; what a theorem needs of them is a named hypothesis, and its witness has an instance. A store's
  world also carries the rows whose insert was acknowledged. Goroutines that share state (producers and flusher, readiness
  checker and shutdown, and all of them in \<open>Program\<close>) are inductive step relations in which any enabled step may come next.

  \<^bold>\<open>What is shown\<close>

  \<^item> The write path. \<open>StoreContract\<close> states what \<^verbatim>\<open>InsertBatch\<close> promises: all rows, or a prefix whose length is \<^verbatim>\<open>CommittedRows\<close>
    of the error. Both stores are interpretations, so the buffer's lemmas, proved once in the locales \<open>buffer_env\<close> and
    \<open>run_env\<close>, hold for both and for whatever \<^verbatim>\<open>Open\<close> returns. Over them: every row handed to the buffer is stored, counted
    as dropped, superseded or in memory; every event received is accounted for in the counters; a process that leaves in order has
    nothing left in memory, and from every state it can leave; memory is bounded by the validated configuration; retries follow the
    schedule; only foreign, truncated rows are stored.
  \<^item> The stores. Trino statements stay below the size limit, clamping ends within its 1000 iterations, chunking is optimal; ClickHouse's
    deduplication token identifies a batch and is kept by retries; both backends prune exactly the rows before the
    cutoff; predicates select what the filter says, and values never reach the statement text.
  \<^item> The read path. Links and query strings round-trip, pages walked in order are the listing, the cache answers only what the store
    answered and falls back to it, roles hold at the HTTP surface, readiness is the last check's result, and \<^verbatim>\<open>query list\<close> and \<^verbatim>\<open>query
    get\<close> print what the store behind the server has. Over a Trino that appends what it is sent and answers lookups, every
    acknowledged row is found again by its id, and the table holds only rows built from received events.
  \<^item> Behaviour that falls short of its purpose is proved as well: a duration such as \<^verbatim>\<open>PT1.001S\<close> loses a millisecond, a row
    added after the flusher returned is stranded, a check in flight can undo \<^verbatim>\<open>MarkNotReady\<close>, the API repeats its page at
    offset 100000, and a failing HTTP server abandons the buffer.

  \<^bold>\<open>Bounds and fuel\<close>

  Loops are structural or have a measure. \<open>clampLoop\<close> has the fuel the code itself has, 1000 iterations, proved enough; \<open>flushLoop\<close>
  runs over the configured number of attempts; \<open>drain\<close>, \<open>parseFlags\<close>, \<open>parseWithID\<close> and \<open>runes\<close> have termination proofs.

  \<^bold>\<open>Not modelled\<close>

  Log output and log levels (\<^verbatim>\<open>observability/log.go\<close>), the HTML templates and static files, the usage texts, connection
  pools and timeouts of drivers (a timeout is an error the parameter may return, or a choice of a step relation), the column
  widths of \<^verbatim>\<open>text/tabwriter\<close>, and JSON itself, which is the parameter \<open>dec\<close>, \<open>enc\<close> or a codec. A flush is one step of the
  running buffer: it changes neither the channel nor the stop signal, which it reads only to shorten a wait.
\<close>

end
